(* ===== verification/Go_Prelude.thy ===== *)
theory Go_Prelude
  imports Main "HOL-Library.Word" "HOL-Library.AList" "HOL-Library.Char_ord" "HOL-Library.List_Lexorder"
    "HOL-Library.Code_Target_Numeral"
begin

text \<open>
  What every component of the development shares: Go errors as values, results, Go maps as
  association lists, decimal numerals (\<^verbatim>\<open>strconv\<close>, \<^verbatim>\<open>fmt\<close> with verb d), joining and splitting
  of strings, and the generic lemmas on them.

  Go strings and byte slices are sequences of bytes, so both are \<^typ>\<open>string\<close> (a list of 8-bit
  characters). A Go \<^verbatim>\<open>int\<close> is 64 bits wide; where the width matters it is a \<^typ>\<open>64 word\<close>,
  where the code only compares a configuration value it is an \<^typ>\<open>int\<close>.

  A Go map is an association list with distinct keys. The order of the list stands for the order
  the runtime picks when it ranges over the map, which Go leaves unspecified: a theorem about
  every such list covers every iteration order.
\<close>

section \<open>Collections of facts\<close>

named_theorems go_simps \<open>simplification rules for Go maps, results and numerals\<close>
named_theorems go_defs \<open>definitions of small helpers that proofs unfold together\<close>

section \<open>Errors and results\<close>

text \<open>
  \<open>Errorf\<close> is \<^verbatim>\<open>fmt.Errorf\<close> or \<^verbatim>\<open>errors.New\<close> with its format string and the rendered
  arguments; \<open>Wrapf\<close> is \<^verbatim>\<open>fmt.Errorf\<close> whose format has the verb w, with the wrapped error last.
  \<open>Panic\<close> is a run-time panic with its message: the outcome of a call that unwinds the goroutine.
  \<open>Errsf\<close> is \<^verbatim>\<open>fmt.Errorf\<close> whose argument is a slice of errors, of which it wraps none. The
  other constructors are the package level sentinel errors and those of the context package.
\<close>

datatype gerror =
    Errorf string "string list"
  | Wrapf string "string list" gerror
  | ErrQueueClosed
  | ErrInvalidOperation
  | ErrRedisOperationsNotSupported
  | ErrMemoryQueueClosed
  | ErrKafkaQueueClosed
  | ErrBufferFull
  | ErrBufferClosed
  | ErrInvalidRecord
  | ErrMissingPrimaryKey
  | ErrInvalidOperationType
  | ContextCanceled
  | ContextDeadlineExceeded
  | RedisNil
  | Panic string
  | Errsf string "gerror list"

type_synonym 'a res = "gerror + 'a"

text \<open>\<^verbatim>\<open>errors.Is\<close>: the error itself or one it wraps.\<close>

fun errors_Is :: "gerror \<Rightarrow> gerror \<Rightarrow> bool" where
  "errors_Is (Wrapf f as e) target = (Wrapf f as e = target \<or> errors_Is e target)"
| "errors_Is e target = (e = target)"

fun is_err :: "'a res \<Rightarrow> bool" where
  "is_err (Inl _) = True"
| "is_err (Inr _) = False"

text \<open>The error half of a result, as a Go caller that ignores the value sees it.\<close>

fun err_of :: "'a res \<Rightarrow> gerror option" where
  "err_of (Inl e) = Some e"
| "err_of (Inr _) = None"

section \<open>Go maps\<close>

type_synonym 'v gomap = "(string \<times> 'v) list"

definition gomap_wf :: "'v gomap \<Rightarrow> bool" where
  "gomap_wf m \<longleftrightarrow> distinct (map fst m)"

definition gomap_set :: "'v gomap \<Rightarrow> string \<Rightarrow> 'v \<Rightarrow> 'v gomap" where
  "gomap_set m k v = AList.update k v m"

definition gomap_delete :: "'v gomap \<Rightarrow> string \<Rightarrow> 'v gomap" where
  "gomap_delete m k = AList.delete k m"

text \<open>A map built by assigning the pairs of a list in order.\<close>

definition gomap_of :: "(string \<times> 'v) list \<Rightarrow> 'v gomap" where
  "gomap_of ps = fold (\<lambda>(k, v) m. gomap_set m k v) ps []"

section \<open>Characters and decimal numerals\<close>

definition is_digit :: "char \<Rightarrow> bool" where
  "is_digit c \<longleftrightarrow> 48 \<le> (of_char c :: nat) \<and> (of_char c :: nat) \<le> 57"

definition digit_char :: "nat \<Rightarrow> char" where
  "digit_char d = char_of (48 + d)"

definition digit_val :: "char \<Rightarrow> nat" where
  "digit_val c = of_char c - 48"

fun show_nat :: "nat \<Rightarrow> string" where
  "show_nat n = (if n < 10 then [digit_char n] else show_nat (n div 10) @ [digit_char (n mod 10)])"

declare show_nat.simps [simp del]

definition show_int :: "int \<Rightarrow> string" where
  "show_int i = (if i < 0 then CHR ''-'' # show_nat (nat (- i)) else show_nat (nat i))"

definition digits_val :: "string \<Rightarrow> nat" where
  "digits_val s = foldl (\<lambda>a c. a * 10 + digit_val c) 0 s"

text \<open>
  \<^verbatim>\<open>strconv.ParseInt(s, 10, bits)\<close>: an optional sign, then one or more digits, and the value has
  to fit the width. \<open>None\<close> is a syntax or a range error.
\<close>

definition parse_signed :: "string \<Rightarrow> int option" where
  "parse_signed s =
     (let (neg, ds) = (case s of
          [] \<Rightarrow> (False, [])
        | c # cs \<Rightarrow> if c = CHR ''-'' then (True, cs) else if c = CHR ''+'' then (False, cs) else (False, s))
      in if ds = [] \<or> \<not> list_all is_digit ds then None
         else Some (if neg then - int (digits_val ds) else int (digits_val ds)))"

definition ParseInt :: "nat \<Rightarrow> string \<Rightarrow> int option" where
  "ParseInt bits s =
     (case parse_signed s of
        None \<Rightarrow> None
      | Some i \<Rightarrow> if - (2 ^ (bits - 1)) \<le> i \<and> i < 2 ^ (bits - 1) then Some i else None)"

section \<open>Joining, splitting, case and trimming\<close>

fun str_join :: "string \<Rightarrow> string list \<Rightarrow> string" where
  "str_join sep [] = []"
| "str_join sep [x] = x"
| "str_join sep (x # y # ys) = x @ sep @ str_join sep (y # ys)"

text \<open>\<^verbatim>\<open>strings.Split\<close> with a separator of one byte: never empty, keeps empty parts.\<close>

fun str_split :: "char \<Rightarrow> string \<Rightarrow> string list" where
  "str_split sep [] = [ [] ]"
| "str_split sep (c # cs) =
     (if c = sep then [] # str_split sep cs
      else (case str_split sep cs of [] \<Rightarrow> [ [c] ] | p # ps \<Rightarrow> (c # p) # ps))"

definition to_upper_char :: "char \<Rightarrow> char" where
  "to_upper_char c = (let n = (of_char c :: nat) in if 97 \<le> n \<and> n \<le> 122 then char_of (n - 32) else c)"

definition to_lower_char :: "char \<Rightarrow> char" where
  "to_lower_char c = (let n = (of_char c :: nat) in if 65 \<le> n \<and> n \<le> 90 then char_of (n + 32) else c)"

definition ToUpper :: "string \<Rightarrow> string" where
  "ToUpper s = map to_upper_char s"

definition ToLower :: "string \<Rightarrow> string" where
  "ToLower s = map to_lower_char s"

text \<open>The ASCII white space of \<^verbatim>\<open>unicode.IsSpace\<close>: tab, newline, VT, FF, CR and space.\<close>

definition is_space :: "char \<Rightarrow> bool" where
  "is_space c \<longleftrightarrow> (let n = (of_char c :: nat) in n = 32 \<or> (9 \<le> n \<and> n \<le> 13))"

definition TrimSpace :: "string \<Rightarrow> string" where
  "TrimSpace s = rev (dropWhile is_space (rev (dropWhile is_space s)))"

section \<open>Lemmas\<close>

subsection \<open>Errors\<close>

lemma errors_Is_refl [simp]: "errors_Is e e"
  by (cases e) auto

lemma is_err_iff [go_simps]: "is_err r \<longleftrightarrow> (\<exists>e. r = Inl e)"
  by (cases r) auto

lemma not_err_iff: "\<not> is_err r \<longleftrightarrow> (\<exists>v. r = Inr v)"
  by (cases r) auto

lemma err_of_None_iff [go_simps]: "err_of r = None \<longleftrightarrow> (\<exists>v. r = Inr v)"
  by (cases r) auto

subsection \<open>Go maps\<close>

lemma gomap_get_set [simp, go_simps]: "map_of (gomap_set m k v) = (map_of m)(k \<mapsto> v)"
  by (simp add: gomap_set_def update_conv')

lemma gomap_get_delete [simp, go_simps]: "map_of (gomap_delete m k) = (map_of m)(k := None)"
  by (simp add: gomap_delete_def delete_conv')

lemma gomap_wf_empty [simp]: "gomap_wf []"
  by (simp add: gomap_wf_def)

lemma gomap_wf_set [simp, intro]: "gomap_wf m \<Longrightarrow> gomap_wf (gomap_set m k v)"
  by (simp add: gomap_wf_def gomap_set_def distinct_update)

lemma gomap_wf_delete [simp, intro]: "gomap_wf m \<Longrightarrow> gomap_wf (gomap_delete m k)"
  by (simp add: gomap_wf_def gomap_delete_def distinct_delete)

lemma gomap_keys_set: "fst ` set (gomap_set m k v) = insert k (fst ` set m)"
  by (simp add: gomap_set_def dom_map_of_conv_image_fst [symmetric] update_conv')

lemma gomap_mem_iff: "gomap_wf m \<Longrightarrow> (k, v) \<in> set m \<longleftrightarrow> map_of m k = Some v"
  by (auto simp: gomap_wf_def)

lemma gomap_of_wf [simp]: "gomap_wf (gomap_of ps)"
proof -
  have "gomap_wf m \<Longrightarrow> gomap_wf (fold (\<lambda>(k, v) m. gomap_set m k v) ps m)" for m :: "'a gomap"
    by (induction ps arbitrary: m) auto
  then show ?thesis by (simp add: gomap_of_def)
qed

lemma gomap_of_get: "map_of (gomap_of ps) = map_of (rev ps)"
proof -
  have "map_of (fold (\<lambda>(k, v) m. gomap_set m k v) ps m) = map_of m ++ map_of (rev ps)" for m :: "'a gomap"
    by (induction ps arbitrary: m) (auto simp: map_add_def fun_eq_iff split: option.splits)
  then show ?thesis by (simp add: gomap_of_def)
qed

lemma map_of_rev_distinct: "distinct (map fst ps) \<Longrightarrow> map_of (rev ps) = map_of ps"
  by (rule map_of_eqI) (auto simp: rev_map [symmetric])

lemma map_of_wf_sort: "distinct (map fst ps) \<Longrightarrow> map_of (sort_key fst ps) = map_of ps"
  by (subst map_of_inject_set) (auto simp: distinct_map)

subsection \<open>Numerals\<close>

lemma digit_char_facts:
  assumes "d < 10"
  shows "is_digit (digit_char d)" and "digit_val (digit_char d) = d"
  using assms by (simp_all add: is_digit_def digit_char_def digit_val_def)

lemma digits_val_Nil [simp]: "digits_val [] = 0"
  by (simp add: digits_val_def)

lemma digits_val_snoc [simp]: "digits_val (s @ [c]) = digits_val s * 10 + digit_val c"
  by (simp add: digits_val_def)

lemma show_nat_nonempty [simp]: "show_nat n \<noteq> []"
  by (subst show_nat.simps) simp

lemma show_nat_digits [simp]: "list_all is_digit (show_nat n)"
proof (induction n rule: show_nat.induct)
  case (1 n)
  then show ?case
    by (subst show_nat.simps) (auto simp: digit_char_facts)
qed

lemma digits_val_show_nat [simp]: "digits_val (show_nat n) = n"
proof (induction n rule: show_nat.induct)
  case (1 n)
  show ?case
  proof (cases "n < 10")
    case True
    then show ?thesis
      by (simp add: show_nat.simps [of n] digits_val_def digit_char_facts)
  next
    case False
    with "1" show ?thesis
      by (simp add: show_nat.simps [of n] digit_char_facts)
  qed
qed

lemma show_nat_inj: "show_nat m = show_nat n \<longleftrightarrow> m = n"
  by (metis digits_val_show_nat)

lemma is_digit_not_sign: "is_digit c \<Longrightarrow> c \<noteq> CHR ''-'' \<and> c \<noteq> CHR ''+''"
  by (auto simp: is_digit_def)

lemma show_nat_Cons: "\<exists>c cs. show_nat n = c # cs \<and> is_digit c"
  using show_nat_digits [of n] show_nat_nonempty [of n]
  by (cases "show_nat n") auto

lemma parse_signed_show_int [simp]: "parse_signed (show_int i) = Some i"
proof (cases "i < 0")
  case True
  then show ?thesis by (simp add: parse_signed_def show_int_def)
next
  case False
  obtain c cs where c: "show_nat (nat i) = c # cs" "is_digit c"
    using show_nat_Cons by blast
  have "list_all is_digit (c # cs)" "digits_val (c # cs) = nat i"
    using c(1) show_nat_digits [of "nat i"] digits_val_show_nat [of "nat i"] by simp_all
  with c False show ?thesis
    by (auto simp: parse_signed_def show_int_def dest: is_digit_not_sign)
qed

lemma show_int_inj: "show_int i = show_int j \<longleftrightarrow> i = j"
  by (metis option.inject parse_signed_show_int)

lemma ParseInt_show_int:
  "- (2 ^ (b - 1)) \<le> i \<Longrightarrow> i < 2 ^ (b - 1) \<Longrightarrow> ParseInt b (show_int i) = Some i"
  by (simp add: ParseInt_def)

lemma ParseInt_range: "ParseInt b s = Some i \<Longrightarrow> - (2 ^ (b - 1)) \<le> i \<and> i < 2 ^ (b - 1)"
  by (auto simp: ParseInt_def split: option.splits if_splits)

subsection \<open>Joining and splitting\<close>

lemma str_join_Cons: "xs \<noteq> [] \<Longrightarrow> str_join sep (x # xs) = x @ sep @ str_join sep xs"
  by (cases xs) auto

lemma str_split_nonempty [simp]: "str_split sep s \<noteq> []"
  by (induction s) (auto split: list.splits)

lemma str_split_no_sep: "sep \<notin> set s \<Longrightarrow> str_split sep s = [s]"
  by (induction s) auto

lemma str_split_append: "sep \<notin> set p \<Longrightarrow> str_split sep (p @ sep # s) = p # str_split sep s"
  by (induction p) auto

lemma str_split_join:
  assumes "xs \<noteq> []" and "\<forall>x \<in> set xs. sep \<notin> set x"
  shows "str_split sep (str_join [sep] xs) = xs"
  using assms
proof (induction xs)
  case Nil
  then show ?case by simp
next
  case (Cons x xs)
  then show ?case
    by (cases xs) (auto simp: str_split_no_sep str_split_append)
qed

end
