(* ===== verification/Go_Value.thy ===== *)
theory Go_Value
  imports Complex_Main Go_Prelude "HOL-Library.Log_Nat"
begin

text \<open>
  The dynamic values a record can hold (\<^verbatim>\<open>interface{}\<close>): one constructor per Go type that the type
  switches of the program name, machine integers at their width. With them the parts of the
  language and the standard library the program applies to such values: IEEE 754 binary
  floating point (rounding to nearest even, conversion to integers as the amd64 instruction set
  performs it), \<^verbatim>\<open>strconv.ParseFloat\<close> and the shortest decimal form of a float, civil times with
  the RFC 3339 layouts of \<^verbatim>\<open>time\<close>, and the v verb of \<^verbatim>\<open>fmt\<close>.

  Not represented: negative zero, and the monotonic clock reading a \<^verbatim>\<open>time.Time\<close> may carry.
\<close>

section \<open>Floating point\<close>

datatype gofloat = FFin rat | FInf bool | FNaN

definition pow2 :: "int \<Rightarrow> rat" where
  "pow2 e = (if 0 \<le> e then 2 ^ nat e else 1 / 2 ^ nat (- e))"

definition pow10 :: "int \<Rightarrow> rat" where
  "pow10 e = (if 0 \<le> e then 10 ^ nat e else 1 / 10 ^ nat (- e))"

definition round_half_even :: "rat \<Rightarrow> int" where
  "round_half_even x =
     (let n = \<lfloor>x\<rfloor>; d = x - of_int n
      in if d < 1 / 2 then n else if 1 / 2 < d then n + 1 else if even n then n else n + 1)"

text \<open>The binary exponent: the greatest \<open>e\<close> with \<open>2\<^sup>e \<le> \<bar>x\<bar>\<close>, for \<open>x \<noteq> 0\<close>.\<close>

definition bexp :: "rat \<Rightarrow> int" where
  "bexp x = (let (p, q) = quotient_of \<bar>x\<bar>; e = bitlen p - bitlen q
             in if pow2 e \<le> \<bar>x\<bar> then e else e - 1)"

definition round_bin :: "int \<Rightarrow> int \<Rightarrow> int \<Rightarrow> rat \<Rightarrow> gofloat" where
  "round_bin prec emin emax x =
     (if x = 0 then FFin 0
      else let u = pow2 (max (bexp x) emin - (prec - 1));
               y = of_int (round_half_even (x / u)) * u
           in if pow2 (emax + 1) \<le> \<bar>y\<bar> then FInf (y < 0) else FFin y)"

definition round_f64 :: "rat \<Rightarrow> gofloat" where
  "round_f64 = round_bin 53 (- 1022) 1023"

definition round_f32 :: "rat \<Rightarrow> gofloat" where
  "round_f32 = round_bin 24 (- 126) 127"

fun to_f32 :: "gofloat \<Rightarrow> gofloat" where
  "to_f32 (FFin x) = round_f32 x"
| "to_f32 (FInf s) = FInf s"
| "to_f32 FNaN = FNaN"

definition rat_trunc :: "rat \<Rightarrow> int" where
  "rat_trunc x = (if 0 \<le> x then \<lfloor>x\<rfloor> else \<lceil>x\<rceil>)"

text \<open>
  Conversion of a float to a signed integer of \<open>w\<close> bits: truncation towards zero, and the
  \<open>integer indefinite\<close> value of the amd64 conversion instructions when the result does not fit
  (the Go specification leaves that case to the implementation).
\<close>

fun f_to_sint :: "nat \<Rightarrow> gofloat \<Rightarrow> int" where
  "f_to_sint w (FFin x) =
     (let t = rat_trunc x in if - (2 ^ (w - 1)) \<le> t \<and> t < 2 ^ (w - 1) then t else - (2 ^ (w - 1)))"
| "f_to_sint w (FInf _) = - (2 ^ (w - 1))"
| "f_to_sint w FNaN = - (2 ^ (w - 1))"

subsection \<open>Decimal text\<close>

text \<open>A decimal literal: sign, digits with an optional point, an optional exponent.\<close>

definition take_digits :: "string \<Rightarrow> string \<times> string" where
  "take_digits s = (takeWhile is_digit s, dropWhile is_digit s)"

definition parse_exp :: "string \<Rightarrow> int option" where
  "parse_exp s =
     (case s of
        [] \<Rightarrow> Some 0
      | c # cs \<Rightarrow> if c = CHR ''e'' \<or> c = CHR ''E'' then parse_signed cs else None)"

definition parse_decimal :: "string \<Rightarrow> rat option" where
  "parse_decimal s =
     (let (neg, s1) = (case s of
            [] \<Rightarrow> (False, [])
          | c # cs \<Rightarrow> if c = CHR ''-'' then (True, cs) else if c = CHR ''+'' then (False, cs) else (False, s));
          (ip, s2) = take_digits s1;
          (fp, s3) = (case s2 of
            [] \<Rightarrow> ([], [])
          | c # cs \<Rightarrow> if c = CHR ''.'' then take_digits cs else ([], s2))
      in if ip = [] \<and> fp = [] then None
         else (case parse_exp s3 of
                 None \<Rightarrow> None
               | Some e \<Rightarrow>
                   (let v = rat_of_nat (digits_val (ip @ fp)) * pow10 (e - int (length fp))
                    in Some (if neg then - v else v))))"

definition parse_special :: "string \<Rightarrow> gofloat option" where
  "parse_special s =
     (let l = ToLower s;
          (neg, b) = (case l of [] \<Rightarrow> (False, [])
             | c # cs \<Rightarrow> if c = CHR ''-'' then (True, cs) else if c = CHR ''+'' then (False, cs) else (False, l))
      in if b = ''inf'' \<or> b = ''infinity'' then Some (FInf neg)
         else if l = ''nan'' then Some FNaN else None)"

text \<open>
  A hexadecimal literal: sign, 0x, hexadecimal digits with an optional point, and a binary exponent,
  which is required. Underscores may stand between digits of either form, and after the prefix.
\<close>

definition hex_digit :: "char \<Rightarrow> nat option" where
  "hex_digit c =
     (let n = (of_char (to_lower_char c) :: nat) in
      if is_digit c then Some (digit_val c) else if 97 \<le> n \<and> n \<le> 102 then Some (n - 87) else None)"

definition split_sign :: "string \<Rightarrow> bool \<times> string" where
  "split_sign s = (case s of [] \<Rightarrow> (False, []) | c # cs \<Rightarrow>
     if c = CHR ''-'' then (True, cs) else if c = CHR ''+'' then (False, cs) else (False, s))"

definition hex_prefix :: "string \<Rightarrow> bool" where
  "hex_prefix s \<longleftrightarrow> 2 < length s \<and> s ! 0 = CHR ''0'' \<and> to_lower_char (s ! 1) = CHR ''x''"

definition parse_hex :: "string \<Rightarrow> rat option" where
  "parse_hex s =
     (let (neg, s1) = split_sign s; s2 = drop 2 s1; is_hex = (\<lambda>c. hex_digit c \<noteq> None);
          ip = takeWhile is_hex s2; s3 = dropWhile is_hex s2;
          (fp, s4) = (case s3 of [] \<Rightarrow> ([], [])
             | c # cs \<Rightarrow> if c = CHR ''.'' then (takeWhile is_hex cs, dropWhile is_hex cs) else ([], s3));
          m = foldl (\<lambda>a c. a * 16 + the (hex_digit c)) 0 (ip @ fp)
      in if ip = [] \<and> fp = [] then None
         else (case s4 of [] \<Rightarrow> None
           | c # cs \<Rightarrow> if to_lower_char c \<noteq> CHR ''p'' then None
               else (case parse_signed cs of None \<Rightarrow> None
                 | Some e \<Rightarrow> (let v = rat_of_nat m * pow2 (e - 4 * int (length fp)) in Some (if neg then - v else v)))))"

text \<open>The scan of \<^verbatim>\<open>underscoreOK\<close>; the second argument says what the last character was.\<close>

datatype saw = SawStart | SawDigit | SawUnderscore | SawOther

fun underscore_scan :: "bool \<Rightarrow> saw \<Rightarrow> string \<Rightarrow> bool" where
  "underscore_scan hex st [] = (st \<noteq> SawUnderscore)"
| "underscore_scan hex st (c # cs) =
     (if is_digit c \<or> hex \<and> hex_digit c \<noteq> None then underscore_scan hex SawDigit cs
      else if c = CHR ''_'' then st = SawDigit \<and> underscore_scan hex SawUnderscore cs
      else st \<noteq> SawUnderscore \<and> underscore_scan hex SawOther cs)"

definition underscoreOK :: "string \<Rightarrow> bool" where
  "underscoreOK s0 =
     (let s = snd (split_sign s0) in
      if 2 \<le> length s \<and> s ! 0 = CHR ''0'' \<and> to_lower_char (s ! 1) \<in> {CHR ''b'', CHR ''o'', CHR ''x''}
      then underscore_scan (to_lower_char (s ! 1) = CHR ''x'') SawDigit (drop 2 s)
      else underscore_scan False SawStart s)"

definition parse_number :: "string \<Rightarrow> rat option" where
  "parse_number s0 =
     (if CHR ''_'' \<in> set s0 \<and> \<not> underscoreOK s0 then None
      else let s = filter (\<lambda>c. c \<noteq> CHR ''_'') s0
           in if hex_prefix (snd (split_sign s)) then parse_hex s else parse_decimal s)"

text \<open>\<^verbatim>\<open>strconv.ParseFloat\<close>, over the rounding of the wanted width; overflow is a range error.\<close>

definition ParseFloat :: "(rat \<Rightarrow> gofloat) \<Rightarrow> string \<Rightarrow> gofloat option" where
  "ParseFloat rnd s =
     (case parse_special s of
        Some f \<Rightarrow> Some f
      | None \<Rightarrow> (case parse_number s of
           None \<Rightarrow> None
         | Some x \<Rightarrow> (case rnd x of FFin y \<Rightarrow> Some (FFin y) | _ \<Rightarrow> None)))"

text \<open>The decimal exponent: \<open>10\<^bsup>dp-1\<^esup> \<le> \<bar>x\<bar> < 10\<^bsup>dp\<^esup>\<close>, for \<open>x \<noteq> 0\<close>.\<close>

definition dec_point :: "rat \<Rightarrow> int" where
  "dec_point x =
     (let a = \<bar>x\<bar> in
      if 1 \<le> a then int (length (show_nat (nat \<lfloor>a\<rfloor>)))
      else 1 - int (length (show_nat (nat (\<lceil>1 / a\<rceil> - 1)))))"

text \<open>The best decimal with \<open>n\<close> digits that reads back as \<open>x\<close>, if there is one.\<close>

definition digits_candidate :: "(rat \<Rightarrow> gofloat) \<Rightarrow> rat \<Rightarrow> nat \<Rightarrow> (nat \<times> int) option" where
  "digits_candidate rnd x n =
     (let sc = dec_point x - int n; f = nat \<lfloor>x / pow10 sc\<rfloor>;
          ok = (\<lambda>d. rnd (rat_of_nat d * pow10 sc) = FFin x);
          dist = (\<lambda>d. \<bar>x - rat_of_nat d * pow10 sc\<bar>)
      in if ok f \<and> (\<not> ok (Suc f) \<or> dist f \<le> dist (Suc f)) then Some (f, sc)
         else if ok (Suc f) then Some (Suc f, sc) else None)"

fun first_some :: "('a \<Rightarrow> 'b option) \<Rightarrow> 'a list \<Rightarrow> 'b option" where
  "first_some f [] = None"
| "first_some f (x # xs) = (case f x of Some y \<Rightarrow> Some y | None \<Rightarrow> first_some f xs)"

definition trim_zeros :: "string \<Rightarrow> string" where
  "trim_zeros s = rev (dropWhile (\<lambda>c. c = CHR ''0'') (rev s))"

text \<open>
  The shortest digits of a positive float (at most 17 for binary64) and the position of its
  decimal point.
\<close>

definition shortest_digits :: "(rat \<Rightarrow> gofloat) \<Rightarrow> rat \<Rightarrow> string \<times> int" where
  "shortest_digits rnd x =
     (let (d, sc) = (case first_some (digits_candidate rnd x) [1..<18] of
            Some c \<Rightarrow> c
          | None \<Rightarrow> (nat \<lfloor>x / pow10 (dec_point x - 17)\<rfloor>, dec_point x - 17));
          ds = show_nat d
      in (trim_zeros ds, sc + int (length ds)))"

definition fmt_f :: "string \<Rightarrow> int \<Rightarrow> string" where
  "fmt_f ds dp =
     (if dp \<le> 0 then ''0.'' @ replicate (nat (- dp)) (CHR ''0'') @ ds
      else let ip = take (nat dp) ds; fp = drop (nat dp) ds
           in ip @ replicate (nat dp - length ip) (CHR ''0'') @ (if fp = [] then [] else CHR ''.'' # fp))"

definition fmt_e :: "nat \<Rightarrow> string \<Rightarrow> int \<Rightarrow> string" where
  "fmt_e width ds dp =
     (let e = dp - 1; es = show_nat (nat \<bar>e\<bar>)
      in take 1 ds @ (if drop 1 ds = [] then [] else CHR ''.'' # drop 1 ds) @ ''e'' @
         (if e < 0 then ''-'' else ''+'') @ replicate (width - length es) (CHR ''0'') @ es)"

text \<open>The g format with the shortest precision, as the verbs v and g of \<^verbatim>\<open>fmt\<close> print a float.\<close>

fun fmt_g :: "(rat \<Rightarrow> gofloat) \<Rightarrow> gofloat \<Rightarrow> string" where
  "fmt_g rnd FNaN = ''NaN''"
| "fmt_g rnd (FInf s) = (if s then ''-Inf'' else ''+Inf'')"
| "fmt_g rnd (FFin x) =
     (if x = 0 then ''0''
      else let (ds, dp) = shortest_digits rnd \<bar>x\<bar>;
               b = (if dp - 1 < - 4 \<or> 6 \<le> dp - 1 then fmt_e 2 ds dp else fmt_f ds dp)
           in (if x < 0 then ''-'' else []) @ b)"

section \<open>Times\<close>

text \<open>
  A \<^verbatim>\<open>time.Time\<close> as the civil fields it prints, with its offset in seconds east of UTC and the
  name of its zone.
\<close>

record gotime =
  t_year :: int
  t_month :: nat
  t_day :: nat
  t_hour :: nat
  t_min :: nat
  t_sec :: nat
  t_nsec :: nat
  t_off :: int
  t_zone :: string

text \<open>Days since 1 January 1970 of a date in the proleptic Gregorian calendar, and back.\<close>

definition days_of_civil :: "int \<Rightarrow> int \<Rightarrow> int \<Rightarrow> int" where
  "days_of_civil y m d =
     (let y' = (if m \<le> 2 then y - 1 else y);
          era = y' div 400; yoe = y' - era * 400;
          doy = (153 * (if 2 < m then m - 3 else m + 9) + 2) div 5 + d - 1;
          doe = yoe * 365 + yoe div 4 - yoe div 100 + doy
      in era * 146097 + doe - 719468)"

definition civil_of_days :: "int \<Rightarrow> int \<times> nat \<times> nat" where
  "civil_of_days z0 =
     (let z = z0 + 719468; era = z div 146097; doe = z - era * 146097;
          yoe = (doe - doe div 1460 + doe div 36524 - doe div 146096) div 365;
          doy = doe - (365 * yoe + yoe div 4 - yoe div 100);
          mp = (5 * doy + 2) div 153; d = doy - (153 * mp + 2) div 5 + 1;
          m = (if mp < 10 then mp + 3 else mp - 9)
      in (yoe + era * 400 + (if m \<le> 2 then 1 else 0), nat m, nat d))"

definition unix_sec :: "gotime \<Rightarrow> int" where
  "unix_sec t = days_of_civil (t_year t) (int (t_month t)) (int (t_day t)) * 86400
     + int (t_hour t) * 3600 + int (t_min t) * 60 + int (t_sec t) - t_off t"

text \<open>\<^verbatim>\<open>Time.UnixNano\<close> before it is reduced to 64 bits; the dates of the program are in range.\<close>

definition UnixNano :: "gotime \<Rightarrow> int" where
  "UnixNano t = unix_sec t * 1000000000 + int (t_nsec t)"

text \<open>The zero time is 1 January of year 1, 00:00:00 UTC.\<close>

definition IsZero :: "gotime \<Rightarrow> bool" where
  "IsZero t \<longleftrightarrow> unix_sec t = - 62135596800 \<and> t_nsec t = 0"

definition zero_time :: gotime where
  "zero_time = \<lparr>t_year = 1, t_month = 1, t_day = 1, t_hour = 0, t_min = 0, t_sec = 0, t_nsec = 0,
     t_off = 0, t_zone = ''UTC''\<rparr>"

text \<open>\<^verbatim>\<open>time.Unix(s, 0)\<close> in a location whose offset and zone name at that instant are given.\<close>

definition time_Unix :: "int \<Rightarrow> string \<Rightarrow> int \<Rightarrow> gotime" where
  "time_Unix off zone s =
     (let l = s + off; (y, m, d) = civil_of_days (l div 86400); r = nat (l mod 86400)
      in \<lparr>t_year = y, t_month = m, t_day = d, t_hour = r div 3600, t_min = (r div 60) mod 60,
          t_sec = r mod 60, t_nsec = 0, t_off = off, t_zone = zone\<rparr>)"

definition pad0 :: "nat \<Rightarrow> nat \<Rightarrow> string" where
  "pad0 w n = (let s = show_nat n in replicate (w - length s) (CHR ''0'') @ s)"

definition fmt_year :: "int \<Rightarrow> string" where
  "fmt_year y = (if y < 0 then CHR ''-'' # pad0 4 (nat (- y)) else pad0 4 (nat y))"

definition fmt_date :: "gotime \<Rightarrow> string" where
  "fmt_date t = fmt_year (t_year t) @ ''-'' @ pad0 2 (t_month t) @ ''-'' @ pad0 2 (t_day t)"

definition fmt_clock :: "gotime \<Rightarrow> string" where
  "fmt_clock t = pad0 2 (t_hour t) @ '':'' @ pad0 2 (t_min t) @ '':'' @ pad0 2 (t_sec t)"

definition fmt_frac :: "gotime \<Rightarrow> string" where
  "fmt_frac t = (if t_nsec t = 0 then [] else CHR ''.'' # trim_zeros (pad0 9 (t_nsec t)))"

definition fmt_offset :: "string \<Rightarrow> int \<Rightarrow> string" where
  "fmt_offset sep off =
     (let z = nat (\<bar>off\<bar> div 60)
      in (if off < 0 then ''-'' else ''+'') @ pad0 2 (z div 60) @ sep @ pad0 2 (z mod 60))"

definition fmt_zone :: "gotime \<Rightarrow> string" where
  "fmt_zone t = (if t_off t = 0 then ''Z'' else fmt_offset '':'' (t_off t))"

definition RFC3339 :: "gotime \<Rightarrow> string" where
  "RFC3339 t = fmt_date t @ ''T'' @ fmt_clock t @ fmt_zone t"

definition RFC3339Nano :: "gotime \<Rightarrow> string" where
  "RFC3339Nano t = fmt_date t @ ''T'' @ fmt_clock t @ fmt_frac t @ fmt_zone t"

definition time_String :: "gotime \<Rightarrow> string" where
  "time_String t = fmt_date t @ '' '' @ fmt_clock t @ fmt_frac t @ '' '' @ fmt_offset [] (t_off t) @ '' '' @ t_zone t"

subsection \<open>Parsing times\<close>

text \<open>Exactly \<open>n\<close> digits, and a fixed piece of text.\<close>

definition get_num :: "nat \<Rightarrow> string \<Rightarrow> (nat \<times> string) option" where
  "get_num n s = (let p = take n s in
     if length p = n \<and> list_all is_digit p then Some (digits_val p, drop n s) else None)"

definition expect :: "string \<Rightarrow> string \<Rightarrow> string option" where
  "expect p s = (if take (length p) s = p then Some (drop (length p) s) else None)"

text \<open>The hour: two digits, or one where the second is missing.\<close>

definition get_hour :: "string \<Rightarrow> (nat \<times> string) option" where
  "get_hour s = (case get_num 2 s of Some r \<Rightarrow> Some r | None \<Rightarrow> get_num 1 s)"

text \<open>A fraction of a second, which \<^verbatim>\<open>time.Parse\<close> accepts after the seconds of any layout.\<close>

definition get_frac :: "string \<Rightarrow> nat \<times> string" where
  "get_frac s =
     (case s of
        [] \<Rightarrow> (0, s)
      | c # cs \<Rightarrow>
          if (c = CHR ''.'' \<or> c = CHR '','') \<and> cs \<noteq> [] \<and> is_digit (hd cs)
          then let ds = takeWhile is_digit cs
               in (digits_val (take 9 (ds @ replicate 9 (CHR ''0''))), dropWhile is_digit cs)
          else (0, s))"

definition is_leap :: "int \<Rightarrow> bool" where
  "is_leap y \<longleftrightarrow> y mod 4 = 0 \<and> (y mod 100 \<noteq> 0 \<or> y mod 400 = 0)"

definition days_in :: "nat \<Rightarrow> int \<Rightarrow> nat" where
  "days_in m y = (if m = 2 then (if is_leap y then 29 else 28)
                  else if m = 4 \<or> m = 6 \<or> m = 9 \<or> m = 11 then 30 else 31)"

definition parse_date :: "string \<Rightarrow> (int \<times> nat \<times> nat \<times> string) option" where
  "parse_date s =
     (case get_num 4 s of None \<Rightarrow> None | Some (y, s1) \<Rightarrow>
     (case expect ''-'' s1 of None \<Rightarrow> None | Some s2 \<Rightarrow>
     (case get_num 2 s2 of None \<Rightarrow> None | Some (m, s3) \<Rightarrow>
     (case expect ''-'' s3 of None \<Rightarrow> None | Some s4 \<Rightarrow>
     (case get_num 2 s4 of None \<Rightarrow> None | Some (d, s5) \<Rightarrow>
       if 1 \<le> m \<and> m \<le> 12 \<and> 1 \<le> d \<and> d \<le> days_in m (int y) then Some (int y, m, d, s5) else None)))))"

definition parse_clock :: "string \<Rightarrow> (nat \<times> nat \<times> nat \<times> nat \<times> string) option" where
  "parse_clock s =
     (case get_hour s of None \<Rightarrow> None | Some (h, s1) \<Rightarrow>
     (case expect '':'' s1 of None \<Rightarrow> None | Some s2 \<Rightarrow>
     (case get_num 2 s2 of None \<Rightarrow> None | Some (m, s3) \<Rightarrow>
     (case expect '':'' s3 of None \<Rightarrow> None | Some s4 \<Rightarrow>
     (case get_num 2 s4 of None \<Rightarrow> None | Some (sec, s5) \<Rightarrow>
       (let (ns, s6) = get_frac s5 in
        if h < 24 \<and> m < 60 \<and> sec < 60 then Some (h, m, sec, ns, s6) else None))))))"

text \<open>
  The zone of RFC 3339: the letter Z, or a signed offset. The offset is kept; the zone name of a
  time that is not UTC is left empty, as for a fabricated location.
\<close>

definition parse_zone :: "string \<Rightarrow> (int \<times> string) option" where
  "parse_zone s =
     (case s of
        [] \<Rightarrow> None
      | c # cs \<Rightarrow>
          if c = CHR ''Z'' then (if cs = [] then Some (0, ''UTC'') else None)
          else if c = CHR ''+'' \<or> c = CHR ''-'' then
            (case get_num 2 cs of None \<Rightarrow> None | Some (h, s1) \<Rightarrow>
            (case expect '':'' s1 of None \<Rightarrow> None | Some s2 \<Rightarrow>
            (case get_num 2 s2 of None \<Rightarrow> None | Some (m, s3) \<Rightarrow>
              if s3 = [] \<and> h \<le> 24 \<and> m < 60 then
                let o1 = int (h * 3600 + m * 60) in
                Some (if c = CHR ''-'' then - o1 else o1, if o1 = 0 then ''UTC'' else [])
              else None)))
          else None)"

datatype time_layout = Layout_RFC3339 | Layout_RFC3339Nano | Layout_Space | Layout_T | Layout_Date

text \<open>\<^verbatim>\<open>time.Parse\<close> for the layouts the program tries.\<close>

definition time_Parse :: "time_layout \<Rightarrow> string \<Rightarrow> gotime option" where
  "time_Parse lay s =
     (case parse_date s of None \<Rightarrow> None | Some (y, mo, d, s1) \<Rightarrow>
      if lay = Layout_Date then
        (if s1 = [] then Some \<lparr>t_year = y, t_month = mo, t_day = d, t_hour = 0, t_min = 0, t_sec = 0,
           t_nsec = 0, t_off = 0, t_zone = ''UTC''\<rparr> else None)
      else
     (case expect (if lay = Layout_Space then '' '' else ''T'') s1 of None \<Rightarrow> None | Some s2 \<Rightarrow>
     (case parse_clock s2 of None \<Rightarrow> None | Some (h, mi, sec, ns, s3) \<Rightarrow>
     (case (if lay = Layout_RFC3339 \<or> lay = Layout_RFC3339Nano then parse_zone s3
            else if s3 = [] then Some (0, ''UTC'') else None) of
        None \<Rightarrow> None
      | Some (off, zone) \<Rightarrow> Some \<lparr>t_year = y, t_month = mo, t_day = d, t_hour = h, t_min = mi,
           t_sec = sec, t_nsec = ns, t_off = off, t_zone = zone\<rparr>))))"

section \<open>Dynamic values\<close>

text \<open>
  \<open>VNullString\<close> and \<open>VNullInt64\<close> are the \<^verbatim>\<open>sql.Null*\<close> structs, the values the program meets that
  implement \<^verbatim>\<open>driver.Valuer\<close>. \<open>VOpaque\<close> is a value of any type that \<^verbatim>\<open>encoding/json\<close> refuses (a
  channel, a function), with the name of that type.
\<close>

datatype goval =
    VNil
  | VBool bool
  | VInt "64 word" | VInt8 "8 word" | VInt16 "16 word" | VInt32 "32 word" | VInt64 "64 word"
  | VUint "64 word" | VUint8 "8 word" | VUint16 "16 word" | VUint32 "32 word" | VUint64 "64 word"
  | VFloat32 gofloat | VFloat64 gofloat
  | VString string
  | VBytes string
  | VTime gotime
  | VMap "(string \<times> goval) list"
  | VSlice "goval list"
  | VNullString string bool
  | VNullInt64 "64 word" bool
  | VOpaque string

type_synonym grecord = "goval gomap"

text \<open>The integer an integer value denotes.\<close>

fun int_of_goval :: "goval \<Rightarrow> int option" where
  "int_of_goval (VInt w) = Some (sint w)"
| "int_of_goval (VInt8 w) = Some (sint w)"
| "int_of_goval (VInt16 w) = Some (sint w)"
| "int_of_goval (VInt32 w) = Some (sint w)"
| "int_of_goval (VInt64 w) = Some (sint w)"
| "int_of_goval (VUint w) = Some (uint w)"
| "int_of_goval (VUint8 w) = Some (uint w)"
| "int_of_goval (VUint16 w) = Some (uint w)"
| "int_of_goval (VUint32 w) = Some (uint w)"
| "int_of_goval (VUint64 w) = Some (uint w)"
| "int_of_goval _ = None"

text \<open>The verb T of \<^verbatim>\<open>fmt\<close>.\<close>

fun type_name :: "goval \<Rightarrow> string" where
  "type_name VNil = ''<nil>''"
| "type_name (VBool _) = ''bool''"
| "type_name (VInt _) = ''int''"
| "type_name (VInt8 _) = ''int8''"
| "type_name (VInt16 _) = ''int16''"
| "type_name (VInt32 _) = ''int32''"
| "type_name (VInt64 _) = ''int64''"
| "type_name (VUint _) = ''uint''"
| "type_name (VUint8 _) = ''uint8''"
| "type_name (VUint16 _) = ''uint16''"
| "type_name (VUint32 _) = ''uint32''"
| "type_name (VUint64 _) = ''uint64''"
| "type_name (VFloat32 _) = ''float32''"
| "type_name (VFloat64 _) = ''float64''"
| "type_name (VString _) = ''string''"
| "type_name (VBytes _) = ''[]uint8''"
| "type_name (VTime _) = ''time.Time''"
| "type_name (VMap _) = ''map[string]interface {}''"
| "type_name (VSlice _) = ''[]interface {}''"
| "type_name (VNullString _ _) = ''sql.NullString''"
| "type_name (VNullInt64 _ _) = ''sql.NullInt64''"
| "type_name (VOpaque t) = t"

definition show_bool :: "bool \<Rightarrow> string" where
  "show_bool b = (if b then ''true'' else ''false'')"

text \<open>The verb v of \<^verbatim>\<open>fmt\<close>: maps are printed in the order of their keys.\<close>

fun show_v :: "goval \<Rightarrow> string" where
  "show_v VNil = ''<nil>''"
| "show_v (VBool b) = show_bool b"
| "show_v (VInt w) = show_int (sint w)"
| "show_v (VInt8 w) = show_int (sint w)"
| "show_v (VInt16 w) = show_int (sint w)"
| "show_v (VInt32 w) = show_int (sint w)"
| "show_v (VInt64 w) = show_int (sint w)"
| "show_v (VUint w) = show_int (uint w)"
| "show_v (VUint8 w) = show_int (uint w)"
| "show_v (VUint16 w) = show_int (uint w)"
| "show_v (VUint32 w) = show_int (uint w)"
| "show_v (VUint64 w) = show_int (uint w)"
| "show_v (VFloat32 f) = fmt_g round_f32 f"
| "show_v (VFloat64 f) = fmt_g round_f64 f"
| "show_v (VString s) = s"
| "show_v (VBytes s) = ''['' @ str_join '' '' (map (\<lambda>c. show_nat (of_char c)) s) @ '']''"
| "show_v (VTime t) = time_String t"
| "show_v (VMap m) =
     ''map['' @ str_join '' '' (map (\<lambda>(k, s). k @ '':'' @ s) (sort_key fst (map (\<lambda>(k, v). (k, show_v v)) m))) @ '']''"
| "show_v (VSlice vs) = ''['' @ str_join '' '' (map show_v vs) @ '']''"
| "show_v (VNullString s b) = ''{'' @ s @ '' '' @ show_bool b @ ''}''"
| "show_v (VNullInt64 w b) = ''{'' @ show_int (sint w) @ '' '' @ show_bool b @ ''}''"
| "show_v (VOpaque t) = t"

section \<open>Lemmas\<close>

subsection \<open>Integers are exact floats up to 2^53\<close>

lemma pow2_add: "pow2 (a + b) = pow2 a * pow2 b"
proof -
  have "pow2 e = 2 powi e" for e
    by (simp add: pow2_def power_int_def power_one_over inverse_eq_divide)
  then show ?thesis by (simp add: power_int_add)
qed

lemma pow2_pos [simp]: "0 < pow2 e"
  by (simp add: pow2_def)

lemma pow2_nonneg: "0 \<le> e \<Longrightarrow> pow2 e = of_int (2 ^ nat e)"
  by (simp add: pow2_def)

lemma round_half_even_of_int [simp]: "round_half_even (of_int n) = n"
  by (simp add: round_half_even_def)

lemma bexp_of_int:
  assumes "n \<noteq> 0"
  shows "bexp (of_int n) = bitlen \<bar>n\<bar> - 1"
proof -
  have q: "quotient_of (of_int \<bar>n\<bar>) = (\<bar>n\<bar>, 1)"
    using quotient_of_int [of "\<bar>n\<bar>"] by (simp add: Rat.of_int_def)
  have b: "2 ^ nat (bitlen \<bar>n\<bar> - 1) \<le> \<bar>n\<bar> \<and> \<bar>n\<bar> < 2 ^ nat (bitlen \<bar>n\<bar>)"
    using assms by (intro bitlen_bounds) simp
  have pos: "1 \<le> bitlen \<bar>n\<bar>" using assms bitlen_le_iff_power [of "\<bar>n\<bar>" 0] by force
  have one: "bitlen 1 = 1" by (simp add: bitlen_def floorlog_def)
  have "pow2 (bitlen \<bar>n\<bar> - 1) = of_int (2 ^ nat (bitlen \<bar>n\<bar> - 1))"
    using pos by (intro pow2_nonneg) simp
  also have "\<dots> \<le> of_int \<bar>n\<bar>" using b by (simp only: of_int_le_iff)
  finally have "pow2 (bitlen \<bar>n\<bar> - 1) \<le> of_int \<bar>n\<bar>" .
  then show ?thesis
    by (simp add: bexp_def q one flip: of_int_abs)
qed

lemma round_bin_multiple:
  assumes "x \<noteq> 0" and "x = of_int m * pow2 (max (bexp x) emin - (prec - 1))"
    and "\<bar>x\<bar> < pow2 (emax + 1)"
  shows "round_bin prec emin emax x = FFin x"
proof -
  let ?u = "pow2 (max (bexp x) emin - (prec - 1))"
  have "?u \<noteq> 0" using pow2_pos by (metis less_irrefl)
  then have "x / ?u = of_int m" using assms(2) by (metis nonzero_mult_div_cancel_right)
  then have "of_int (round_half_even (x / ?u)) * ?u = x" using assms(2) by simp
  then show ?thesis using assms(1,3) by (simp add: round_bin_def Let_def)
qed

lemma round_f64_of_int:
  assumes "\<bar>n\<bar> \<le> 2 ^ 53"
  shows "round_f64 (of_int n) = FFin (of_int n)"
proof (cases "n = 0")
  case True
  then show ?thesis by (simp add: round_f64_def round_bin_def)
next
  case False
  let ?e = "bitlen \<bar>n\<bar> - 1"
  have e: "bexp (of_int n) = ?e" using False by (rule bexp_of_int)
  have e0: "0 \<le> ?e" using False bitlen_le_iff_power [of "\<bar>n\<bar>" 0] by force
  have b: "2 ^ nat ?e \<le> \<bar>n\<bar>" using False bitlen_bounds [of "\<bar>n\<bar>"] by simp
  have "(2::int) ^ nat ?e \<le> 2 ^ 53" using b assms by linarith
  then have e53: "?e \<le> 53" using power_le_imp_le_exp [of "2::int" "nat ?e" 53] by simp
  have "\<exists>m. (of_int n :: rat) = of_int m * pow2 (?e - 52)"
  proof (cases "?e \<le> 52")
    case True
    have "pow2 (52 - ?e) * pow2 (?e - 52) = 1" by (simp flip: pow2_add add: pow2_def)
    then have "(of_int n :: rat) = of_int (n * 2 ^ nat (52 - ?e)) * pow2 (?e - 52)"
      using True by (simp add: pow2_nonneg [of "52 - ?e", symmetric] mult.assoc flip: of_int_power)
        (simp add: pow2_nonneg mult.assoc)
    then show ?thesis by blast
  next
    case False
    with e53 have e': "?e = 53" by simp
    with b have "2 ^ 53 \<le> \<bar>n\<bar>" by simp
    with assms have "\<bar>n\<bar> = 2 ^ 53" by simp
    then have "n = 2 * (2 ^ 52) \<or> n = 2 * - (2 ^ 52)" by auto
    then obtain k where "n = k * 2" by auto
    then have k: "(of_int n :: rat) = of_int k * 2" by simp
    have "pow2 (?e - 52) = 2" by (simp only: e') (simp add: pow2_def)
    then show ?thesis unfolding k by metis
  qed
  then obtain m where m: "(of_int n :: rat) = of_int m * pow2 (max (bexp (of_int n)) (- 1022) - (53 - 1))"
    using e e0 by auto
  have "\<bar>of_int n :: rat\<bar> \<le> 2 ^ 53" using assms
    by (metis of_int_abs of_int_le_iff of_int_numeral of_int_power)
  also have "(2 ^ 53 :: rat) < pow2 (1023 + 1)" by (simp add: pow2_def)
  finally have lim: "\<bar>of_int n :: rat\<bar> < pow2 (1023 + 1)" .
  show ?thesis
    unfolding round_f64_def using False m lim by (intro round_bin_multiple) simp_all
qed

lemma f_to_sint_of_int:
  "- (2 ^ (w - 1)) \<le> n \<Longrightarrow> n < 2 ^ (w - 1) \<Longrightarrow> f_to_sint w (FFin (of_int n)) = n"
  by (simp add: rat_trunc_def Let_def)

lemma f_to_sint_range:
  assumes "0 < w"
  shows "- (2 ^ (w - 1)) \<le> f_to_sint w f \<and> f_to_sint w f < 2 ^ (w - 1)"
proof -
  have "- (2 ^ (w - 1)) < (2 ^ (w - 1) :: int)"
    by (rule less_trans [of _ 0]) simp_all
  then show ?thesis by (cases f) (auto simp: Let_def)
qed

subsection \<open>Reading back printed integers as floats\<close>

lemma takeWhile_all_append: "list_all P xs \<Longrightarrow> (ys \<noteq> [] \<Longrightarrow> \<not> P (hd ys)) \<Longrightarrow>
    takeWhile P (xs @ ys) = xs \<and> dropWhile P (xs @ ys) = ys"
  by (induction xs) (auto simp: takeWhile_eq_Nil_iff dropWhile_eq_self_iff)

lemma take_digits_show_nat [simp]: "take_digits (show_nat n) = (show_nat n, [])"
  using takeWhile_all_append [of is_digit "show_nat n" "[]"] by (simp add: take_digits_def)

lemma parse_decimal_show_int [simp]: "parse_decimal (show_int i) = Some (of_int i)"
proof (cases "i < 0")
  case True
  then have "rat_of_nat (nat (- i)) = - of_int i" by simp
  with True show ?thesis
    by (simp add: parse_decimal_def show_int_def parse_exp_def pow10_def)
next
  case False
  obtain c cs where c: "show_nat (nat i) = c # cs" "is_digit c"
    using show_nat_Cons by blast
  have *: "take_digits (c # cs) = (c # cs, [])" "digits_val (c # cs) = nat i"
    using take_digits_show_nat [of "nat i"] digits_val_show_nat [of "nat i"] c by simp_all
  have "rat_of_nat (nat i) = of_int i" using False by simp
  with c False * show ?thesis
    by (auto simp: parse_decimal_def show_int_def parse_exp_def pow10_def dest: is_digit_not_sign)
qed

lemma to_lower_digit: "is_digit c \<Longrightarrow> to_lower_char c = c"
  by (simp add: to_lower_char_def is_digit_def Let_def)

lemma ToLower_digits: "list_all is_digit s \<Longrightarrow> ToLower s = s"
  by (induction s) (auto simp: ToLower_def to_lower_digit)

lemma digits_not_word: "list_all is_digit s \<Longrightarrow> s \<noteq> ''inf'' \<and> s \<noteq> ''infinity'' \<and> s \<noteq> ''nan''"
  by (auto simp: is_digit_def)

lemma parse_special_show_int [simp]: "parse_special (show_int i) = None"
proof (cases "i < 0")
  case True
  have "to_lower_char CHR ''-'' = CHR ''-''" by (simp add: to_lower_char_def)
  with True show ?thesis
    using ToLower_digits [OF show_nat_digits, of "nat (- i)"]
      digits_not_word [OF show_nat_digits, of "nat (- i)"]
    by (simp add: parse_special_def show_int_def ToLower_def)
next
  case False
  obtain c cs where c: "show_nat (nat i) = c # cs" "is_digit c"
    using show_nat_Cons by blast
  with False show ?thesis
    using ToLower_digits [OF show_nat_digits, of "nat i"]
      digits_not_word [OF show_nat_digits, of "nat i"]
    by (auto simp: parse_special_def show_int_def dest: is_digit_not_sign)
qed

lemma parse_number_show_int [simp]: "parse_number (show_int i) = Some (of_int i)"
proof -
  have d: "list_all is_digit (show_nat n)" for n by simp
  have "\<not> is_digit CHR ''_''" by (simp add: is_digit_def)
  then have u: "CHR ''_'' \<notin> set (show_int i)" using d unfolding list_all_iff by (auto simp: show_int_def)
  have "snd (split_sign (show_int i)) = show_nat (nat \<bar>i\<bar>)"
  proof (cases "i < 0")
    case False
    obtain c cs where c: "show_nat (nat i) = c # cs" "is_digit c" using show_nat_Cons by blast
    then show ?thesis using False is_digit_not_sign [OF c(2)] by (simp add: show_int_def split_sign_def)
  qed (simp add: show_int_def split_sign_def)
  moreover have "\<not> hex_prefix (show_nat n)" for n
  proof
    assume h: "hex_prefix (show_nat n)"
    then have "is_digit (show_nat n ! 1)" using d [of n] by (simp add: hex_prefix_def list_all_length)
    then show False using h to_lower_digit by (auto simp: hex_prefix_def is_digit_def)
  qed
  moreover have "filter (\<lambda>c. c \<noteq> CHR ''_'') (show_int i) = show_int i" using u by (auto intro: filter_True)
  ultimately show ?thesis using u by (simp add: parse_number_def)
qed

lemma ParseFloat_show_int:
  "\<bar>i\<bar> \<le> 2 ^ 53 \<Longrightarrow> ParseFloat round_f64 (show_int i) = Some (FFin (of_int i))"
  by (simp add: ParseFloat_def round_f64_of_int)

subsection \<open>Reading back printed times\<close>

text \<open>The times that the layouts can express: a date of the years 0 to 9999, whole minutes of offset.\<close>

definition time_ok :: "gotime \<Rightarrow> bool" where
  "time_ok t \<longleftrightarrow> 0 \<le> t_year t \<and> t_year t \<le> 9999 \<and> 1 \<le> t_month t \<and> t_month t \<le> 12 \<and>
     1 \<le> t_day t \<and> t_day t \<le> days_in (t_month t) (t_year t) \<and> t_hour t < 24 \<and> t_min t < 60 \<and>
     t_sec t < 60 \<and> t_nsec t < 1000000000 \<and> t_off t mod 60 = 0 \<and> \<bar>t_off t\<bar> < 86400 \<and>
     t_zone t = (if t_off t = 0 then ''UTC'' else [])"

lemma show_nat_length: "n < 10 ^ k \<Longrightarrow> 0 < k \<Longrightarrow> length (show_nat n) \<le> k"
proof (induction k arbitrary: n)
  case 0
  then show ?case by simp
next
  case (Suc k)
  show ?case
  proof (cases "n < 10")
    case True
    then show ?thesis by (simp add: show_nat.simps [of n])
  next
    case False
    then have "0 < k" using Suc.prems by (cases k) auto
    moreover have "n div 10 < 10 ^ k" using Suc.prems(1) by (simp add: less_mult_imp_div_less)
    ultimately have "length (show_nat (n div 10)) \<le> k" by (rule Suc.IH [rotated])
    with False show ?thesis by (simp add: show_nat.simps [of n])
  qed
qed

lemma digits_val_append: "digits_val (s @ t) = digits_val s * 10 ^ length t + digits_val t"
proof (induction t rule: rev_induct)
  case Nil
  then show ?case by simp
next
  case (snoc c t)
  have "digits_val (s @ t @ [c]) = digits_val (s @ t) * 10 + digit_val c"
    using digits_val_snoc [of "s @ t" c] by simp
  with snoc show ?case by (simp add: algebra_simps)
qed

lemma digits_val_zeros [simp]: "digits_val (replicate k (CHR ''0'')) = 0"
proof (induction k)
  case (Suc k)
  have "replicate (Suc k) (CHR ''0'') = replicate k (CHR ''0'') @ [CHR ''0'']"
    by (simp add: replicate_append_same)
  with Suc show ?case by (simp only: digits_val_snoc) (simp add: digit_val_def)
qed simp

lemma pad0_facts:
  assumes "n < 10 ^ k" and "0 < k"
  shows "length (pad0 k n) = k" and "list_all is_digit (pad0 k n)" and "digits_val (pad0 k n) = n"
  using show_nat_length [OF assms]
  by (simp_all add: pad0_def Let_def digits_val_append is_digit_def list_all_iff)
    (use show_nat_digits [of n] in \<open>auto simp: list_all_iff is_digit_def\<close>)

lemma get_num_pad0 [simp]: "n < 10 ^ k \<Longrightarrow> 0 < k \<Longrightarrow> get_num k (pad0 k n @ rest) = Some (n, rest)"
  by (simp add: get_num_def pad0_facts)

lemma expect_append [simp]: "expect p (p @ rest) = Some rest"
  by (simp add: expect_def)

lemma expect_Cons [simp]: "expect [c] (c # rest) = Some rest"
  by (simp add: expect_def)

lemma parse_date_fmt:
  assumes "time_ok t"
  shows "parse_date (fmt_date t @ rest) = Some (t_year t, t_month t, t_day t, rest)"
proof -
  have "days_in (t_month t) (t_year t) \<le> 31" by (simp add: days_in_def)
  with assms have "nat (t_year t) < 10 ^ 4" "t_month t < 10 ^ 2" "t_day t < 10 ^ 2"
    by (auto simp: time_ok_def)
  with assms show ?thesis
    by (simp add: parse_date_def fmt_date_def fmt_year_def time_ok_def)
qed

lemma trim_zeros_decomp: "\<exists>k. s = trim_zeros s @ replicate k (CHR ''0'')"
proof (induction s rule: rev_induct)
  case Nil
  then show ?case by (simp add: trim_zeros_def)
next
  case (snoc c s)
  then obtain k where k: "s = trim_zeros s @ replicate k (CHR ''0'')" by blast
  show ?case
  proof (cases "c = CHR ''0''")
    case True
    then have "trim_zeros (s @ [c]) = trim_zeros s" by (simp add: trim_zeros_def)
    then have "s @ [c] = trim_zeros (s @ [c]) @ replicate (Suc k) (CHR ''0'')"
      using True k by (simp add: replicate_app_Cons_same replicate_append_same)
        (metis append_assoc replicate_append_same)
    then show ?thesis by blast
  next
    case False
    then have "s @ [c] = trim_zeros (s @ [c]) @ replicate 0 (CHR ''0'')" by (simp add: trim_zeros_def)
    then show ?thesis by blast
  qed
qed

lemma get_frac_fmt:
  assumes "t_nsec t < 10 ^ 9" and "rest = [] \<or> \<not> is_digit (hd rest)"
    and "rest = [] \<or> (hd rest \<noteq> CHR ''.'' \<and> hd rest \<noteq> CHR '','')"
  shows "get_frac (fmt_frac t @ rest) = (t_nsec t, rest)"
proof (cases "t_nsec t = 0")
  case True
  with assms show ?thesis by (auto simp: get_frac_def fmt_frac_def split: list.splits)
next
  case False
  let ?p = "pad0 9 (t_nsec t)" let ?z = "trim_zeros ?p"
  have p: "length ?p = 9" "list_all is_digit ?p" "digits_val ?p = t_nsec t"
    using pad0_facts [OF assms(1)] by simp_all
  obtain k where k: "?p = ?z @ replicate k (CHR ''0'')" using trim_zeros_decomp by blast
  have z: "list_all is_digit ?z" using p(2) k by (metis list_all_append)
  have ne: "?z \<noteq> []" using p(3) k False by (metis append_Nil digits_val_zeros)
  have len: "length ?z + k = 9" using p(1) k by (metis length_append length_replicate)
  have nine: "replicate 9 (CHR ''0'') = replicate k (CHR ''0'') @ replicate (9 - k) (CHR ''0'')"
    using len by (simp flip: replicate_add)
  have "take 9 (?z @ replicate 9 (CHR ''0'')) = ?z @ replicate k (CHR ''0'')"
    using len by (simp add: nine)
  then have "digits_val (take 9 (?z @ replicate 9 (CHR ''0''))) = t_nsec t" using k p(3) by simp
  moreover have "takeWhile is_digit (?z @ rest) = ?z" "dropWhile is_digit (?z @ rest) = rest"
    using takeWhile_all_append [OF z, of rest] assms(2) by auto
  moreover have "is_digit (hd (?z @ rest))" using z ne by (cases ?z) auto
  ultimately show ?thesis using False ne by (simp add: get_frac_def fmt_frac_def)
qed

lemma parse_clock_fmt:
  assumes "time_ok t" and "rest = [] \<or> \<not> is_digit (hd rest)"
    and "rest = [] \<or> (hd rest \<noteq> CHR ''.'' \<and> hd rest \<noteq> CHR '','')"
  shows "parse_clock (fmt_clock t @ fmt_frac t @ rest) =
    Some (t_hour t, t_min t, t_sec t, t_nsec t, rest)"
proof -
  have "t_hour t < 10 ^ 2" "t_min t < 10 ^ 2" "t_sec t < 10 ^ 2" "t_nsec t < 10 ^ 9"
    using assms(1) by (auto simp: time_ok_def)
  with assms show ?thesis
    by (simp add: parse_clock_def fmt_clock_def get_hour_def get_frac_fmt time_ok_def)
qed

lemma parse_zone_offset:
  assumes "h \<le> 24" and "m < 60" and "c = CHR ''+'' \<or> c = CHR ''-''"
  shows "parse_zone (c # pad0 2 h @ CHR '':'' # pad0 2 m) =
    (let o1 = int (h * 3600 + m * 60) in
     Some (if c = CHR ''-'' then - o1 else o1, if o1 = 0 then ''UTC'' else []))"
proof -
  have "h < 10 ^ 2" "m < 10 ^ 2" using assms by simp_all
  then have *: "get_num 2 (pad0 2 h @ CHR '':'' # pad0 2 m) = Some (h, CHR '':'' # pad0 2 m)"
    "get_num 2 (pad0 2 m) = Some (m, [])"
    using get_num_pad0 [of m 2 "[]"] by simp_all
  show ?thesis using assms by (auto simp: parse_zone_def * Let_def)
qed

lemma parse_zone_fmt:
  assumes "time_ok t"
  shows "parse_zone (fmt_zone t) = Some (t_off t, t_zone t)"
proof (cases "t_off t = 0")
  case True
  with assms show ?thesis by (simp add: parse_zone_def fmt_zone_def time_ok_def)
next
  case False
  let ?z = "nat (\<bar>t_off t\<bar> div 60)"
  have m: "\<bar>t_off t\<bar> = 60 * (\<bar>t_off t\<bar> div 60)" and l: "\<bar>t_off t\<bar> < 86400"
    using assms by (auto simp: time_ok_def abs_if)
  have "?z < 1440" using l by auto
  then have b: "?z div 60 < 10 ^ 2" "?z mod 60 < 10 ^ 2" "?z div 60 \<le> 24" "?z mod 60 < 60" by auto
  have "int (?z div 60 * 3600 + ?z mod 60 * 60) = \<bar>t_off t\<bar>"
  proof -
    have "?z div 60 * 3600 + ?z mod 60 * 60 = 60 * ?z"
      using div_mult_mod_eq [of ?z 60] by linarith
    then have "int (?z div 60 * 3600 + ?z mod 60 * 60) = 60 * int ?z" by simp
    also have "int ?z = \<bar>t_off t\<bar> div 60" by simp
    finally show ?thesis using m by simp
  qed
  then have o1: "int (?z div 60 * 3600 + ?z mod 60 * 60) = \<bar>t_off t\<bar>" .
  have zone: "t_zone t = []" using False assms by (simp add: time_ok_def)
  let ?c = "if t_off t < 0 then CHR ''-'' else CHR ''+''"
  have "fmt_zone t = ?c # pad0 2 (?z div 60) @ CHR '':'' # pad0 2 (?z mod 60)"
    using False by (simp add: fmt_zone_def fmt_offset_def Let_def)
  moreover have "?c = CHR ''+'' \<or> ?c = CHR ''-''" by simp
  ultimately have "parse_zone (fmt_zone t) =
      Some (if ?c = CHR ''-'' then - \<bar>t_off t\<bar> else \<bar>t_off t\<bar>, if \<bar>t_off t\<bar> = 0 then ''UTC'' else [])"
    using parse_zone_offset [OF b(3,4), of ?c] unfolding Let_def o1 by simp
  with False zone show ?thesis by simp
qed

lemma fmt_zone_hd: "hd (fmt_zone t) \<in> {CHR ''Z'', CHR ''+'', CHR ''-''} \<and> fmt_zone t \<noteq> []"
  by (simp add: fmt_zone_def fmt_offset_def Let_def)

lemma time_Parse_RFC3339Nano:
  assumes "time_ok t"
  shows "time_Parse Layout_RFC3339 (RFC3339Nano t) = Some t"
proof -
  have h: "fmt_zone t = [] \<or> \<not> is_digit (hd (fmt_zone t))"
    "fmt_zone t = [] \<or> (hd (fmt_zone t) \<noteq> CHR ''.'' \<and> hd (fmt_zone t) \<noteq> CHR '','')"
    using fmt_zone_hd [of t] by (auto simp: is_digit_def)
  show ?thesis
    using parse_clock_fmt [OF assms h] parse_date_fmt [OF assms] parse_zone_fmt [OF assms]
    by (simp add: time_Parse_def RFC3339Nano_def)
qed

end
