(* ===== verification/Go_Json.thy ===== *)
theory Go_Json
  imports Go_Value
begin

text \<open>
  \<^verbatim>\<open>encoding/json\<close> at the level of text, as far as the program uses it: \<^verbatim>\<open>json.Marshal\<close> of dynamic
  values (sorted keys, HTML escaping, base64 for byte slices, RFC 3339 times, the shortest form of
  floats) and \<^verbatim>\<open>json.Unmarshal\<close> into \<^verbatim>\<open>interface{}\<close> and \<^verbatim>\<open>map[string]interface{}\<close> (white space, escapes,
  surrogate pairs, invalid UTF-8 replaced, numbers read as float64, the last of equal keys wins).
  The limit on nesting of 10000 levels is not represented. The lemmas show that the text printed
  for a document parses back to the same document and what comes back for each kind of value.
\<close>

section \<open>Documents\<close>

datatype json =
    JNull
  | JBool bool
  | JNum string
  | JStr string
  | JArr "json list"
  | JObj "(string \<times> json) list"

section \<open>UTF-8\<close>

definition cont_byte :: "nat \<Rightarrow> bool" where
  "cont_byte n \<longleftrightarrow> 128 \<le> n \<and> n < 192"

text \<open>The length of the well-formed multi-byte sequence at the head of a string, 0 for none.\<close>

definition utf8_len :: "string \<Rightarrow> nat" where
  "utf8_len s =
     (case map (of_char :: char \<Rightarrow> nat) (take 4 s) of
        a # b # bs \<Rightarrow>
          if 194 \<le> a \<and> a \<le> 223 then (if cont_byte b then 2 else 0)
          else if 224 \<le> a \<and> a \<le> 239 then
            (case bs of
               c # _ \<Rightarrow> if cont_byte b \<and> cont_byte c \<and> (a = 224 \<longrightarrow> 160 \<le> b) \<and> (a = 237 \<longrightarrow> b < 160) then 3 else 0
             | [] \<Rightarrow> 0)
          else if 240 \<le> a \<and> a \<le> 244 then
            (case bs of
               c # d # _ \<Rightarrow>
                 if cont_byte b \<and> cont_byte c \<and> cont_byte d \<and> (a = 240 \<longrightarrow> 144 \<le> b) \<and> (a = 244 \<longrightarrow> b < 144) then 4 else 0
             | _ \<Rightarrow> 0)
          else 0
      | _ \<Rightarrow> 0)"

definition rune_utf8 :: "nat \<Rightarrow> string" where
  "rune_utf8 r =
     (if r < 128 then [char_of r]
      else if r < 2048 then [char_of (192 + r div 64), char_of (128 + r mod 64)]
      else if r < 65536 then [char_of (224 + r div 4096), char_of (128 + (r div 64) mod 64), char_of (128 + r mod 64)]
      else [char_of (240 + r div 262144), char_of (128 + (r div 4096) mod 64),
            char_of (128 + (r div 64) mod 64), char_of (128 + r mod 64)])"

fun utf8_valid :: "string \<Rightarrow> bool" where
  "utf8_valid [] = True"
| "utf8_valid (c # cs) =
     (if (of_char c :: nat) < 128 then utf8_valid cs
      else utf8_len (c # cs) \<noteq> 0 \<and> utf8_valid (drop (utf8_len (c # cs) - 1) cs))"

section \<open>Printing\<close>

definition hex_char :: "nat \<Rightarrow> char" where
  "hex_char d = (if d < 10 then char_of (48 + d) else char_of (87 + d))"

definition esc_u00 :: "nat \<Rightarrow> string" where
  "esc_u00 n = CHR 0x5C # ''u00'' @ [hex_char (n div 16), hex_char (n mod 16)]"

definition esc_ascii :: "char \<Rightarrow> string" where
  "esc_ascii c =
     (let n = (of_char c :: nat) in
      if n = 34 \<or> n = 92 then [CHR 0x5C, c]
      else if n = 8 then [CHR 0x5C, CHR ''b'']
      else if n = 12 then [CHR 0x5C, CHR ''f'']
      else if n = 10 then [CHR 0x5C, CHR ''n'']
      else if n = 13 then [CHR 0x5C, CHR ''r'']
      else if n = 9 then [CHR 0x5C, CHR ''t'']
      else if n < 32 \<or> n = 60 \<or> n = 62 \<or> n = 38 then esc_u00 n
      else [c])"

fun esc :: "string \<Rightarrow> string" where
  "esc [] = []"
| "esc (c # cs) =
     (let k = utf8_len (c # cs) in
      if (of_char c :: nat) < 128 then esc_ascii c @ esc cs
      else if k = 0 then CHR 0x5C # ''ufffd'' @ esc cs
      else if take 3 (c # cs) = [CHR 0xE2, CHR 0x80, CHR 0xA8] then CHR 0x5C # ''u2028'' @ esc (drop (k - 1) cs)
      else if take 3 (c # cs) = [CHR 0xE2, CHR 0x80, CHR 0xA9] then CHR 0x5C # ''u2029'' @ esc (drop (k - 1) cs)
      else take k (c # cs) @ esc (drop (k - 1) cs))"

definition quote_json :: "string \<Rightarrow> string" where
  "quote_json s = CHR 0x22 # esc s @ [CHR 0x22]"

fun print_json :: "json \<Rightarrow> string" where
  "print_json JNull = ''null''"
| "print_json (JBool b) = show_bool b"
| "print_json (JNum t) = t"
| "print_json (JStr s) = quote_json s"
| "print_json (JArr js) = CHR ''['' # str_join '','' (map print_json js) @ '']''"
| "print_json (JObj ms) = CHR ''{'' # str_join '','' (map (\<lambda>(k, j). quote_json k @ '':'' @ print_json j) ms) @ ''}''"

section \<open>Parsing\<close>

definition skip_ws :: "string \<Rightarrow> string" where
  "skip_ws s = dropWhile (\<lambda>c. c = CHR '' '' \<or> c = CHR 0x09 \<or> c = CHR 0x0A \<or> c = CHR 0x0D) s"

definition hex_val :: "char \<Rightarrow> nat option" where
  "hex_val c =
     (let n = (of_char c :: nat) in
      if 48 \<le> n \<and> n \<le> 57 then Some (n - 48)
      else if 97 \<le> n \<and> n \<le> 102 then Some (n - 87)
      else if 65 \<le> n \<and> n \<le> 70 then Some (n - 55) else None)"

definition hex4 :: "string \<Rightarrow> nat option" where
  "hex4 s =
     (case map hex_val (take 4 s) of
        [Some a, Some b, Some c, Some d] \<Rightarrow> Some (((a * 16 + b) * 16 + c) * 16 + d)
      | _ \<Rightarrow> None)"

definition simple_esc :: "char \<Rightarrow> char option" where
  "simple_esc e =
     (let n = (of_char e :: nat) in
      if n = 34 \<or> n = 92 \<or> n = 47 then Some e
      else if e = CHR ''b'' then Some (CHR 0x08)
      else if e = CHR ''f'' then Some (CHR 0x0C)
      else if e = CHR ''n'' then Some (CHR 0x0A)
      else if e = CHR ''r'' then Some (CHR 0x0D)
      else if e = CHR ''t'' then Some (CHR 0x09) else None)"

text \<open>A surrogate pair that follows: backslash, u, and a low surrogate.\<close>

definition low_surrogate :: "string \<Rightarrow> nat option" where
  "low_surrogate s =
     (if take 2 s = [CHR 0x5C, CHR ''u''] then
        (case hex4 (drop 2 s) of
           Some r \<Rightarrow> if 56320 \<le> r \<and> r < 57344 then Some r else None
         | None \<Rightarrow> None)
      else None)"

definition replacement :: string where
  "replacement = [CHR 0xEF, CHR 0xBF, CHR 0xBD]"

fun unesc :: "string \<Rightarrow> (string \<times> string) option" where
  "unesc [] = None"
| "unesc (c # cs) =
     (if c = CHR 0x22 then Some ([], cs)
      else if c = CHR 0x5C then
        (case cs of
           [] \<Rightarrow> None
         | e # es \<Rightarrow>
             if e = CHR ''u'' then
               (case hex4 es of
                  None \<Rightarrow> None
                | Some r \<Rightarrow>
                    if 55296 \<le> r \<and> r < 57344 then
                      (case (if r < 56320 then low_surrogate (drop 4 es) else None) of
                         Some l \<Rightarrow> map_option (\<lambda>(x, q). (rune_utf8 (65536 + (r - 55296) * 1024 + (l - 56320)) @ x, q))
                                     (unesc (drop 10 es))
                       | None \<Rightarrow> map_option (\<lambda>(x, q). (replacement @ x, q)) (unesc (drop 4 es)))
                    else map_option (\<lambda>(x, q). (rune_utf8 r @ x, q)) (unesc (drop 4 es)))
             else (case simple_esc e of
                     None \<Rightarrow> None
                   | Some d \<Rightarrow> map_option (\<lambda>(x, q). (d # x, q)) (unesc es)))
      else if (of_char c :: nat) < 32 then None
      else if (of_char c :: nat) < 128 then map_option (\<lambda>(x, q). (c # x, q)) (unesc cs)
      else if utf8_len (c # cs) = 0 then map_option (\<lambda>(x, q). (replacement @ x, q)) (unesc cs)
      else map_option (\<lambda>(x, q). (take (utf8_len (c # cs)) (c # cs) @ x, q))
             (unesc (drop (utf8_len (c # cs) - 1) cs)))"

definition num_char :: "char \<Rightarrow> bool" where
  "num_char c \<longleftrightarrow> is_digit c \<or> c = CHR ''-'' \<or> c = CHR ''+'' \<or> c = CHR ''.'' \<or> c = CHR ''e'' \<or> c = CHR ''E''"

text \<open>The grammar of a JSON number.\<close>

definition num_exp_ok :: "string \<Rightarrow> bool" where
  "num_exp_ok s =
     (case s of
        [] \<Rightarrow> True
      | c # cs \<Rightarrow> (c = CHR ''e'' \<or> c = CHR ''E'') \<and>
          (case cs of
             [] \<Rightarrow> False
           | d # ds \<Rightarrow> (if d = CHR ''+'' \<or> d = CHR ''-'' then ds \<noteq> [] \<and> list_all is_digit ds
                       else list_all is_digit (d # ds))))"

definition num_frac_ok :: "string \<Rightarrow> bool" where
  "num_frac_ok s =
     (case s of
        [] \<Rightarrow> True
      | c # cs \<Rightarrow> if c = CHR ''.'' then takeWhile is_digit cs \<noteq> [] \<and> num_exp_ok (dropWhile is_digit cs)
                  else num_exp_ok s)"

definition num_ok :: "string \<Rightarrow> bool" where
  "num_ok s =
     (let s1 = (case s of [] \<Rightarrow> [] | c # cs \<Rightarrow> if c = CHR ''-'' then cs else s);
          ip = takeWhile is_digit s1
      in ip \<noteq> [] \<and> (hd ip = CHR ''0'' \<longrightarrow> ip = ''0'') \<and> num_frac_ok (dropWhile is_digit s1))"

lemma length_skip_ws: "length (skip_ws s) \<le> length s"
  by (simp add: skip_ws_def length_dropWhile_le)

text \<open>
  The comparisons of lengths are always true (a value takes at least one byte); they make the
  termination of the mutual recursion evident.
\<close>

function (sequential) parse_val :: "string \<Rightarrow> (json \<times> string) option"
  and parse_elems :: "string \<Rightarrow> (json list \<times> string) option"
  and parse_members :: "string \<Rightarrow> ((string \<times> json) list \<times> string) option" where
  "parse_val s =
     (case skip_ws s of
        [] \<Rightarrow> None
      | c # cs \<Rightarrow>
          if c = CHR ''n'' then map_option (\<lambda>r. (JNull, r)) (expect ''ull'' cs)
          else if c = CHR ''t'' then map_option (\<lambda>r. (JBool True, r)) (expect ''rue'' cs)
          else if c = CHR ''f'' then map_option (\<lambda>r. (JBool False, r)) (expect ''alse'' cs)
          else if c = CHR 0x22 then map_option (\<lambda>(x, r). (JStr x, r)) (unesc cs)
          else if c = CHR ''['' then
            (case skip_ws cs of
               [] \<Rightarrow> None
             | d # ds \<Rightarrow> if d = CHR '']'' then Some (JArr [], ds)
                         else map_option (\<lambda>(js, r). (JArr js, r)) (parse_elems (d # ds)))
          else if c = CHR ''{'' then
            (case skip_ws cs of
               [] \<Rightarrow> None
             | d # ds \<Rightarrow> if d = CHR ''}'' then Some (JObj [], ds)
                         else map_option (\<lambda>(ms, r). (JObj ms, r)) (parse_members (d # ds)))
          else (let t = takeWhile num_char (c # cs) in
                if num_ok t then Some (JNum t, dropWhile num_char (c # cs)) else None))"
| "parse_elems s =
     (case parse_val s of
        None \<Rightarrow> None
      | Some (j, s1) \<Rightarrow>
          if length s1 < length s then
            (case skip_ws s1 of
               [] \<Rightarrow> None
             | c # cs \<Rightarrow>
                 if c = CHR '','' then (case parse_elems cs of None \<Rightarrow> None | Some (js, r) \<Rightarrow> Some (j # js, r))
                 else if c = CHR '']'' then Some ([j], cs) else None)
          else None)"
| "parse_members s =
     (case skip_ws s of
        [] \<Rightarrow> None
      | q # qs \<Rightarrow>
          if q \<noteq> CHR 0x22 then None
          else (case unesc qs of
             None \<Rightarrow> None
           | Some (k, s1) \<Rightarrow>
               (case skip_ws s1 of
                  [] \<Rightarrow> None
                | c # cs \<Rightarrow>
                    if c \<noteq> CHR '':'' \<or> length s \<le> length cs then None
                    else (case parse_val cs of
                       None \<Rightarrow> None
                     | Some (j, s2) \<Rightarrow>
                         if length s2 < length s then
                           (case skip_ws s2 of
                              [] \<Rightarrow> None
                            | d # ds \<Rightarrow>
                                if d = CHR '','' then
                                  (case parse_members ds of None \<Rightarrow> None | Some (ms, r) \<Rightarrow> Some ((k, j) # ms, r))
                                else if d = CHR ''}'' then Some ([(k, j)], ds) else None)
                         else None))))"
  by pat_completeness auto
termination
proof (relation "measure (\<lambda>x. case x of Inl s \<Rightarrow> 2 * length s
    | Inr (Inl s) \<Rightarrow> 2 * length s + 1 | Inr (Inr s) \<Rightarrow> 2 * length s + 1)", goal_cases)
  case (2 s c cs d ds)
  then show ?case using length_skip_ws [of s] length_skip_ws [of cs] by simp
next
  case (3 s c cs d ds)
  then show ?case using length_skip_ws [of s] length_skip_ws [of cs] by simp
next
  case (5 s a j s1 c cs)
  then show ?case using length_skip_ws [of s1] by simp
next
  case (7 s q qs a k s1 c cs a' j s2 d ds)
  then show ?case using length_skip_ws [of s2] by simp
qed auto

declare parse_val.simps [simp del] parse_elems.simps [simp del] parse_members.simps [simp del]

text \<open>The whole input has to be one value.\<close>

definition parse_json :: "string \<Rightarrow> json option" where
  "parse_json s =
     (case parse_val s of
        None \<Rightarrow> None
      | Some (j, r) \<Rightarrow> if skip_ws r = [] then Some j else None)"

section \<open>Base64\<close>

definition b64_char :: "nat \<Rightarrow> char" where
  "b64_char n =
     (if n < 26 then char_of (65 + n) else if n < 52 then char_of (71 + n)
      else if n < 62 then char_of (n - 4) else if n = 62 then CHR ''+'' else CHR ''/'')"

fun base64 :: "string \<Rightarrow> string" where
  "base64 [] = []"
| "base64 [a] = (let x = (of_char a :: nat) in [b64_char (x div 4), b64_char ((x mod 4) * 16), CHR ''='', CHR ''=''])"
| "base64 [a, b] =
     (let x = (of_char a :: nat); y = (of_char b :: nat)
      in [b64_char (x div 4), b64_char ((x mod 4) * 16 + y div 16), b64_char ((y mod 16) * 4), CHR ''=''])"
| "base64 (a # b # c # cs) =
     (let x = (of_char a :: nat); y = (of_char b :: nat); z = (of_char c :: nat)
      in b64_char (x div 4) # b64_char ((x mod 4) * 16 + y div 16) # b64_char ((y mod 16) * 4 + z div 64) #
         b64_char (z mod 64) # base64 cs)"

definition b64_val :: "char \<Rightarrow> nat option" where
  "b64_val c =
     (let n = (of_char c :: nat) in
      if 65 \<le> n \<and> n \<le> 90 then Some (n - 65) else if 97 \<le> n \<and> n \<le> 122 then Some (n - 71)
      else if 48 \<le> n \<and> n \<le> 57 then Some (n + 4) else if c = CHR ''+'' then Some 62
      else if c = CHR ''/'' then Some 63 else None)"

text \<open>Decoding; the line breaks the library skips are not accepted here.\<close>

fun unbase64 :: "string \<Rightarrow> string option" where
  "unbase64 [] = Some []"
| "unbase64 (a # b # c # d # ds) =
     (case (b64_val a, b64_val b) of
        (Some x, Some y) \<Rightarrow>
          if c = CHR ''='' then (if d = CHR ''='' \<and> ds = [] then Some [char_of (x * 4 + y div 16)] else None)
          else (case b64_val c of
             None \<Rightarrow> None
           | Some z \<Rightarrow>
               if d = CHR ''='' then
                 (if ds = [] then Some [char_of (x * 4 + y div 16), char_of ((y mod 16) * 16 + z div 4)] else None)
               else (case b64_val d of
                  None \<Rightarrow> None
                | Some w \<Rightarrow> map_option (\<lambda>r. char_of (x * 4 + y div 16) # char_of ((y mod 16) * 16 + z div 4) #
                     char_of ((z mod 4) * 64 + w) # r) (unbase64 ds)))
      | _ \<Rightarrow> None)"
| "unbase64 _ = None"

section \<open>Values to documents and back\<close>

fun json_float :: "(rat \<Rightarrow> gofloat) \<Rightarrow> gofloat \<Rightarrow> json res" where
  "json_float rnd (FFin x) =
     (if x = 0 then Inr (JNum ''0'')
      else let (ds, dp) = shortest_digits rnd \<bar>x\<bar>;
               b = (if \<bar>x\<bar> < 1 / 1000000 \<or> 10 ^ 21 \<le> \<bar>x\<bar> then fmt_e 1 ds dp else fmt_f ds dp)
           in Inr (JNum ((if x < 0 then ''-'' else []) @ b)))"
| "json_float rnd f = Inl (Errorf ''json: unsupported value'' [fmt_g rnd f])"

fun collect_list :: "'a res list \<Rightarrow> 'a list res" where
  "collect_list [] = Inr []"
| "collect_list (r # rs) =
     (case r of Inl e \<Rightarrow> Inl e | Inr x \<Rightarrow> (case collect_list rs of Inl e \<Rightarrow> Inl e | Inr xs \<Rightarrow> Inr (x # xs)))"

fun collect_members :: "(string \<times> 'a res) list \<Rightarrow> (string \<times> 'a) list res" where
  "collect_members [] = Inr []"
| "collect_members ((k, r) # rs) =
     (case r of Inl e \<Rightarrow> Inl e
      | Inr x \<Rightarrow> (case collect_members rs of Inl e \<Rightarrow> Inl e | Inr xs \<Rightarrow> Inr ((k, x) # xs)))"

definition json_time :: "gotime \<Rightarrow> json res" where
  "json_time t =
     (if t_year t < 0 \<or> 9999 < t_year t \<or> 86400 \<le> \<bar>t_off t\<bar>
      then Inl (Errorf ''Time.MarshalJSON: year outside of range [0,9999]'' [])
      else Inr (JStr (RFC3339Nano t)))"

fun to_json :: "goval \<Rightarrow> json res" where
  "to_json VNil = Inr JNull"
| "to_json (VBool b) = Inr (JBool b)"
| "to_json (VInt w) = Inr (JNum (show_int (sint w)))"
| "to_json (VInt8 w) = Inr (JNum (show_int (sint w)))"
| "to_json (VInt16 w) = Inr (JNum (show_int (sint w)))"
| "to_json (VInt32 w) = Inr (JNum (show_int (sint w)))"
| "to_json (VInt64 w) = Inr (JNum (show_int (sint w)))"
| "to_json (VUint w) = Inr (JNum (show_int (uint w)))"
| "to_json (VUint8 w) = Inr (JNum (show_int (uint w)))"
| "to_json (VUint16 w) = Inr (JNum (show_int (uint w)))"
| "to_json (VUint32 w) = Inr (JNum (show_int (uint w)))"
| "to_json (VUint64 w) = Inr (JNum (show_int (uint w)))"
| "to_json (VFloat32 f) = json_float round_f32 f"
| "to_json (VFloat64 f) = json_float round_f64 f"
| "to_json (VString s) = Inr (JStr s)"
| "to_json (VBytes s) = Inr (JStr (base64 s))"
| "to_json (VTime t) = json_time t"
| "to_json (VMap m) =
     (case collect_members (sort_key fst (map (\<lambda>(k, v). (k, to_json v)) m)) of
        Inl e \<Rightarrow> Inl e | Inr ms \<Rightarrow> Inr (JObj ms))"
| "to_json (VSlice vs) =
     (case collect_list (map to_json vs) of Inl e \<Rightarrow> Inl e | Inr js \<Rightarrow> Inr (JArr js))"
| "to_json (VNullString s b) = Inr (JObj [(''String'', JStr s), (''Valid'', JBool b)])"
| "to_json (VNullInt64 w b) = Inr (JObj [(''Int64'', JNum (show_int (sint w))), (''Valid'', JBool b)])"
| "to_json (VOpaque t) = Inl (Errorf ''json: unsupported type'' [t])"

definition json_Marshal :: "goval \<Rightarrow> string res" where
  "json_Marshal v = (case to_json v of Inl e \<Rightarrow> Inl e | Inr j \<Rightarrow> Inr (print_json j))"

definition json_number :: "string \<Rightarrow> goval res" where
  "json_number t =
     (case ParseFloat round_f64 t of
        None \<Rightarrow> Inl (Errorf ''json: cannot unmarshal number into Go value of type float64'' [t])
      | Some f \<Rightarrow> Inr (VFloat64 f))"

fun from_json :: "json \<Rightarrow> goval res" where
  "from_json JNull = Inr VNil"
| "from_json (JBool b) = Inr (VBool b)"
| "from_json (JNum t) = json_number t"
| "from_json (JStr s) = Inr (VString s)"
| "from_json (JArr js) =
     (case collect_list (map from_json js) of Inl e \<Rightarrow> Inl e | Inr vs \<Rightarrow> Inr (VSlice vs))"
| "from_json (JObj ms) =
     (case collect_members (map (\<lambda>(k, j). (k, from_json j)) ms) of
        Inl e \<Rightarrow> Inl e | Inr kvs \<Rightarrow> Inr (VMap (gomap_of kvs)))"

definition json_syntax_error :: gerror where
  "json_syntax_error = Errorf ''json: invalid syntax'' []"

text \<open>\<^verbatim>\<open>json.Unmarshal\<close> into a variable of type \<^verbatim>\<open>interface{}\<close>.\<close>

definition json_Unmarshal :: "string \<Rightarrow> goval res" where
  "json_Unmarshal s = (case parse_json s of None \<Rightarrow> Inl json_syntax_error | Some j \<Rightarrow> from_json j)"

text \<open>
  \<^verbatim>\<open>json.Unmarshal\<close> into a nil \<^verbatim>\<open>map[string]interface{}\<close>: an object fills it, null leaves it nil
  (\<open>None\<close>), anything else is a type error.
\<close>

definition json_Unmarshal_map :: "string \<Rightarrow> grecord option res" where
  "json_Unmarshal_map s =
     (case parse_json s of
        None \<Rightarrow> Inl json_syntax_error
      | Some j \<Rightarrow>
          (case from_json j of
             Inl e \<Rightarrow> Inl e
           | Inr (VMap m) \<Rightarrow> Inr (Some m)
           | Inr VNil \<Rightarrow> Inr None
           | Inr v \<Rightarrow> Inl (Errorf ''json: cannot unmarshal into Go value of type map[string]interface {}'' [type_name v])))"

section \<open>Lemmas\<close>

subsection \<open>Strings\<close>

lemma hex_val_hex_char: "d < 16 \<Longrightarrow> hex_val (hex_char d) = Some d"
  by (auto simp: hex_val_def hex_char_def Let_def)

lemma hex4_u00:
  assumes "n < 256"
  shows "hex4 (''00'' @ hex_char (n div 16) # hex_char (n mod 16) # t) = Some n"
proof -
  have "n div 16 < 16" "n mod 16 < 16" using assms by auto
  moreover have "hex_val (CHR ''0'') = Some 0" by (simp add: hex_val_def)
  ultimately show ?thesis by (simp add: hex4_def hex_val_hex_char)
qed

lemma unesc_simple: "simple_esc e = Some d \<Longrightarrow> e \<noteq> CHR ''u'' \<Longrightarrow>
    unesc (CHR 0x5C # e # t) = map_option (\<lambda>(x, q). (d # x, q)) (unesc t)"
  by simp

lemma simple_esc_chars:
  "simple_esc (CHR ''b'') = Some (CHR 0x08)" "simple_esc (CHR ''f'') = Some (CHR 0x0C)"
  "simple_esc (CHR ''n'') = Some (CHR 0x0A)" "simple_esc (CHR ''r'') = Some (CHR 0x0D)"
  "simple_esc (CHR ''t'') = Some (CHR 0x09)"
  by (simp_all add: simple_esc_def)

lemma char_eqI: "(of_char c :: nat) = of_char d \<Longrightarrow> c = d"
  by simp

lemma unesc_esc_u00:
  assumes "n < 128" and "c = char_of n"
  shows "unesc (esc_u00 n @ t) = map_option (\<lambda>(x, q). (c # x, q)) (unesc t)"
proof -
  have "hex4 (CHR ''0'' # CHR ''0'' # hex_char (n div 16) # hex_char (n mod 16) # t) = Some n"
    using hex4_u00 [of n t] assms by simp
  with assms show ?thesis by (simp add: esc_u00_def rune_utf8_def)
qed

lemma unesc_esc_ascii:
  assumes "(of_char c :: nat) < 128"
  shows "unesc (esc_ascii c @ t) = map_option (\<lambda>(x, q). (c # x, q)) (unesc t)"
proof -
  let ?n = "of_char c :: nat"
  consider "?n = 34 \<or> ?n = 92" | "?n = 8" | "?n = 12" | "?n = 10" | "?n = 13" | "?n = 9"
    | "?n \<notin> {34, 92, 8, 12, 10, 13, 9}" "?n < 32 \<or> ?n = 60 \<or> ?n = 62 \<or> ?n = 38"
    | "?n \<notin> {34, 92, 8, 12, 10, 13, 9}" "\<not> (?n < 32 \<or> ?n = 60 \<or> ?n = 62 \<or> ?n = 38)" by blast
  then show ?thesis
  proof cases
    case 1
    then have "simple_esc c = Some c" "c \<noteq> CHR ''u''" by (auto simp: simple_esc_def)
    with 1 show ?thesis by (auto simp: esc_ascii_def Let_def simp del: unesc.simps intro: unesc_simple)
  next
    case 2
    then have "c = CHR 0x08" by (intro char_eqI) simp
    then show ?thesis by (simp add: esc_ascii_def simple_esc_chars)
  next
    case 3
    then have "c = CHR 0x0C" by (intro char_eqI) simp
    then show ?thesis by (simp add: esc_ascii_def simple_esc_chars)
  next
    case 4
    then have "c = CHR 0x0A" by (intro char_eqI) simp
    then show ?thesis by (simp add: esc_ascii_def simple_esc_chars)
  next
    case 5
    then have "c = CHR 0x0D" by (intro char_eqI) simp
    then show ?thesis by (simp add: esc_ascii_def simple_esc_chars)
  next
    case 6
    then have "c = CHR 0x09" by (intro char_eqI) simp
    then show ?thesis by (simp add: esc_ascii_def simple_esc_chars)
  next
    case 7
    then have "esc_ascii c = esc_u00 ?n" by (auto simp: esc_ascii_def Let_def)
    with assms show ?thesis by (simp add: unesc_esc_u00 del: unesc.simps)
  next
    case 8
    then have "esc_ascii c = [c]" by (auto simp: esc_ascii_def Let_def)
    moreover have "c \<noteq> CHR 0x22" "c \<noteq> CHR 0x5C" using 8(1) by auto
    ultimately show ?thesis using 8 assms by simp
  qed
qed

lemma utf8_len_le: "utf8_len s \<le> 4"
  by (auto simp: utf8_len_def split: list.splits)

lemma utf8_len_length: "utf8_len s \<le> length s"
proof (cases s)
  case (Cons a as)
  show ?thesis
  proof (cases as)
    case (Cons b bs)
    show ?thesis
    proof (cases bs)
      case (Cons c cs)
      then show ?thesis using \<open>s = a # as\<close> \<open>as = b # bs\<close>
        by (cases cs) (auto simp: utf8_len_def)
    qed (use \<open>s = a # as\<close> Cons in \<open>auto simp: utf8_len_def\<close>)
  qed (use Cons in \<open>auto simp: utf8_len_def\<close>)
qed (simp add: utf8_len_def)

lemma utf8_len_prefix: "utf8_len s \<noteq> 0 \<Longrightarrow> utf8_len (take (utf8_len s) s @ t) = utf8_len s"
proof (cases s)
  case (Cons a as)
  assume nz: "utf8_len s \<noteq> 0"
  show ?thesis
  proof (cases as)
    case (Cons b bs)
    note as = this
    show ?thesis
    proof (cases bs)
      case (Cons c cs)
      then show ?thesis using \<open>s = a # as\<close> as nz
        by (cases cs) (auto simp: utf8_len_def split: if_splits)
    qed (use \<open>s = a # as\<close> as nz in \<open>auto simp: utf8_len_def split: if_splits\<close>)
  qed (use Cons nz in \<open>auto simp: utf8_len_def\<close>)
qed (simp add: utf8_len_def)

lemma unesc_utf8:
  assumes "128 \<le> (of_char c :: nat)" and "utf8_len (c # cs) \<noteq> 0"
  shows "unesc (take (utf8_len (c # cs)) (c # cs) @ t) =
    map_option (\<lambda>(x, q). (take (utf8_len (c # cs)) (c # cs) @ x, q)) (unesc t)"
proof -
  let ?k = "utf8_len (c # cs)"
  obtain m where m: "?k = Suc m" using assms(2) by (cases ?k) auto
  have t: "take ?k (c # cs) @ t = c # take m cs @ t" using m by simp
  have k: "utf8_len (c # take m cs @ t) = Suc m"
    using utf8_len_prefix [OF assms(2), of t] unfolding m by simp
  have l: "length (take m cs) = m" using utf8_len_length [of "c # cs"] m by simp
  have "c \<noteq> CHR 0x22" "c \<noteq> CHR 0x5C" using assms(1) by auto
  with assms(1) k l show ?thesis unfolding t by (simp add: m)
qed

lemma unesc_line_sep:
  assumes "take 3 s = [CHR 0xE2, CHR 0x80, x]" and "x = CHR 0xA8 \<or> x = CHR 0xA9"
  shows "utf8_len s = 3"
    and "unesc (CHR 0x5C # (if x = CHR 0xA8 then ''u2028'' else ''u2029'') @ t) =
      map_option (\<lambda>(y, q). (take 3 s @ y, q)) (unesc t)"
proof -
  obtain u where s: "s = [CHR 0xE2, CHR 0x80, x] @ u"
    using assms(1) by (metis append_take_drop_id)
  show "utf8_len s = 3" using assms(2) unfolding s
    by (cases u) (auto simp: utf8_len_def cont_byte_def)
  have h: "hex4 (CHR ''2'' # CHR ''0'' # CHR ''2'' # CHR ''8'' # t) = Some 8232"
    "hex4 (CHR ''2'' # CHR ''0'' # CHR ''2'' # CHR ''9'' # t) = Some 8233"
    by (simp_all add: hex4_def hex_val_def)
  have r: "rune_utf8 8232 = [CHR 0xE2, CHR 0x80, CHR 0xA8]" "rune_utf8 8233 = [CHR 0xE2, CHR 0x80, CHR 0xA9]"
    by (code_simp)+
  show "unesc (CHR 0x5C # (if x = CHR 0xA8 then ''u2028'' else ''u2029'') @ t) =
      map_option (\<lambda>(y, q). (take 3 s @ y, q)) (unesc t)"
    using assms(2) h r by (auto simp: s)
qed

lemma unesc_esc: "utf8_valid s \<Longrightarrow> unesc (esc s @ CHR 0x22 # t) = Some (s, t)"
proof (induction s rule: utf8_valid.induct)
  case 1
  then show ?case by simp
next
  case (2 c cs)
  let ?k = "utf8_len (c # cs)"
  show ?case
  proof (cases "(of_char c :: nat) < 128")
    case True
    with 2 show ?thesis by (simp add: unesc_esc_ascii del: unesc.simps)
  next
    case False
    with 2 have k: "?k \<noteq> 0" and IH: "unesc (esc (drop (?k - 1) cs) @ CHR 0x22 # t) = Some (drop (?k - 1) cs, t)"
      by auto
    then obtain m where m: "?k = Suc m" by (cases ?k) auto
    have split: "take ?k (c # cs) @ drop (?k - 1) cs = c # cs" using m by simp
    show ?thesis
    proof (cases "\<exists>x. take 3 (c # cs) = [CHR 0xE2, CHR 0x80, x] \<and> (x = CHR 0xA8 \<or> x = CHR 0xA9)")
      case True
      then obtain x where x: "take 3 (c # cs) = [CHR 0xE2, CHR 0x80, x]" "x = CHR 0xA8 \<or> x = CHR 0xA9" by blast
      note ls = unesc_line_sep [OF x]
      have "esc (c # cs) = CHR 0x5C # (if x = CHR 0xA8 then ''u2028'' else ''u2029'') @ esc (drop (?k - 1) cs)"
        using False k x by auto
      then have "unesc (esc (c # cs) @ CHR 0x22 # t) =
          map_option (\<lambda>(y, q). (take 3 (c # cs) @ y, q)) (unesc (esc (drop (?k - 1) cs) @ CHR 0x22 # t))"
        using ls(2) by (simp del: unesc.simps esc.simps)
      also have "\<dots> = Some (take ?k (c # cs) @ drop (?k - 1) cs, t)"
        unfolding IH by (simp add: ls(1))
      finally show ?thesis unfolding split .
    next
      case False
      then have "esc (c # cs) = take ?k (c # cs) @ esc (drop (?k - 1) cs)"
        using \<open>\<not> (of_char c :: nat) < 128\<close> k by (auto simp: Let_def)
      then have "unesc (esc (c # cs) @ CHR 0x22 # t) =
          map_option (\<lambda>(y, q). (take ?k (c # cs) @ y, q)) (unesc (esc (drop (?k - 1) cs) @ CHR 0x22 # t))"
        using unesc_utf8 [OF _ k] \<open>\<not> (of_char c :: nat) < 128\<close>
        by (simp only: append_assoc not_less)
      then show ?thesis unfolding IH using split by simp
    qed
  qed
qed

subsection \<open>Printed documents parse back\<close>

text \<open>Documents whose strings are UTF-8 and whose number tokens are JSON numbers.\<close>

fun json_ok :: "json \<Rightarrow> bool" where
  "json_ok JNull = True"
| "json_ok (JBool _) = True"
| "json_ok (JNum t) = (num_ok t \<and> list_all num_char t)"
| "json_ok (JStr s) = utf8_valid s"
| "json_ok (JArr js) = list_all json_ok js"
| "json_ok (JObj ms) = list_all (\<lambda>(k, j). utf8_valid k \<and> json_ok j) ms"

definition ends_num :: "string \<Rightarrow> bool" where
  "ends_num r \<longleftrightarrow> r = [] \<or> \<not> num_char (hd r)"

lemma ends_num_Cons [simp]: "ends_num (CHR '','' # r)" "ends_num (CHR '']'' # r)" "ends_num (CHR ''}'' # r)"
  by (simp_all add: ends_num_def num_char_def is_digit_def)

lemma ends_num_Nil [simp]: "ends_num []"
  by (simp add: ends_num_def)

lemma skip_ws_Cons [simp]:
  "c \<noteq> CHR '' '' \<Longrightarrow> c \<noteq> CHR 0x09 \<Longrightarrow> c \<noteq> CHR 0x0A \<Longrightarrow> c \<noteq> CHR 0x0D \<Longrightarrow> skip_ws (c # cs) = c # cs"
  by (simp add: skip_ws_def)

lemma skip_ws_Nil [simp]: "skip_ws [] = []"
  by (simp add: skip_ws_def)

lemma num_token_head:
  assumes "num_ok t"
  obtains c cs where "t = c # cs" and "is_digit c \<or> c = CHR ''-''"
proof (cases t)
  case Nil
  with assms show ?thesis by (simp add: num_ok_def)
next
  case (Cons c cs)
  with assms have "is_digit c \<or> c = CHR ''-''"
    by (auto simp: num_ok_def Let_def split: if_splits)
  with Cons that show ?thesis by blast
qed

lemma parse_val_num:
  assumes "num_ok t" and "list_all num_char t" and "ends_num r"
  shows "parse_val (t @ r) = Some (JNum t, r)"
proof -
  obtain c cs where t: "t = c # cs" and c: "is_digit c \<or> c = CHR ''-''"
    using num_token_head [OF assms(1)] .
  have ws: "skip_ws (t @ r) = c # cs @ r"
    using c unfolding t by (auto simp: is_digit_def intro!: skip_ws_Cons)
  have ne: "c \<noteq> CHR ''n''" "c \<noteq> CHR ''t''" "c \<noteq> CHR ''f''" "c \<noteq> CHR 0x22" "c \<noteq> CHR ''[''" "c \<noteq> CHR ''{''"
    using c by (auto simp: is_digit_def)
  have "takeWhile num_char (t @ r) = t \<and> dropWhile num_char (t @ r) = r"
    using takeWhile_all_append [OF assms(2), of r] assms(3) by (auto simp: ends_num_def)
  then have "takeWhile num_char (c # cs @ r) = t \<and> dropWhile num_char (c # cs @ r) = r"
    unfolding t by (simp only: append_Cons)
  then show ?thesis
    using assms(1) by (subst parse_val.simps) (simp add: ws ne Let_def)
qed

lemma parse_val_str: "utf8_valid s \<Longrightarrow> parse_val (quote_json s @ r) = Some (JStr s, r)"
  by (subst parse_val.simps) (simp add: quote_json_def unesc_esc)

lemma print_json_head:
  assumes "json_ok j"
  shows "\<exists>c cs. print_json j = c # cs \<and> c \<noteq> CHR '' '' \<and> c \<noteq> CHR 0x09 \<and> c \<noteq> CHR 0x0A \<and> c \<noteq> CHR 0x0D \<and>
     c \<noteq> CHR '']'' \<and> c \<noteq> CHR ''}''"
proof (cases j)
  case (JNum t)
  with assms obtain c cs where "t = c # cs" "is_digit c \<or> c = CHR ''-''"
    using num_token_head by (metis json_ok.simps(3))
  with JNum show ?thesis by (auto simp: is_digit_def)
qed (auto simp: show_bool_def quote_json_def)

lemma parse_elems_print:
  assumes "\<And>j r. j \<in> set js \<Longrightarrow> ends_num r \<Longrightarrow> parse_val (print_json j @ r) = Some (j, r)"
    and "js \<noteq> []" and "list_all json_ok js"
  shows "parse_elems (str_join '','' (map print_json js) @ CHR '']'' # r) = Some (js, r)"
  using assms
proof (induction js)
  case Nil
  then show ?case by simp
next
  case (Cons j js)
  obtain c cs where hd: "print_json j = c # cs" using print_json_head [of j] Cons.prems by auto
  show ?case
  proof (cases "js = []")
    case True
    with Cons.prems(1) [of j "CHR '']'' # r"] hd show ?thesis
      by (subst parse_elems.simps) simp
  next
    case False
    let ?rest = "str_join '','' (map print_json js) @ CHR '']'' # r"
    have "parse_elems ?rest = Some (js, r)" using Cons False by simp
    moreover have "parse_val (print_json j @ CHR '','' # ?rest) = Some (j, CHR '','' # ?rest)"
      using Cons.prems(1) by simp
    moreover have "str_join '','' (map print_json (j # js)) @ CHR '']'' # r = print_json j @ CHR '','' # ?rest"
      using False by (simp add: str_join_Cons)
    ultimately show ?thesis using hd by (subst parse_elems.simps) simp
  qed
qed

definition print_member :: "string \<times> json \<Rightarrow> string" where
  "print_member = (\<lambda>(k, j). quote_json k @ '':'' @ print_json j)"

lemma parse_members_step:
  assumes "utf8_valid k" and "json_ok j" and "parse_val (print_json j @ d # ds) = Some (j, d # ds)"
    and "d = CHR '','' \<or> d = CHR ''}''"
  shows "parse_members (print_member (k, j) @ d # ds) =
    (if d = CHR '','' then (case parse_members ds of None \<Rightarrow> None | Some (ms, r) \<Rightarrow> Some ((k, j) # ms, r))
     else Some ([(k, j)], ds))"
  using assms
  by (subst parse_members.simps) (auto simp: print_member_def quote_json_def unesc_esc)

lemma parse_members_print:
  assumes "\<And>k j r. (k, j) \<in> set ms \<Longrightarrow> ends_num r \<Longrightarrow> parse_val (print_json j @ r) = Some (j, r)"
    and "ms \<noteq> []" and "list_all (\<lambda>(k, j). utf8_valid k \<and> json_ok j) ms"
  shows "parse_members (str_join '','' (map print_member ms) @ CHR ''}'' # r) = Some (ms, r)"
  using assms
proof (induction ms)
  case Nil
  then show ?case by simp
next
  case (Cons m ms)
  obtain k j where m: "m = (k, j)" by (cases m)
  have kj: "utf8_valid k" "json_ok j" using Cons.prems m by auto
  show ?case
  proof (cases "ms = []")
    case True
    with parse_members_step [OF kj, of "CHR ''}''" r] Cons.prems(1) [of k j "CHR ''}'' # r"] m
    show ?thesis by simp
  next
    case False
    let ?rest = "str_join '','' (map print_member ms) @ CHR ''}'' # r"
    have "parse_members ?rest = Some (ms, r)" using Cons False by auto
    moreover have "parse_val (print_json j @ CHR '','' # ?rest) = Some (j, CHR '','' # ?rest)"
      using Cons.prems(1) [of k j] m by simp
    moreover have "str_join '','' (map print_member (m # ms)) @ CHR ''}'' # r = print_member m @ CHR '','' # ?rest"
      using False by (simp add: str_join_Cons)
    ultimately show ?thesis using parse_members_step [OF kj, of "CHR '',''" ?rest] m by simp
  qed
qed

lemma str_join_head: "x = c # cs \<Longrightarrow> \<exists>ds. str_join sep (x # xs) = c # ds"
  by (cases xs) auto

lemma parse_val_print: "json_ok j \<Longrightarrow> ends_num r \<Longrightarrow> parse_val (print_json j @ r) = Some (j, r)"
proof (induction j arbitrary: r)
  case JNull
  then show ?case by (subst parse_val.simps) (simp add: expect_def)
next
  case (JBool b)
  then show ?case by (subst parse_val.simps) (simp add: expect_def show_bool_def)
next
  case (JNum t)
  then show ?case by (simp add: parse_val_num)
next
  case (JStr s)
  then show ?case by (simp add: parse_val_str)
next
  case (JArr js)
  show ?case
  proof (cases js)
    case Nil
    then show ?thesis by (subst parse_val.simps) simp
  next
    case (Cons j js')
    let ?body = "str_join '','' (map print_json js) @ CHR '']'' # r"
    have "parse_elems ?body = Some (js, r)"
      using JArr Cons by (intro parse_elems_print) (auto simp: list_all_iff)
    moreover obtain c ds where "?body = c # ds" "skip_ws ?body = ?body" "c \<noteq> CHR '']''"
    proof -
      obtain c cs where c: "print_json j = c # cs" "c \<noteq> CHR '' ''" "c \<noteq> CHR 0x09" "c \<noteq> CHR 0x0A"
          "c \<noteq> CHR 0x0D" "c \<noteq> CHR '']''"
        using print_json_head [of j] JArr.prems(1) Cons by auto
      then obtain ds where "?body = c # ds @ CHR '']'' # r"
        using str_join_head [of "print_json j"] Cons by fastforce
      with c that show ?thesis by simp
    qed
    ultimately show ?thesis by (subst parse_val.simps) simp
  qed
next
  case (JObj ms)
  show ?case
  proof (cases ms)
    case Nil
    then show ?thesis by (subst parse_val.simps) simp
  next
    case (Cons m ms')
    let ?body = "str_join '','' (map print_member ms) @ CHR ''}'' # r"
    have "parse_members ?body = Some (ms, r)"
    proof (rule parse_members_print)
      fix k j q assume "(k, j) \<in> set ms" "ends_num q"
      with JObj show "parse_val (print_json j @ q) = Some (j, q)" by (fastforce simp: list_all_iff)
    qed (use JObj.prems Cons in simp_all)
    moreover obtain ds where "?body = CHR 0x22 # ds"
    proof -
      obtain x where "print_member m = CHR 0x22 # x" by (cases m) (simp add: print_member_def quote_json_def)
      then obtain y where "str_join '','' (map print_member ms) = CHR 0x22 # y"
        using str_join_head Cons by fastforce
      with that show ?thesis by simp
    qed
    moreover have "print_json (JObj ms) @ r = CHR ''{'' # ?body"
      by (simp add: print_member_def)
    ultimately show ?thesis by (subst parse_val.simps) (simp del: print_json.simps)
  qed
qed

lemma parse_json_print: "json_ok j \<Longrightarrow> parse_json (print_json j) = Some j"
  using parse_val_print [of j "[]"] by (simp add: parse_json_def)

subsection \<open>What a value becomes on its way through JSON\<close>

lemma utf8_valid_ascii: "list_all (\<lambda>c. (of_char c :: nat) < 128) s \<Longrightarrow> utf8_valid s"
  by (induction s) auto

lemma utf8_valid_append: "utf8_valid s \<Longrightarrow> utf8_valid t \<Longrightarrow> utf8_valid (s @ t)"
proof (induction s rule: utf8_valid.induct)
  case (2 c cs)
  show ?case
  proof (cases "(of_char c :: nat) < 128")
    case True
    then show ?thesis using 2 by simp
  next
    case False
    let ?n = "utf8_len (c # cs)"
    have n: "?n \<noteq> 0" using False 2 by auto
    have "utf8_len (take ?n (c # cs) @ drop ?n (c # cs) @ t) = ?n" using utf8_len_prefix [OF n] .
    then have l: "utf8_len (c # cs @ t) = ?n" by (simp flip: append_assoc)
    have "drop (?n - 1) (cs @ t) = drop (?n - 1) cs @ t" using utf8_len_length [of "c # cs"] by simp
    then show ?thesis using 2 False l n by simp
  qed
qed simp

lemma ascii_digits: "list_all is_digit s \<Longrightarrow> list_all (\<lambda>c. (of_char c :: nat) < 128) s"
  by (auto simp: list_all_iff is_digit_def)

lemma ascii_show_nat: "list_all (\<lambda>c. (of_char c :: nat) < 128) (show_nat n)"
  by (rule ascii_digits) simp

lemma ascii_pad0: "list_all (\<lambda>c. (of_char c :: nat) < 128) (pad0 k n)"
  using ascii_show_nat [of n] by (auto simp: pad0_def Let_def list_all_iff)

lemma ascii_trim_zeros: "list_all P s \<Longrightarrow> list_all P (trim_zeros s)"
  by (auto simp: trim_zeros_def list_all_iff dest: set_dropWhileD)

lemma utf8_RFC3339Nano: "utf8_valid (RFC3339Nano t)"
proof (rule utf8_valid_ascii)
  have "list_all (\<lambda>c. (of_char c :: nat) < 128) (fmt_frac t)"
    using ascii_trim_zeros [OF ascii_pad0 [of 9 "t_nsec t"]] by (simp add: fmt_frac_def)
  then show "list_all (\<lambda>c. (of_char c :: nat) < 128) (RFC3339Nano t)"
    by (simp add: RFC3339Nano_def fmt_date_def fmt_year_def fmt_clock_def fmt_zone_def fmt_offset_def
        Let_def ascii_pad0)
qed

lemma b64_char_ascii: "n < 64 \<Longrightarrow> (of_char (b64_char n) :: nat) < 128"
  by (auto simp: b64_char_def)

lemma b64_table: "list_all (\<lambda>n. b64_val (b64_char n) = Some n \<and> b64_char n \<noteq> CHR ''='') [0..<64]"
  by code_simp

lemma b64_val_char: "n < 64 \<Longrightarrow> b64_val (b64_char n) = Some n"
  using b64_table by (simp add: list_all_iff)

lemma b64_char_pad: "n < 64 \<Longrightarrow> b64_char n \<noteq> CHR ''=''"
  using b64_table by (simp add: list_all_iff)

lemma b64_parts:
  assumes "(x :: nat) < 256"
  shows "x div 4 < 64" "x mod 4 < 4" "x div 16 < 16" "x mod 16 < 16" "x div 64 < 4" "x mod 64 < 64"
  using assms by (auto simp: div_less_iff_less_mult)

lemma b64_bounds:
  assumes "(x :: nat) < 256" and "y < 256" and "z < 256"
  shows "x div 4 < 64" "(x mod 4) * 16 < 64" "(x mod 4) * 16 + y div 16 < 64" "(y mod 16) * 4 < 64"
    "(y mod 16) * 4 + z div 64 < 64" "z mod 64 < 64"
  using b64_parts [OF assms(1)] b64_parts [OF assms(2)] b64_parts [OF assms(3)] by linarith+

lemma b64_join:
  assumes "(x :: nat) < 256" and "y < 256" and "z < 256"
  shows "(x div 4) * 4 + ((x mod 4) * 16) div 16 = x" "(x div 4) * 4 + ((x mod 4) * 16 + y div 16) div 16 = x"
    "(((x mod 4) * 16 + y div 16) mod 16) * 16 + ((y mod 16) * 4) div 4 = y"
    "(((x mod 4) * 16 + y div 16) mod 16) * 16 + ((y mod 16) * 4 + z div 64) div 4 = y"
    "(((y mod 16) * 4 + z div 64) mod 4) * 64 + z mod 64 = z"
  using b64_parts [OF assms(2)] b64_parts [OF assms(3)] by simp_all

lemma of_char_256: "(of_char (c :: char) :: nat) < 256"
  by (metis of_char_mod_256 mod_less_divisor zero_less_numeral)

lemma unbase64_base64: "unbase64 (base64 s) = Some s"
proof (induction s rule: base64.induct)
  case (2 a)
  show ?case
    using b64_bounds [OF of_char_256 [of a] of_char_256 [of a] of_char_256 [of a]]
      b64_join(1) [OF of_char_256 [of a] of_char_256 [of a] of_char_256 [of a]]
    by (simp add: b64_val_char b64_char_pad Let_def)
next
  case (3 a b)
  show ?case
    using b64_bounds [OF of_char_256 [of a] of_char_256 [of b] of_char_256 [of b]]
      b64_join(2,3) [OF of_char_256 [of a] of_char_256 [of b] of_char_256 [of b]]
    by (simp add: b64_val_char b64_char_pad Let_def)
next
  case (4 a b c cs)
  then show ?case
    using b64_bounds [OF of_char_256 [of a] of_char_256 [of b] of_char_256 [of c]]
      b64_join(2,4,5) [OF of_char_256 [of a] of_char_256 [of b] of_char_256 [of c]]
    by (simp add: b64_val_char b64_char_pad Let_def)
qed simp

lemma utf8_base64: "utf8_valid (base64 s)"
proof (rule utf8_valid_ascii)
  have byte: "(of_char c :: nat) < 256" for c
    by (metis mod_less_divisor of_char_mod_256 zero_less_numeral)
  have d: "x < 256 \<Longrightarrow> x div 4 < 64" "x < 256 \<Longrightarrow> x div 16 < 16" "x < 256 \<Longrightarrow> x div 64 < 4" for x :: nat
    by (simp_all add: less_mult_imp_div_less)
  have m4: "y < 16 \<Longrightarrow> x mod 4 * 16 + y < 64" for x y :: nat
    using mod_less_divisor [of 4 x] by linarith
  have m16: "y < 4 \<Longrightarrow> x mod 16 * 4 + y < 64" for x y :: nat
    using mod_less_divisor [of 16 x] by linarith
  show "list_all (\<lambda>c. (of_char c :: nat) < 128) (base64 s)"
  proof (induction s rule: base64.induct)
    case (2 a)
    then show ?case using d(1) [OF byte [of a]] by (simp add: Let_def b64_char_ascii)
  next
    case (3 a b)
    have "(of_char b :: nat) div 16 < 16" by (rule d(2) [OF byte])
    then have "(of_char a mod 4) * 16 + (of_char b :: nat) div 16 < 64" by (rule m4)
    moreover have "(of_char b :: nat) mod 16 * 4 < 64" by (simp add: mult_less_mono1)
    ultimately show ?case using d(1) [OF byte [of a]] by (simp add: Let_def b64_char_ascii)
  next
    case (4 a b c cs)
    have "(of_char a mod 4) * 16 + (of_char b :: nat) div 16 < 64" by (rule m4 [OF d(2) [OF byte]])
    moreover have "(of_char b mod 16) * 4 + (of_char c :: nat) div 64 < 64" by (rule m16 [OF d(3) [OF byte]])
    ultimately show ?case using 4 d(1) [OF byte [of a]] by (simp add: Let_def b64_char_ascii)
  qed simp
qed

lemma digit_char_0: "digit_char 0 = CHR ''0''"
  by code_simp

lemma show_nat_head_zero: "hd (show_nat n) = CHR ''0'' \<longleftrightarrow> n = 0"
proof (induction n rule: show_nat.induct)
  case (1 n)
  show ?case
  proof (cases "n < 10")
    case True
    have "digit_val (digit_char n) = n" using True by (rule digit_char_facts)
    moreover have "digit_val (CHR ''0'') = 0" by (simp add: digit_val_def)
    ultimately have "digit_char n = CHR ''0'' \<longleftrightarrow> n = 0" using digit_char_0 by metis
    with True show ?thesis by (simp add: show_nat.simps [of n])
  next
    case False
    with 1 show ?thesis by (simp add: show_nat.simps [of n])
  qed
qed

lemma num_ok_show_int: "num_ok (show_int i)" "list_all num_char (show_int i)"
proof -
  have tw: "takeWhile is_digit (show_nat n) = show_nat n" "dropWhile is_digit (show_nat n) = []" for n
    using takeWhile_all_append [of is_digit "show_nat n" "[]"] by simp_all
  have z: "hd (show_nat n) = CHR ''0'' \<Longrightarrow> show_nat n = ''0''" for n
    by (simp add: show_nat_head_zero show_nat.simps [of 0] digit_char_0)
  have "(case show_nat n of [] \<Rightarrow> [] | c # cs \<Rightarrow> if c = CHR ''-'' then cs else show_nat n) = show_nat n" for n
    using show_nat_Cons [of n] is_digit_not_sign by force
  then show "num_ok (show_int i)"
    by (simp add: num_ok_def show_int_def num_frac_ok_def Let_def tw)
      (auto dest!: z)
  show "list_all num_char (show_int i)"
    using show_nat_digits [of "nat i"] show_nat_digits [of "nat (- i)"]
    by (auto simp: show_int_def num_char_def list_all_iff)
qed

text \<open>
  \<open>json_image\<close> is the value that comes back after \<^verbatim>\<open>json.Marshal\<close> and \<^verbatim>\<open>json.Unmarshal\<close>: integers are
  float64, byte slices and times are strings, maps have their keys in order.
\<close>

fun json_image :: "goval \<Rightarrow> goval" where
  "json_image (VBytes s) = VString (base64 s)"
| "json_image (VTime t) = VString (RFC3339Nano t)"
| "json_image (VMap m) = VMap (sort_key fst (map (\<lambda>(k, v). (k, json_image v)) m))"
| "json_image (VSlice vs) = VSlice (map json_image vs)"
| "json_image (VNullString s b) = VMap [(''String'', VString s), (''Valid'', VBool b)]"
| "json_image (VNullInt64 w b) = VMap [(''Int64'', VFloat64 (FFin (of_int (sint w)))), (''Valid'', VBool b)]"
| "json_image v = (case int_of_goval v of Some i \<Rightarrow> VFloat64 (FFin (of_int i)) | None \<Rightarrow> v)"

text \<open>
  The values the round trip is stated for: strings are UTF-8, integers are at most \<open>2\<^sup>5\<^sup>3\<close> in size
  (a float64 holds no more), times print, maps have distinct keys; no floats, no opaque values.
\<close>

fun json_plain :: "goval \<Rightarrow> bool" where
  "json_plain VNil = True"
| "json_plain (VBool _) = True"
| "json_plain (VString s) = utf8_valid s"
| "json_plain (VBytes _) = True"
| "json_plain (VTime t) = time_ok t"
| "json_plain (VMap m) = (distinct (map fst m) \<and> list_all (\<lambda>(k, v). utf8_valid k \<and> json_plain v) m)"
| "json_plain (VSlice vs) = list_all json_plain vs"
| "json_plain (VNullString s _) = utf8_valid s"
| "json_plain (VNullInt64 w _) = (\<bar>sint w\<bar> \<le> 2 ^ 53)"
| "json_plain v = (case int_of_goval v of Some i \<Rightarrow> \<bar>i\<bar> \<le> 2 ^ 53 | None \<Rightarrow> False)"

lemma insort_key_map_snd:
  "insort_key fst (k, f v) (map (\<lambda>(k, v). (k, f v)) xs) = map (\<lambda>(k, v). (k, f v)) (insort_key fst (k, v) xs)"
  by (induction xs) auto

lemma sort_key_map_snd:
  "sort_key fst (map (\<lambda>(k, v). (k, f v)) xs) = map (\<lambda>(k, v). (k, f v)) (sort_key fst xs)"
  by (induction xs) (auto simp: insort_key_map_snd)

lemma gomap_of_distinct: "distinct (map fst ps) \<Longrightarrow> gomap_of ps = ps"
proof -
  have "distinct (map fst (m @ ps)) \<Longrightarrow> fold (\<lambda>(k, v) m. gomap_set m k v) ps m = m @ ps" for m :: "'a gomap"
  proof (induction ps arbitrary: m)
    case Nil
    then show ?case by simp
  next
    case (Cons p ps)
    obtain k v where p: "p = (k, v)" by (cases p)
    have "AList.update k v m = m @ [(k, v)]"
      using Cons.prems p by (induction m) auto
    with Cons p show ?case by (simp add: gomap_set_def)
  qed
  from this [of "[]"] show "distinct (map fst ps) \<Longrightarrow> gomap_of ps = ps" by (simp add: gomap_of_def)
qed

lemma collect_members_map:
  assumes "\<forall>(k, v) \<in> set m. f v = Inr (g v)"
  shows "collect_members (map (\<lambda>(k, v). (k, f v)) m) = Inr (map (\<lambda>(k, v). (k, g v)) m)"
  using assms by (induction m) auto

lemma collect_list_map:
  assumes "\<forall>v \<in> set vs. f v = Inr (g v)"
  shows "collect_list (map f vs) = Inr (map g vs)"
  using assms by (induction vs) auto

lemma json_number_show_int: "\<bar>i\<bar> \<le> 2 ^ 53 \<Longrightarrow> json_number (show_int i) = Inr (VFloat64 (FFin (of_int i)))"
  by (simp add: json_number_def ParseFloat_show_int)

definition json_good :: "goval \<Rightarrow> bool" where
  "json_good v \<longleftrightarrow> (\<exists>j. to_json v = Inr j \<and> json_ok j \<and> from_json j = Inr (json_image v))"

lemma json_goodI: "to_json v = Inr j \<Longrightarrow> json_ok j \<Longrightarrow> from_json j = Inr (json_image v) \<Longrightarrow> json_good v"
  by (auto simp: json_good_def)

lemma json_plain_good: "json_plain v \<Longrightarrow> json_good v"
proof (induction v)
  case (VMap m)
  define h where "h v = (SOME j. to_json v = Inr j \<and> json_ok j \<and> from_json j = Inr (json_image v))" for v
  have h: "to_json v = Inr (h v) \<and> json_ok (h v) \<and> from_json (h v) = Inr (json_image v)"
    if "(k, v) \<in> set m" for k v
  proof -
    have "json_plain v" using VMap.prems that by (auto simp: list_all_iff)
    then have "json_good v" using VMap.IH [of "(k, v)" v] that by simp
    then show ?thesis unfolding json_good_def h_def by (rule someI_ex)
  qed
  let ?s = "sort_key fst m"
  have "to_json (VMap m) = Inr (JObj (map (\<lambda>(k, v). (k, h v)) ?s))"
  proof -
    have "\<forall>(k, v) \<in> set ?s. to_json v = Inr (h v)" using h by auto
    then show ?thesis by (simp add: sort_key_map_snd collect_members_map)
  qed
  moreover have "json_ok (JObj (map (\<lambda>(k, v). (k, h v)) ?s))"
    using VMap.prems h by (fastforce simp: list_all_iff)
  moreover have "from_json (JObj (map (\<lambda>(k, v). (k, h v)) ?s)) = Inr (json_image (VMap m))"
  proof -
    have "collect_members (map (\<lambda>(k, v). (k, from_json (h v))) ?s) = Inr (map (\<lambda>(k, v). (k, json_image v)) ?s)"
    proof -
      have "\<forall>(k, v) \<in> set ?s. from_json (h v) = Inr (json_image v)" using h by auto
      then show ?thesis using collect_members_map [of ?s "\<lambda>v. from_json (h v)" json_image] by simp
    qed
    moreover have "distinct (map fst (map (\<lambda>(k, v). (k, json_image v)) ?s))"
    proof -
      have "map fst (map (\<lambda>(k, v). (k, json_image v)) ?s) = map fst ?s" by auto
      moreover have "distinct (map fst ?s)" using VMap.prems by (simp add: distinct_map)
      ultimately show ?thesis by (simp only:)
    qed
    moreover have e: "map (\<lambda>(k, j). (k, from_json j)) (map (\<lambda>(k, v). (k, h v)) ?s) = map (\<lambda>(k, v). (k, from_json (h v))) ?s"
      by auto
    ultimately show ?thesis
      by (simp only: from_json.simps e sort_key_map_snd gomap_of_distinct json_image.simps sum.case)
  qed
  ultimately show ?case by (rule json_goodI)
next
  case (VSlice vs)
  define h where "h v = (SOME j. to_json v = Inr j \<and> json_ok j \<and> from_json j = Inr (json_image v))" for v
  have h: "to_json v = Inr (h v) \<and> json_ok (h v) \<and> from_json (h v) = Inr (json_image v)"
    if "v \<in> set vs" for v
  proof -
    have "json_good v" using VSlice that by (auto simp: list_all_iff)
    then show ?thesis unfolding json_good_def h_def by (rule someI_ex)
  qed
  have "to_json (VSlice vs) = Inr (JArr (map h vs))"
    using collect_list_map [of vs to_json h] h by simp
  moreover have "json_ok (JArr (map h vs))" using h by (simp add: list_all_iff)
  moreover have "from_json (JArr (map h vs)) = Inr (json_image (VSlice vs))"
    using collect_list_map [of vs "from_json \<circ> h" json_image] h by simp
  ultimately show ?case by (rule json_goodI)
next
  case (VTime t)
  have "json_time t = Inr (JStr (RFC3339Nano t))"
    using VTime by (simp add: json_time_def time_ok_def)
  then show ?case by (intro json_goodI) (auto simp: utf8_RFC3339Nano)
next
  case (VNullString s b)
  then show ?case
    by (intro json_goodI) (auto simp: gomap_of_distinct utf8_valid_ascii)
next
  case (VNullInt64 w b)
  then show ?case
    by (intro json_goodI) (auto simp: gomap_of_distinct utf8_valid_ascii num_ok_show_int json_number_show_int)
qed (auto intro!: json_goodI simp: utf8_base64 num_ok_show_int json_number_show_int)

lemma json_Marshal_Unmarshal:
  assumes "json_plain v"
  shows "\<exists>s. json_Marshal v = Inr s \<and> json_Unmarshal s = Inr (json_image v)"
  using json_plain_good [OF assms] parse_json_print
  by (fastforce simp: json_good_def json_Marshal_def json_Unmarshal_def)

lemma json_Marshal_Unmarshal_map:
  assumes "json_plain (VMap m)"
  shows "\<exists>s. json_Marshal (VMap m) = Inr s \<and>
    json_Unmarshal_map s = Inr (Some (sort_key fst (map (\<lambda>(k, v). (k, json_image v)) m)))"
  using json_plain_good [OF assms] parse_json_print
  by (fastforce simp: json_good_def json_Marshal_def json_Unmarshal_map_def)

end
