(* ===== verification/Core_Types.thy ===== *)
theory Core_Types
  imports Go_Json
begin

text \<open>
  The data types and interfaces of \<^verbatim>\<open>internal/core\<close>. A struct is a record; a Go interface is a record
  of functions, its method table, over the state \<open>'w\<close> of whatever lies behind it (the program's own
  objects, the services they talk to). A method takes the state and returns its results with the
  state it leaves. A context argument is not represented: a call that the context cancels is a call
  that returns an error, which every method may do in any state. An \<^verbatim>\<open>error\<close> that is nil is \<open>None\<close>.
  A \<^verbatim>\<open>time.Duration\<close> is an \<^typ>\<open>int\<close>, in nanoseconds.

  The theory also holds the JSON codec that \<^verbatim>\<open>encoding/json\<close> derives for \<^verbatim>\<open>WriteOperation\<close>, which
  the Redis and Kafka queues use, and the contracts the clients of the interfaces rely on, as
  locales: a key-value store and a write-back queue.
\<close>

section \<open>Schemas (schema.go)\<close>

record column =
  col_Name :: string
  col_Type :: string
  col_Nullable :: bool
  col_Default :: goval

record index =
  idx_Name :: string
  idx_Columns :: "string list"
  idx_Unique :: bool
  idx_Primary :: bool

record schema =
  sch_TableName :: string
  sch_PrimaryKey :: string
  sch_Columns :: "column list"
  sch_Indexes :: "index list"

text \<open>The search \<^verbatim>\<open>for _, col := range schema.Columns { if col.Name == name ... break }\<close>.\<close>

definition find_column :: "schema \<Rightarrow> string \<Rightarrow> column option" where
  "find_column sch name = find (\<lambda>c. col_Name c = name) (sch_Columns sch)"

section \<open>Write operations (writeback.go)\<close>

definition OperationCreate :: string where
  "OperationCreate = ''CREATE''"

definition OperationUpdate :: string where
  "OperationUpdate = ''UPDATE''"

definition OperationDelete :: string where
  "OperationDelete = ''DELETE''"

record write_op =
  op_Table :: string
  op_Operation :: string
  op_Key :: goval
  op_Data :: "grecord option"
  op_Timestamp :: gotime
  op_RetryCount :: int

section \<open>Interfaces\<close>

record 'w kvstore =
  kv_Get :: "string \<Rightarrow> 'w \<Rightarrow> string res \<times> 'w"
  kv_Set :: "string \<Rightarrow> string \<Rightarrow> int \<Rightarrow> 'w \<Rightarrow> gerror option \<times> 'w"
  kv_Delete :: "string \<Rightarrow> 'w \<Rightarrow> gerror option \<times> 'w"
  kv_Exists :: "string \<Rightarrow> 'w \<Rightarrow> bool res \<times> 'w"
  kv_BatchSet :: "string gomap \<Rightarrow> int \<Rightarrow> 'w \<Rightarrow> gerror option \<times> 'w"
  kv_Close :: "'w \<Rightarrow> gerror option \<times> 'w"

text \<open>\<^verbatim>\<open>Dequeue\<close> returns operations and an error, and may return both.\<close>

record 'w wbqueue =
  q_Enqueue :: "write_op option \<Rightarrow> 'w \<Rightarrow> gerror option \<times> 'w"
  q_Dequeue :: "int \<Rightarrow> 'w \<Rightarrow> (write_op list \<times> gerror option) \<times> 'w"
  q_Size :: "'w \<Rightarrow> int \<times> 'w"
  q_Close :: "'w \<Rightarrow> gerror option \<times> 'w"

text \<open>
  What a query returns: the rows that \<^verbatim>\<open>Next\<close> and \<^verbatim>\<open>Scan\<close> deliver one after the other (a row whose
  \<^verbatim>\<open>Scan\<close> fails is an error), and the error \<^verbatim>\<open>Err\<close> reports once \<^verbatim>\<open>Next\<close> has returned false.
\<close>

record rows =
  rows_data :: "goval list res list"
  rows_Err :: "gerror option"

text \<open>\<^verbatim>\<open>RowsAffected\<close> and \<^verbatim>\<open>LastInsertId\<close> of a \<^verbatim>\<open>Result\<close> are values or errors of their own.\<close>

record exec_result =
  res_LastInsertId :: "int res"
  res_RowsAffected :: "int res"

record 'w database =
  db_Query :: "string \<Rightarrow> goval list \<Rightarrow> 'w \<Rightarrow> rows res \<times> 'w"
  db_Exec :: "string \<Rightarrow> goval list \<Rightarrow> 'w \<Rightarrow> exec_result res \<times> 'w"
  db_GetSchema :: "string \<Rightarrow> 'w \<Rightarrow> schema option res \<times> 'w"
  db_GetTables :: "'w \<Rightarrow> string list res \<times> 'w"
  db_Close :: "'w \<Rightarrow> gerror option \<times> 'w"

section \<open>The JSON codec of WriteOperation\<close>

text \<open>
  A struct without tags: the members are the fields under their own names, in the order of the
  declaration. The data of an operation is a map, so a nil map prints as null.
\<close>

definition write_op_json :: "write_op \<Rightarrow> json res" where
  "write_op_json op =
     (case to_json (op_Key op) of Inl e \<Rightarrow> Inl e | Inr jk \<Rightarrow>
     (case (case op_Data op of None \<Rightarrow> Inr JNull | Some m \<Rightarrow> to_json (VMap m)) of Inl e \<Rightarrow> Inl e | Inr jd \<Rightarrow>
     (case json_time (op_Timestamp op) of Inl e \<Rightarrow> Inl e | Inr jt \<Rightarrow>
        Inr (JObj [(''Table'', JStr (op_Table op)), (''Operation'', JStr (op_Operation op)), (''Key'', jk),
          (''Data'', jd), (''Timestamp'', jt), (''RetryCount'', JNum (show_int (op_RetryCount op)))]))))"

definition marshal_write_op :: "write_op \<Rightarrow> string res" where
  "marshal_write_op op = (case write_op_json op of Inl e \<Rightarrow> Inl e | Inr j \<Rightarrow> Inr (print_json j))"

definition json_type_error :: "string \<Rightarrow> gerror" where
  "json_type_error field = Errorf ''json: cannot unmarshal into Go struct field WriteOperation'' [field]"

text \<open>
  One member of the object stored into the struct. Field names match without regard to case,
  members with other names are skipped, null leaves a field as it is (and empties an interface or a
  map). The fields of the two string types take strings, \<^verbatim>\<open>RetryCount\<close> an integer of 64 bits.
\<close>

definition write_op_member :: "string \<times> json \<Rightarrow> write_op \<Rightarrow> write_op res" where
  "write_op_member m op =
     (let f = ToLower (fst m); j = snd m in
      if f = ''table'' then
        (case j of JStr s \<Rightarrow> Inr (op\<lparr>op_Table := s\<rparr>) | JNull \<Rightarrow> Inr op | _ \<Rightarrow> Inl (json_type_error ''Table''))
      else if f = ''operation'' then
        (case j of JStr s \<Rightarrow> Inr (op\<lparr>op_Operation := s\<rparr>) | JNull \<Rightarrow> Inr op | _ \<Rightarrow> Inl (json_type_error ''Operation''))
      else if f = ''key'' then
        (case from_json j of Inl e \<Rightarrow> Inl e | Inr v \<Rightarrow> Inr (op\<lparr>op_Key := v\<rparr>))
      else if f = ''data'' then
        (case from_json j of Inl e \<Rightarrow> Inl e
         | Inr (VMap d) \<Rightarrow> Inr (op\<lparr>op_Data := Some (case op_Data op of None \<Rightarrow> d | Some d0 \<Rightarrow> gomap_of (d0 @ d))\<rparr>)
         | Inr VNil \<Rightarrow> Inr (op\<lparr>op_Data := None\<rparr>)
         | Inr _ \<Rightarrow> Inl (json_type_error ''Data''))
      else if f = ''timestamp'' then
        (case j of JNull \<Rightarrow> Inr op
         | JStr s \<Rightarrow> (case time_Parse Layout_RFC3339 s of
                        None \<Rightarrow> Inl (Errorf ''parsing time'' [s]) | Some t \<Rightarrow> Inr (op\<lparr>op_Timestamp := t\<rparr>))
         | _ \<Rightarrow> Inl (Errorf ''Time.UnmarshalJSON: input is not a JSON string'' []))
      else if f = ''retrycount'' then
        (case j of JNull \<Rightarrow> Inr op
         | JNum t \<Rightarrow> (case ParseInt 64 t of None \<Rightarrow> Inl (json_type_error ''RetryCount'') | Some i \<Rightarrow> Inr (op\<lparr>op_RetryCount := i\<rparr>))
         | _ \<Rightarrow> Inl (json_type_error ''RetryCount''))
      else Inr op)"

fun write_op_members :: "(string \<times> json) list \<Rightarrow> write_op \<Rightarrow> write_op res" where
  "write_op_members [] op = Inr op"
| "write_op_members (m # ms) op =
     (case write_op_member m op of Inl e \<Rightarrow> Inl e | Inr op' \<Rightarrow> write_op_members ms op')"

definition zero_write_op :: write_op where
  "zero_write_op = \<lparr>op_Table = [], op_Operation = [], op_Key = VNil, op_Data = None,
     op_Timestamp = zero_time, op_RetryCount = 0\<rparr>"

text \<open>\<^verbatim>\<open>json.Unmarshal\<close> into a zero \<^verbatim>\<open>WriteOperation\<close>: an object, or null, which changes nothing.\<close>

definition unmarshal_write_op :: "string \<Rightarrow> write_op res" where
  "unmarshal_write_op s =
     (case parse_json s of
        None \<Rightarrow> Inl json_syntax_error
      | Some JNull \<Rightarrow> Inr zero_write_op
      | Some (JObj ms) \<Rightarrow> write_op_members ms zero_write_op
      | Some _ \<Rightarrow> Inl (Errorf ''json: cannot unmarshal into Go value of type core.WriteOperation'' []))"

section \<open>What an operation becomes on its way through the codec\<close>

text \<open>The operations the round trip is stated for, and what comes back: see \<^const>\<open>json_image\<close>.\<close>

definition op_plain :: "write_op \<Rightarrow> bool" where
  "op_plain op \<longleftrightarrow> utf8_valid (op_Table op) \<and> utf8_valid (op_Operation op) \<and> json_plain (op_Key op) \<and>
     (case op_Data op of None \<Rightarrow> True | Some m \<Rightarrow> json_plain (VMap m)) \<and> time_ok (op_Timestamp op) \<and>
     - (2 ^ 63) \<le> op_RetryCount op \<and> op_RetryCount op < 2 ^ 63"

definition map_image :: "grecord \<Rightarrow> grecord" where
  "map_image m = sort_key fst (map (\<lambda>(k, v). (k, json_image v)) m)"

definition op_image :: "write_op \<Rightarrow> write_op" where
  "op_image op = op\<lparr>op_Key := json_image (op_Key op), op_Data := map_option map_image (op_Data op)\<rparr>"

section \<open>Contracts\<close>

text \<open>
  A store behind the \<^verbatim>\<open>KVStore\<close> interface. \<open>content\<close> is what the store holds (keys that have not
  expired), \<open>ok\<close> the states it may be in. A call may fail; a write that fails may or may not have
  been applied, and a failed read says nothing.
\<close>

locale kv_contract =
  fixes kv :: "'w kvstore"
    and content :: "'w \<Rightarrow> string \<Rightarrow> string option"
    and ok :: "'w \<Rightarrow> bool"
  assumes get: "ok w \<Longrightarrow> kv_Get kv k w = (r, w') \<Longrightarrow> ok w' \<and> content w' = content w \<and>
      (\<forall>v. r = Inr v \<longrightarrow> content w k = Some v)"
    and set: "ok w \<Longrightarrow> kv_Set kv k v ttl w = (e, w') \<Longrightarrow> ok w' \<and>
      (content w' = (content w)(k \<mapsto> v) \<or> e \<noteq> None \<and> content w' = content w)"
    and delete: "ok w \<Longrightarrow> kv_Delete kv k w = (e, w') \<Longrightarrow> ok w' \<and>
      (content w' = (content w)(k := None) \<or> e \<noteq> None \<and> content w' = content w)"
begin

lemma get_after_set:
  assumes "ok w" and "kv_Set kv k v ttl w = (None, w1)" and "kv_Get kv k w1 = (Inr x, w2)"
  shows "x = v"
  using set [OF assms(1,2)] get [OF _ assms(3)] by auto

lemma get_after_delete:
  assumes "ok w" and "kv_Delete kv k w = (None, w1)" and "kv_Get kv k w1 = (r, w2)"
  shows "is_err r"
  using delete [OF assms(1,2)] get [OF _ assms(3)] by (cases r) auto

lemma set_frame:
  assumes "ok w" and "kv_Set kv k v ttl w = (e, w1)" and "k' \<noteq> k"
  shows "content w1 k' = content w k'"
  using set [OF assms(1,2)] assms(3) by auto

end

text \<open>Enqueue a list, one after the other, as long as no call fails.\<close>

fun enqueue_all :: "'w wbqueue \<Rightarrow> write_op list \<Rightarrow> 'w \<Rightarrow> 'w option" where
  "enqueue_all q [] w = Some w"
| "enqueue_all q (x # xs) w = (case q_Enqueue q (Some x) w of (None, w') \<Rightarrow> enqueue_all q xs w' | _ \<Rightarrow> None)"

text \<open>
  A queue behind the \<^verbatim>\<open>WriteBackQueue\<close> interface: \<open>pending\<close> is the list of operations it will still
  deliver, oldest first. An operation that is accepted goes to the end, as the queue keeps it
  (\<open>image\<close>); one that is refused may have been added all the same when the failure was one of the
  transport. What \<^verbatim>\<open>Dequeue\<close> returns is a prefix, no longer than the batch size (100 unless it is
  positive). A call may lose one operation that was taken from the queue and not delivered, without
  saying so: a pop or a read whose answer was lost ends the loop, and the error is not reported. A
  queue that never does is lossless.
\<close>

locale queue_contract =
  fixes q :: "'w wbqueue"
    and pending :: "'w \<Rightarrow> write_op list"
    and ok :: "'w \<Rightarrow> bool"
    and image :: "write_op \<Rightarrow> write_op"
    and accepts :: "write_op \<Rightarrow> bool"
  assumes enqueue: "ok w \<Longrightarrow> accepts x \<Longrightarrow> q_Enqueue q (Some x) w = (e, w') \<Longrightarrow> ok w' \<and>
      (pending w' = pending w @ [image x] \<or> e \<noteq> None \<and> pending w' = pending w)"
    and dequeue: "ok w \<Longrightarrow> q_Dequeue q n w = ((xs, e), w') \<Longrightarrow> ok w' \<and>
      (\<exists>lost. pending w = xs @ lost @ pending w' \<and> length lost \<le> 1) \<and> int (length xs) \<le> (if n \<le> 0 then 100 else n)"
begin

lemma enqueue_all_pending:
  assumes "ok w" and "list_all accepts xs" and "enqueue_all q xs w = Some w'"
  shows "ok w' \<and> pending w' = pending w @ map image xs"
  using assms
proof (induction xs arbitrary: w)
  case Nil
  then show ?case by simp
next
  case (Cons x xs)
  obtain w1 where w1: "q_Enqueue q (Some x) w = (None, w1)" "enqueue_all q xs w1 = Some w'"
    using Cons.prems(3) by (auto split: prod.splits option.splits)
  then show ?case using enqueue [OF Cons.prems(1) _ w1(1)] Cons.IH [of w1] Cons.prems(2) by auto
qed

lemma fifo:
  assumes "ok w" and "pending w = []" and "list_all accepts xs" and "enqueue_all q xs w = Some w1"
    and "q_Dequeue q n w1 = ((ys, e), w2)"
  shows "\<exists>lost. map image xs = ys @ lost @ pending w2 \<and> length lost \<le> 1 \<and> int (length ys) \<le> (if n \<le> 0 then 100 else n)"
  using enqueue_all_pending [OF assms(1,3,4)] dequeue [OF _ assms(5)] assms(2) by auto

end

locale lossless_queue = queue_contract +
  assumes lossless: "ok w \<Longrightarrow> q_Dequeue q n w = ((xs, e), w') \<Longrightarrow> pending w = xs @ pending w'"
begin

lemma fifo_exact:
  assumes "ok w" and "pending w = []" and "list_all accepts xs" and "enqueue_all q xs w = Some w1"
    and "q_Dequeue q n w1 = ((ys, e), w2)"
  shows "map image xs = ys @ pending w2 \<and> int (length ys) \<le> (if n \<le> 0 then 100 else n)"
  using enqueue_all_pending [OF assms(1,3,4)] lossless [OF _ assms(5)] dequeue [OF _ assms(5)] assms(2) by auto

end

section \<open>Lemmas\<close>

lemma find_column_name: "find_column sch n = Some c \<Longrightarrow> col_Name c = n \<and> c \<in> set (sch_Columns sch)"
  by (auto simp: find_column_def find_Some_iff)

lemma find_column_None: "find_column sch n = None \<longleftrightarrow> n \<notin> col_Name ` set (sch_Columns sch)"
  by (auto simp: find_column_def find_None_iff)

lemma op_names_distinct [simp]:
  "OperationCreate \<noteq> OperationUpdate" "OperationCreate \<noteq> OperationDelete" "OperationUpdate \<noteq> OperationDelete"
  "OperationUpdate \<noteq> OperationCreate" "OperationDelete \<noteq> OperationCreate" "OperationDelete \<noteq> OperationUpdate"
  by (simp_all add: OperationCreate_def OperationUpdate_def OperationDelete_def)

lemma json_plainE:
  assumes "json_plain v"
  obtains j where "to_json v = Inr j" "json_ok j" "from_json j = Inr (json_image v)"
  using json_plain_good [OF assms] unfolding json_good_def by blast

lemma json_time_ok: "time_ok t \<Longrightarrow> json_time t = Inr (JStr (RFC3339Nano t))"
  by (auto simp: json_time_def time_ok_def)

lemma ToLower_fields:
  "ToLower ''Table'' = ''table''" "ToLower ''Operation'' = ''operation''" "ToLower ''Key'' = ''key''"
  "ToLower ''Data'' = ''data''" "ToLower ''Timestamp'' = ''timestamp''" "ToLower ''RetryCount'' = ''retrycount''"
  by code_simp+

lemma unmarshal_marshal_write_op:
  assumes "op_plain op"
  shows "\<exists>s. marshal_write_op op = Inr s \<and> unmarshal_write_op s = Inr (op_image op)"
proof -
  have p: "json_plain (op_Key op)" "time_ok (op_Timestamp op)" "utf8_valid (op_Table op)" "utf8_valid (op_Operation op)"
    "- (2 ^ 63) \<le> op_RetryCount op" "op_RetryCount op < 2 ^ 63"
    using assms by (auto simp: op_plain_def)
  obtain jk where jk: "to_json (op_Key op) = Inr jk" "json_ok jk" "from_json jk = Inr (json_image (op_Key op))"
    using p(1) by (rule json_plainE)
  obtain jd where jd: "(case op_Data op of None \<Rightarrow> Inr JNull | Some m \<Rightarrow> to_json (VMap m)) = Inr jd" "json_ok jd"
    "from_json jd = Inr (case op_Data op of None \<Rightarrow> VNil | Some m \<Rightarrow> VMap (map_image m))"
  proof (cases "op_Data op")
    case None
    then show ?thesis using that [of JNull] by simp
  next
    case (Some m)
    then have "json_plain (VMap m)" using assms by (simp add: op_plain_def)
    then obtain j where "to_json (VMap m) = Inr j" "json_ok j" "from_json j = Inr (json_image (VMap m))"
      by (rule json_plainE)
    then show ?thesis using that [of j] Some by (simp add: map_image_def)
  qed
  let ?ms = "[(''Table'', JStr (op_Table op)), (''Operation'', JStr (op_Operation op)), (''Key'', jk),
          (''Data'', jd), (''Timestamp'', JStr (RFC3339Nano (op_Timestamp op))), (''RetryCount'', JNum (show_int (op_RetryCount op)))]"
  have j: "write_op_json op = Inr (JObj ?ms)"
    using jk(1) jd(1) p(2) by (simp add: write_op_json_def json_time_ok)
  have ok: "json_ok (JObj ?ms)"
    using jk(2) jd(2) p by (simp add: utf8_valid_ascii utf8_RFC3339Nano num_ok_show_int)
  have "write_op_members ?ms zero_write_op = Inr (op_image op)"
    using jk(3) jd(3) p(2,5,6)
    by (cases "op_Data op")
      (auto simp: write_op_member_def ToLower_fields zero_write_op_def op_image_def time_Parse_RFC3339Nano ParseInt_show_int Let_def)
  moreover have "parse_json (print_json (JObj ?ms)) = Some (JObj ?ms)"
    using ok by (rule parse_json_print)
  ultimately show ?thesis
    unfolding marshal_write_op_def unmarshal_write_op_def j
    by (intro exI [of _ "print_json (JObj ?ms)"]) (simp only: sum.case option.case json.case simp_thms)
qed

end
