(* ===== verification/Schema_Mapper.thy ===== *)
theory Schema_Mapper
  imports Core_Types
begin

text \<open>
  \<^verbatim>\<open>internal/schema/mapper.go\<close>: the conversions between the values of a record and the values a
  database column of a given type holds. A conversion that the code writes as a Go conversion
  expression is the corresponding conversion of machine words or floats, wrap-around included.
  The offset and name of the local time zone, which \<^verbatim>\<open>time.Unix\<close> consults, are the argument \<open>tz\<close>.
\<close>

type_synonym tzinfo = "int \<Rightarrow> int \<times> string"

section \<open>Operations\<close>

text \<open>The type name in upper case without its size, as all three entry points compute it.\<close>

definition baseType :: "string \<Rightarrow> string" where
  "baseType dbType =
     (let dbTypeUpper = ToUpper (TrimSpace dbType); idx = length (takeWhile (\<lambda>c. c \<noteq> CHR ''('') dbTypeUpper)
      in if idx < length dbTypeUpper \<and> 0 < idx then take idx dbTypeUpper else dbTypeUpper)"

text \<open>
  The switch on the base type. Its case labels are the same in the three entry points, so each
  clause has a name here, after its first label, and the entry points say what the clause does.
\<close>

datatype db_clause =
    C_INT | C_BIGINT | C_SMALLINT | C_FLOAT | C_DOUBLE | C_DECIMAL | C_VARCHAR | C_BINARY | C_DATE
  | C_BOOLEAN | C_JSON | C_default

definition db_switch :: "string \<Rightarrow> db_clause" where
  "db_switch dbType =
     (let b = baseType dbType in
      if b \<in> set [''INT'', ''INTEGER'', ''MEDIUMINT''] then C_INT
      else if b = ''BIGINT'' then C_BIGINT
      else if b \<in> set [''SMALLINT'', ''TINYINT''] then C_SMALLINT
      else if b = ''FLOAT'' then C_FLOAT
      else if b \<in> set [''DOUBLE'', ''DOUBLE PRECISION'', ''REAL''] then C_DOUBLE
      else if b \<in> set [''DECIMAL'', ''NUMERIC''] then C_DECIMAL
      else if b \<in> set [''VARCHAR'', ''CHAR'', ''TEXT'', ''LONGTEXT'', ''MEDIUMTEXT'', ''TINYTEXT''] then C_VARCHAR
      else if b \<in> set [''BINARY'', ''VARBINARY'', ''BLOB'', ''LONGBLOB'', ''MEDIUMBLOB'', ''TINYBLOB''] then C_BINARY
      else if b \<in> set [''DATE'', ''DATETIME'', ''TIMESTAMP'', ''TIME''] then C_DATE
      else if b \<in> set [''BOOLEAN'', ''BOOL'', ''TINYINT(1)''] then C_BOOLEAN
      else if b \<in> set [''JSON'', ''JSONB''] then C_JSON
      else C_default)"

text \<open>The result is the name of the reflected type.\<close>

definition MapDBTypeToGoType :: "string \<Rightarrow> string" where
  "MapDBTypeToGoType dbType =
     (case db_switch dbType of
        C_INT \<Rightarrow> ''int''
      | C_BIGINT \<Rightarrow> ''int64''
      | C_SMALLINT \<Rightarrow> ''int16''
      | C_FLOAT \<Rightarrow> ''float32''
      | C_DOUBLE \<Rightarrow> ''float64''
      | C_DECIMAL \<Rightarrow> ''string''
      | C_VARCHAR \<Rightarrow> ''string''
      | C_BINARY \<Rightarrow> ''[]uint8''
      | C_DATE \<Rightarrow> ''time.Time''
      | C_BOOLEAN \<Rightarrow> ''bool''
      | C_JSON \<Rightarrow> ''map[string]interface {}''
      | C_default \<Rightarrow> ''string'')"

text \<open>The \<^verbatim>\<open>*strconv.NumError\<close> that \<^verbatim>\<open>strconv\<close> returns, with the name of its function and the input.\<close>

definition NumError :: "string \<Rightarrow> string \<Rightarrow> gerror" where
  "NumError func num = Errorf ''strconv.%s: parsing %s'' [func, num]"

fun toInt :: "goval \<Rightarrow> 64 word res" where
  "toInt (VInt v) = Inr v"
| "toInt (VInt8 v) = Inr (scast v)"
| "toInt (VInt16 v) = Inr (scast v)"
| "toInt (VInt32 v) = Inr (scast v)"
| "toInt (VInt64 v) = Inr v"
| "toInt (VUint v) = Inr v"
| "toInt (VUint8 v) = Inr (ucast v)"
| "toInt (VUint16 v) = Inr (ucast v)"
| "toInt (VUint32 v) = Inr (ucast v)"
| "toInt (VUint64 v) = Inr v"
| "toInt (VFloat32 v) = Inr (word_of_int (f_to_sint 64 v))"
| "toInt (VFloat64 v) = Inr (word_of_int (f_to_sint 64 v))"
| "toInt (VString v) =
     (case ParseInt 64 v of
        None \<Rightarrow> Inl (Wrapf ''cannot convert string to int: %w'' [] (NumError ''Atoi'' v))
      | Some i \<Rightarrow> Inr (word_of_int i))"
| "toInt v = Inl (Errorf ''cannot convert %T to int'' [type_name v])"

fun toInt64 :: "goval \<Rightarrow> 64 word res" where
  "toInt64 (VInt64 v) = Inr v"
| "toInt64 (VInt v) = Inr v"
| "toInt64 (VInt8 v) = Inr (scast v)"
| "toInt64 (VInt16 v) = Inr (scast v)"
| "toInt64 (VInt32 v) = Inr (scast v)"
| "toInt64 (VUint v) = Inr v"
| "toInt64 (VUint8 v) = Inr (ucast v)"
| "toInt64 (VUint16 v) = Inr (ucast v)"
| "toInt64 (VUint32 v) = Inr (ucast v)"
| "toInt64 (VUint64 v) = Inr v"
| "toInt64 (VFloat32 v) = Inr (word_of_int (f_to_sint 64 v))"
| "toInt64 (VFloat64 v) = Inr (word_of_int (f_to_sint 64 v))"
| "toInt64 (VString v) =
     (case ParseInt 64 v of
        None \<Rightarrow> Inl (Wrapf ''cannot convert string to int64: %w'' [] (NumError ''ParseInt'' v))
      | Some i \<Rightarrow> Inr (word_of_int i))"
| "toInt64 v = Inl (Errorf ''cannot convert %T to int64'' [type_name v])"

text \<open>
  A float becomes an int16 through the conversion to 32 bits, the narrowest the instruction set
  has, and its low 16 bits. There is no case for uint32 and uint64.
\<close>

fun toInt16 :: "goval \<Rightarrow> 16 word res" where
  "toInt16 (VInt16 v) = Inr v"
| "toInt16 (VInt v) = Inr (ucast v)"
| "toInt16 (VInt8 v) = Inr (scast v)"
| "toInt16 (VInt32 v) = Inr (ucast v)"
| "toInt16 (VInt64 v) = Inr (ucast v)"
| "toInt16 (VUint v) = Inr (ucast v)"
| "toInt16 (VUint8 v) = Inr (ucast v)"
| "toInt16 (VUint16 v) = Inr v"
| "toInt16 (VFloat32 v) = Inr (word_of_int (f_to_sint 32 v))"
| "toInt16 (VFloat64 v) = Inr (word_of_int (f_to_sint 32 v))"
| "toInt16 (VString v) =
     (case ParseInt 16 v of
        None \<Rightarrow> Inl (Wrapf ''cannot convert string to int16: %w'' [] (NumError ''ParseInt'' v))
      | Some i \<Rightarrow> Inr (word_of_int i))"
| "toInt16 v = Inl (Errorf ''cannot convert %T to int16'' [type_name v])"

fun toFloat32 :: "goval \<Rightarrow> gofloat res" where
  "toFloat32 (VFloat32 v) = Inr v"
| "toFloat32 (VFloat64 v) = Inr (to_f32 v)"
| "toFloat32 (VInt v) = Inr (round_f32 (of_int (sint v)))"
| "toFloat32 (VInt64 v) = Inr (round_f32 (of_int (sint v)))"
| "toFloat32 (VString v) =
     (case ParseFloat round_f32 v of
        None \<Rightarrow> Inl (Wrapf ''cannot convert string to float32: %w'' [] (NumError ''ParseFloat'' v))
      | Some f \<Rightarrow> Inr f)"
| "toFloat32 v = Inl (Errorf ''cannot convert %T to float32'' [type_name v])"

fun toFloat64 :: "goval \<Rightarrow> gofloat res" where
  "toFloat64 (VFloat64 v) = Inr v"
| "toFloat64 (VFloat32 v) = Inr v"
| "toFloat64 (VInt v) = Inr (round_f64 (of_int (sint v)))"
| "toFloat64 (VInt64 v) = Inr (round_f64 (of_int (sint v)))"
| "toFloat64 (VString v) =
     (case ParseFloat round_f64 v of
        None \<Rightarrow> Inl (Wrapf ''cannot convert string to float64: %w'' [] (NumError ''ParseFloat'' v))
      | Some f \<Rightarrow> Inr f)"
| "toFloat64 v = Inl (Errorf ''cannot convert %T to float64'' [type_name v])"

definition toString :: "goval \<Rightarrow> string res" where
  "toString value =
     (case value of
        VString v \<Rightarrow> Inr v
      | VBytes v \<Rightarrow> Inr v
      | VFloat32 v \<Rightarrow> Inr (fmt_g round_f32 v)
      | VFloat64 v \<Rightarrow> Inr (fmt_g round_f64 v)
      | VBool v \<Rightarrow> Inr (show_bool v)
      | VTime v \<Rightarrow> Inr (RFC3339 v)
      | v \<Rightarrow> (case int_of_goval v of
                Some i \<Rightarrow> Inr (show_int i)
              | None \<Rightarrow> (case json_Marshal v of
                           Inl e \<Rightarrow> Inl (Wrapf ''cannot convert %T to string: %w'' [type_name v] e)
                         | Inr bytes \<Rightarrow> Inr bytes)))"

fun toBytes :: "goval \<Rightarrow> string res" where
  "toBytes (VBytes v) = Inr v"
| "toBytes (VString v) = Inr v"
| "toBytes v = Inl (Errorf ''cannot convert %T to []byte'' [type_name v])"

definition time_formats :: "time_layout list" where
  "time_formats = [Layout_RFC3339, Layout_RFC3339Nano, Layout_Space, Layout_T, Layout_Date]"

fun toTime :: "tzinfo \<Rightarrow> goval \<Rightarrow> gotime res" where
  "toTime tz (VTime v) = Inr v"
| "toTime tz (VString v) =
     (case first_some (\<lambda>format. time_Parse format v) time_formats of
        Some t \<Rightarrow> Inr t
      | None \<Rightarrow> Inl (Errorf ''cannot parse time string: %s'' [v]))"
| "toTime tz (VInt64 v) = (let (off, zone) = tz (sint v) in Inr (time_Unix off zone (sint v)))"
| "toTime tz v = Inl (Errorf ''cannot convert %T to time.Time'' [type_name v])"

definition ParseBool :: "string \<Rightarrow> bool option" where
  "ParseBool s =
     (if s \<in> set [''1'', ''t'', ''T'', ''true'', ''TRUE'', ''True''] then Some True
      else if s \<in> set [''0'', ''f'', ''F'', ''false'', ''FALSE'', ''False''] then Some False
      else None)"

definition toBool :: "goval \<Rightarrow> bool res" where
  "toBool value =
     (case value of
        VBool v \<Rightarrow> Inr v
      | VString v \<Rightarrow>
          (case ParseBool v of
             Some b \<Rightarrow> Inr b
           | None \<Rightarrow> (case ParseInt 64 v of
                        Some i \<Rightarrow> Inr (i \<noteq> 0)
                      | None \<Rightarrow> Inl (Wrapf ''cannot convert string to bool: %w'' [] (NumError ''ParseBool'' v))))
      | v \<Rightarrow> (case int_of_goval v of
                Some i \<Rightarrow> Inr (i \<noteq> 0)
              | None \<Rightarrow> Inl (Errorf ''cannot convert %T to bool'' [type_name v])))"

definition toJSON :: "goval \<Rightarrow> goval res" where
  "toJSON value =
     (case value of
        VString v \<Rightarrow> (case json_Unmarshal v of
            Inl err \<Rightarrow> Inl (Wrapf ''cannot parse JSON string: %w'' [] err)
          | Inr _ \<Rightarrow> Inr (VString v))
      | VBytes v \<Rightarrow> (case json_Unmarshal v of
            Inl err \<Rightarrow> Inl (Wrapf ''cannot parse JSON bytes: %w'' [] err)
          | Inr _ \<Rightarrow> Inr (VString v))
      | VMap m \<Rightarrow> (case json_Marshal (VMap m) of
            Inl err \<Rightarrow> Inl (Wrapf ''cannot marshal map to JSON: %w'' [] err)
          | Inr jsonBytes \<Rightarrow> Inr (VString jsonBytes))
      | VSlice vs \<Rightarrow> (case json_Marshal (VSlice vs) of
            Inl err \<Rightarrow> Inl (Wrapf ''cannot marshal slice to JSON: %w'' [] err)
          | Inr jsonBytes \<Rightarrow> Inr (VString jsonBytes))
      | v \<Rightarrow> (case json_Marshal v of
            Inl err \<Rightarrow> Inl (Wrapf ''cannot marshal %T to JSON: %w'' [type_name v] err)
          | Inr jsonBytes \<Rightarrow> Inr (VString jsonBytes)))"

text \<open>A typed result returned as an \<^verbatim>\<open>interface{}\<close>.\<close>

definition boxed :: "('a \<Rightarrow> goval) \<Rightarrow> 'a res \<Rightarrow> goval res" where
  "boxed box r = (case r of Inl e \<Rightarrow> Inl e | Inr v \<Rightarrow> Inr (box v))"

definition ConvertToDBValue :: "tzinfo \<Rightarrow> goval \<Rightarrow> string \<Rightarrow> goval res" where
  "ConvertToDBValue tz value dbType =
     (if value = VNil then Inr VNil else
     (case db_switch dbType of
        C_INT \<Rightarrow> boxed VInt (toInt value)
      | C_BIGINT \<Rightarrow> boxed VInt64 (toInt64 value)
      | C_SMALLINT \<Rightarrow> boxed VInt16 (toInt16 value)
      | C_FLOAT \<Rightarrow> boxed VFloat32 (toFloat32 value)
      | C_DOUBLE \<Rightarrow> boxed VFloat64 (toFloat64 value)
      | C_DECIMAL \<Rightarrow> boxed VString (toString value)
      | C_VARCHAR \<Rightarrow> boxed VString (toString value)
      | C_BINARY \<Rightarrow> boxed VBytes (toBytes value)
      | C_DATE \<Rightarrow> boxed VTime (toTime tz value)
      | C_BOOLEAN \<Rightarrow> boxed VBool (toBool value)
      | C_JSON \<Rightarrow> toJSON value
      | C_default \<Rightarrow> boxed VString (toString value)))"

text \<open>\<^verbatim>\<open>driver.Valuer\<close>: \<open>None\<close> for a value that does not implement it, else the driver value.\<close>

fun driver_Value :: "goval \<Rightarrow> goval option" where
  "driver_Value (VNullString s valid) = Some (if valid then VString s else VNil)"
| "driver_Value (VNullInt64 w valid) = Some (if valid then VInt64 w else VNil)"
| "driver_Value _ = None"

definition ConvertFromDBValue :: "tzinfo \<Rightarrow> goval \<Rightarrow> string \<Rightarrow> goval res" where
  "ConvertFromDBValue tz value0 dbType =
     (let value = (case driver_Value value0 of None \<Rightarrow> value0 | Some val \<Rightarrow> val) in
      if value0 = VNil \<or> value = VNil then Inr VNil else
     (case db_switch dbType of
        C_INT \<Rightarrow> boxed VInt (toInt value)
      | C_BIGINT \<Rightarrow> boxed VInt64 (toInt64 value)
      | C_SMALLINT \<Rightarrow> boxed VInt16 (toInt16 value)
      | C_FLOAT \<Rightarrow> boxed VFloat32 (toFloat32 value)
      | C_DOUBLE \<Rightarrow> boxed VFloat64 (toFloat64 value)
      | C_DECIMAL \<Rightarrow> boxed VString (toString value)
      | C_VARCHAR \<Rightarrow> boxed VString (toString value)
      | C_BINARY \<Rightarrow> boxed VBytes (toBytes value)
      | C_DATE \<Rightarrow> boxed VTime (toTime tz value)
      | C_BOOLEAN \<Rightarrow> boxed VBool (toBool value)
      | C_JSON \<Rightarrow> toJSON value
      | C_default \<Rightarrow> Inr value))"

section \<open>Lemmas\<close>

lemma boxed_Inr [simp]: "boxed f r = Inr d \<longleftrightarrow> (\<exists>v. r = Inr v \<and> d = f v)"
  by (cases r) (auto simp: boxed_def)

lemma boxed_Inl [simp]: "boxed f r = Inl e \<longleftrightarrow> r = Inl e"
  by (cases r) (auto simp: boxed_def)

lemma baseType_no_paren: "CHR ''('' \<in> set (tl (baseType t)) \<longrightarrow> hd (baseType t) = CHR ''(''"
proof -
  let ?u = "ToUpper (TrimSpace t)" and ?p = "takeWhile (\<lambda>c. c \<noteq> CHR ''('') (ToUpper (TrimSpace t))"
  have take: "take (length ?p) ?u = ?p" by (metis takeWhile_eq_take)
  have np: "CHR ''('' \<notin> set ?p" using set_takeWhileD by fastforce
  show ?thesis
  proof (cases "length ?p < length ?u \<and> 0 < length ?p")
    case True
    then have "baseType t = ?p" using take by (simp add: baseType_def Let_def)
    then show ?thesis using np by (metis list.set_sel(2) list.sel(2))
  next
    case False
    then have b: "baseType t = ?u" by (auto simp: baseType_def Let_def)
    show ?thesis
    proof (cases "?p = []")
      case True
      then show ?thesis unfolding b by (cases ?u) (auto split: if_splits)
    next
      case False
      with \<open>\<not> (length ?p < length ?u \<and> 0 < length ?p)\<close> have "\<not> length ?p < length ?u" by simp
      then have "?p = ?u" using take by simp
      then show ?thesis unfolding b using np by (metis list.set_sel(2) list.sel(2))
    qed
  qed
qed

text \<open>The switch never selects the case label TINYINT(1).\<close>

lemma baseType_not_tinyint1: "baseType t \<noteq> ''TINYINT(1)''"
proof
  assume "baseType t = ''TINYINT(1)''"
  with baseType_no_paren [of t] show False by simp
qed

lemma sint_word_of_int_64: "- (2 ^ 63) \<le> i \<Longrightarrow> i < 2 ^ 63 \<Longrightarrow> sint (word_of_int i :: 64 word) = i"
  by (simp add: sint_sbintrunc' signed_take_bit_int_eq_self)

lemma word_of_int_f_to_sint_64: "word_of_int (f_to_sint 64 (FFin (of_int (sint w)))) = (w :: 64 word)"
  using f_to_sint_of_int [of 64 "sint w"] sint_range_size [of w] by (simp add: size_word_def)

lemma word_of_int_f_to_sint_16: "word_of_int (f_to_sint 32 (FFin (of_int (sint w)))) = (w :: 16 word)"
  using f_to_sint_of_int [of 32 "sint w"] sint_range_size [of w] by (simp add: size_word_def)

lemma first_some_time: "time_ok t \<Longrightarrow> first_some (\<lambda>f. time_Parse f (RFC3339Nano t)) time_formats = Some t"
  by (simp add: time_formats_def time_Parse_RFC3339Nano)

lemma toJSON_result: "toJSON v = Inr d \<Longrightarrow> \<exists>s. d = VString s"
  by (auto simp: toJSON_def split: goval.splits sum.splits)

lemma toInt16_word:
  assumes "int_of_goval v = Some i" and "toInt16 v = Inr w"
  shows "w = word_of_int i"
  using assms by (cases v) (auto intro!: bit_word_eqI simp: bit_simps)

text \<open>A JSON column gets the text itself, or a text that decodes to the value.\<close>

lemma json_Marshal_decodes: "json_plain v \<Longrightarrow> json_Marshal v = Inr s \<Longrightarrow> json_Unmarshal s = Inr (json_image v)"
  using json_Marshal_Unmarshal [of v] by auto

lemma toJSON_decodes:
  assumes "toJSON v = Inr d"
  shows "\<exists>s. d = VString s \<and>
    (if v \<in> {VString s, VBytes s} then \<not> is_err (json_Unmarshal s) else json_plain v \<longrightarrow> json_Unmarshal s = Inr (json_image v))"
proof -
  have "\<exists>s. json_Marshal v = Inr s \<and> d = VString s" if "\<And>s. v \<noteq> VString s" "\<And>s. v \<noteq> VBytes s"
    using assms that by (cases v) (auto simp: toJSON_def split: sum.splits)
  moreover have "\<exists>s. d = VString s \<and> v \<in> {VString s, VBytes s} \<and> \<not> is_err (json_Unmarshal s)" if "v = VString t \<or> v = VBytes t" for t
    using assms that by (auto simp: toJSON_def split: sum.splits)
  ultimately show ?thesis using json_Marshal_decodes by (metis insertE singletonD)
qed

section \<open>Properties\<close>



text \<open>
  C35. Narrowing to SMALLINT and TINYINT columns wraps around: an integer that \<^verbatim>\<open>toInt16\<close> accepts is
  reduced modulo \<open>2\<^sup>1\<^sup>6\<close> into the signed range, without an error, while the same number given as text
  is accepted only when it is in that range.
\<close>

theorem toInt16_wraps:
  assumes "int_of_goval v = Some i" and "toInt16 v = Inr w"
  shows "sint w = (i + 2 ^ 15) mod 2 ^ 16 - 2 ^ 15 \<and>
    (is_err (toInt16 (VString (show_int i))) \<longleftrightarrow> \<not> (- (2 ^ 15) \<le> i \<and> i < 2 ^ 15))"
proof -
  have "sint w = signed_take_bit 15 i"
    using toInt16_word [OF assms] by (simp add: sint_sbintrunc')
  then show ?thesis
    by (auto simp: signed_take_bit_eq_take_bit_shift take_bit_eq_mod ParseInt_def)
qed

theorem toInt16_wraps_witness:
  "toInt16 (VInt 40000) = Inr (-25536) \<and> sint (-25536 :: 16 word) = (40000 + 2 ^ 15) mod 2 ^ 16 - 2 ^ 15 \<and>
   is_err (toInt16 (VString (show_int 40000)))"
  using toInt16_wraps [of "VInt 40000" 40000 "-25536"] by simp

text \<open>
  A column declared \<^verbatim>\<open>TINYINT(1)\<close>, the usual MySQL boolean, does not take booleans: the size is
  stripped before the switch, so its label \<^verbatim>\<open>TINYINT(1)\<close> is never selected and the value goes to
  \<^verbatim>\<open>toInt16\<close>, which has no case for it.
\<close>

theorem tinyint1_rejects_bool:
  "ConvertToDBValue tz (VBool b) ''TINYINT(1)'' = Inl (Errorf ''cannot convert %T to int16'' [''bool''])"
proof -
  have "db_switch ''TINYINT(1)'' = C_SMALLINT" by code_simp
  then show ?thesis by (simp add: ConvertToDBValue_def boxed_def)
qed

end
