(* ===== verification/Schema_Validator.thy ===== *)
theory Schema_Validator
  imports Schema_Mapper
begin

text \<open>
  \<^verbatim>\<open>internal/schema/validator.go\<close>: a record is checked against a schema, column by column (a whole
  record) or field by field (the changes of an update). A nil schema or a nil record is \<open>None\<close>.
\<close>

section \<open>Operations\<close>

definition validateColumnType :: "tzinfo \<Rightarrow> column \<Rightarrow> goval \<Rightarrow> gerror option" where
  "validateColumnType tz col value =
     (case ConvertToDBValue tz value (col_Type col) of
        Inl err \<Rightarrow> Some (Wrapf ''type mismatch: expected %s, got %T: %w'' [col_Type col, type_name value] err)
      | Inr _ \<Rightarrow> None)"

fun validate_columns :: "tzinfo \<Rightarrow> grecord \<Rightarrow> column list \<Rightarrow> gerror option" where
  "validate_columns tz record [] = None"
| "validate_columns tz record (col # cols) =
     (case map_of record (col_Name col) of
        None \<Rightarrow>
          if \<not> col_Nullable col then Some (Errorf ''column '%s' cannot be NULL'' [col_Name col])
          else validate_columns tz record cols
      | Some value \<Rightarrow>
          if value = VNil then
            (if \<not> col_Nullable col then Some (Errorf ''column '%s' cannot be NULL'' [col_Name col])
             else validate_columns tz record cols)
          else (case validateColumnType tz col value of
                  Some err \<Rightarrow> Some (Wrapf ''column '%s': %w'' [col_Name col] err)
                | None \<Rightarrow> validate_columns tz record cols))"

definition ValidateRecord :: "tzinfo \<Rightarrow> schema option \<Rightarrow> grecord option \<Rightarrow> gerror option" where
  "ValidateRecord tz schema record =
     (case record of None \<Rightarrow> Some (Errorf ''record cannot be nil'' []) | Some r \<Rightarrow>
     (case schema of None \<Rightarrow> Some (Errorf ''schema cannot be nil'' []) | Some s \<Rightarrow>
      if sch_PrimaryKey s \<noteq> [] \<and> map_of r (sch_PrimaryKey s) = None
      then Some (Errorf ''missing required primary key: %s'' [sch_PrimaryKey s])
      else validate_columns tz r (sch_Columns s)))"

fun validate_fields :: "tzinfo \<Rightarrow> schema \<Rightarrow> grecord \<Rightarrow> gerror option" where
  "validate_fields tz s [] = None"
| "validate_fields tz s ((fieldName, fieldValue) # flds) =
     (case find_column s fieldName of
        None \<Rightarrow> validate_fields tz s flds
      | Some col \<Rightarrow>
          if fieldValue = VNil then
            (if \<not> col_Nullable col then Some (Errorf ''column '%s' cannot be NULL'' [fieldName])
             else validate_fields tz s flds)
          else (case validateColumnType tz col fieldValue of
                  Some err \<Rightarrow> Some (Wrapf ''column '%s': %w'' [fieldName] err)
                | None \<Rightarrow> validate_fields tz s flds))"

definition ValidatePartialRecord :: "tzinfo \<Rightarrow> schema option \<Rightarrow> grecord option \<Rightarrow> gerror option" where
  "ValidatePartialRecord tz schema record =
     (case record of None \<Rightarrow> Some (Errorf ''record cannot be nil'' []) | Some r \<Rightarrow>
     (case schema of None \<Rightarrow> Some (Errorf ''schema cannot be nil'' []) | Some s \<Rightarrow> validate_fields tz s r))"

definition ValidatePrimaryKey :: "tzinfo \<Rightarrow> schema option \<Rightarrow> goval \<Rightarrow> gerror option" where
  "ValidatePrimaryKey tz schema key =
     (if key = VNil then Some (Errorf ''primary key cannot be nil'' [])
      else case schema of None \<Rightarrow> Some (Errorf ''schema has no primary key defined'' []) | Some s \<Rightarrow>
        if sch_PrimaryKey s = [] then Some (Errorf ''schema has no primary key defined'' [])
        else case find_column s (sch_PrimaryKey s) of
          None \<Rightarrow> Some (Errorf ''primary key column '%s' not found in schema'' [sch_PrimaryKey s])
        | Some pkColumn \<Rightarrow> validateColumnType tz pkColumn key)"

section \<open>What acceptance means\<close>

text \<open>A column is satisfied: a missing or nil value needs a nullable column, another value converts.\<close>

definition column_ok :: "tzinfo \<Rightarrow> grecord \<Rightarrow> column \<Rightarrow> bool" where
  "column_ok tz record col \<longleftrightarrow>
     (case map_of record (col_Name col) of
        None \<Rightarrow> col_Nullable col
      | Some v \<Rightarrow> (if v = VNil then col_Nullable col else \<not> is_err (ConvertToDBValue tz v (col_Type col))))"

definition field_ok :: "tzinfo \<Rightarrow> schema \<Rightarrow> string \<Rightarrow> goval \<Rightarrow> bool" where
  "field_ok tz s f v \<longleftrightarrow>
     (case find_column s f of None \<Rightarrow> True
      | Some col \<Rightarrow> (if v = VNil then col_Nullable col else \<not> is_err (ConvertToDBValue tz v (col_Type col))))"

section \<open>Lemmas\<close>

lemma validateColumnType_None [simp]:
  "validateColumnType tz col v = None \<longleftrightarrow> \<not> is_err (ConvertToDBValue tz v (col_Type col))"
  by (auto simp: validateColumnType_def go_simps split: sum.splits)

lemma validateColumnType_Some: "validateColumnType tz col v = Some e \<Longrightarrow> is_err (ConvertToDBValue tz v (col_Type col))"
  by (metis option.distinct(1) validateColumnType_None)

lemma validate_columns_step:
  "validate_columns tz r (c # cs) = None \<longleftrightarrow> column_ok tz r c \<and> validate_columns tz r cs = None"
  by (cases "map_of r (col_Name c)")
    (auto simp: column_ok_def split: option.splits dest: validateColumnType_Some)

lemma validate_columns_None: "validate_columns tz r cols = None \<longleftrightarrow> list_all (column_ok tz r) cols"
  by (induction cols) (simp_all only: validate_columns_step list.pred_inject validate_columns.simps(1) simp_thms)

lemma validate_fields_step:
  "validate_fields tz s ((f, v) # fs) = None \<longleftrightarrow> field_ok tz s f v \<and> validate_fields tz s fs = None"
  by (cases "find_column s f")
    (auto simp: field_ok_def split: option.splits dest: validateColumnType_Some)

lemma validate_fields_None: "validate_fields tz s r = None \<longleftrightarrow> list_all (\<lambda>(f, v). field_ok tz s f v) r"
  by (induction r) (auto simp only: validate_fields_step list.pred_inject validate_fields.simps(1) simp_thms case_prod_conv split_paired_all)

lemma ValidateRecord_None:
  "ValidateRecord tz (Some s) (Some r) = None \<longleftrightarrow>
     (sch_PrimaryKey s = [] \<or> map_of r (sch_PrimaryKey s) \<noteq> None) \<and> list_all (column_ok tz r) (sch_Columns s)"
  by (auto simp: ValidateRecord_def validate_columns_None)

lemma ValidatePrimaryKey_None:
  "ValidatePrimaryKey tz (Some s) key = None \<longleftrightarrow>
     key \<noteq> VNil \<and> sch_PrimaryKey s \<noteq> [] \<and>
     (\<exists>c. find_column s (sch_PrimaryKey s) = Some c \<and> \<not> is_err (ConvertToDBValue tz key (col_Type c)))"
  by (auto simp: ValidatePrimaryKey_def split: option.splits)

section \<open>Properties\<close>

text \<open>
  What the validators accept, exactly. A whole record: there is a schema, the primary key field
  is present when the schema names one, and every column of the schema is satisfied; fields that
  are not columns do not matter. The changes of an update: every field that is a column is
  satisfied, in whatever order the fields are visited.
\<close>

theorem validators_accept:
  "(ValidateRecord tz s r = None \<longleftrightarrow>
     (case (s, r) of
        (Some s', Some r') \<Rightarrow> (sch_PrimaryKey s' = [] \<or> sch_PrimaryKey s' \<in> fst ` set r') \<and>
          list_all (column_ok tz r') (sch_Columns s')
      | _ \<Rightarrow> False)) \<and>
   (ValidatePartialRecord tz s r = None \<longleftrightarrow>
     (case (s, r) of
        (Some s', Some r') \<Rightarrow> list_all (\<lambda>(f, v). field_ok tz s' f v) r'
      | _ \<Rightarrow> False))"
  by (auto simp: ValidateRecord_def ValidatePartialRecord_def validate_columns_None validate_fields_None
      map_of_eq_None_iff split: option.splits)

end
