(* ===== verification/Write_Validator.thy ===== *)
theory Write_Validator
  imports Schema_Validator
begin

text \<open>
  \<^verbatim>\<open>internal/write/validator.go\<close>: a second, simpler validator of write operations. A nil schema is
  \<open>None\<close>; \<^verbatim>\<open>ValidateCreate\<close> and \<^verbatim>\<open>ValidateUpdate\<close> dereference the schema before they check it.
\<close>

section \<open>Operations\<close>

definition nil_deref :: gerror where
  "nil_deref = Panic ''runtime error: invalid memory address or nil pointer dereference''"

fun is_numeric :: "goval \<Rightarrow> bool" where
  "is_numeric (VFloat32 _) = True"
| "is_numeric (VFloat64 _) = True"
| "is_numeric v = (int_of_goval v \<noteq> None)"

definition validateType :: "string \<Rightarrow> goval \<Rightarrow> column \<Rightarrow> gerror option" where
  "validateType fieldName value col =
     (if col_Type col \<in> set [''INT'', ''INTEGER'', ''BIGINT'', ''SMALLINT'', ''TINYINT''] then
        (if is_numeric value then None
         else Some (Wrapf ''%w: column '%s' expects numeric type, got %T'' [fieldName, type_name value] ErrInvalidRecord))
      else if col_Type col \<in> set [''VARCHAR'', ''TEXT'', ''CHAR''] then
        (case value of VString _ \<Rightarrow> None | VBytes _ \<Rightarrow> None
         | _ \<Rightarrow> Some (Wrapf ''%w: column '%s' expects string type, got %T'' [fieldName, type_name value] ErrInvalidRecord))
      else if col_Type col \<in> set [''TIMESTAMP'', ''DATETIME'', ''DATE''] then
        (case value of VString _ \<Rightarrow> None | VInt64 _ \<Rightarrow> None | VTime _ \<Rightarrow> None
         | _ \<Rightarrow> Some (Wrapf ''%w: column '%s' expects timestamp type, got %T'' [fieldName, type_name value] ErrInvalidRecord))
      else if col_Type col \<in> set [''BOOLEAN'', ''BOOL'', ''TINYINT(1)''] then
        (case value of VBool _ \<Rightarrow> None | VInt _ \<Rightarrow> None | VInt8 _ \<Rightarrow> None
         | _ \<Rightarrow> Some (Wrapf ''%w: column '%s' expects boolean type, got %T'' [fieldName, type_name value] ErrInvalidRecord))
      else None)"

fun validateColumns :: "schema \<Rightarrow> grecord \<Rightarrow> gerror option" where
  "validateColumns s [] = None"
| "validateColumns s ((fieldName, fieldValue) # rest) =
     (case find_column s fieldName of
        None \<Rightarrow> validateColumns s rest
      | Some col \<Rightarrow>
          if fieldValue = VNil then
            (if \<not> col_Nullable col then Some (Wrapf ''%w: column '%s' cannot be NULL'' [fieldName] ErrInvalidRecord)
             else validateColumns s rest)
          else (case validateType fieldName fieldValue col of
                  Some err \<Rightarrow> Some err
                | None \<Rightarrow> validateColumns s rest))"

definition ValidateCreate :: "schema option \<Rightarrow> grecord option \<Rightarrow> gerror option" where
  "ValidateCreate schema record =
     (case record of None \<Rightarrow> Some (Wrapf ''%w: record cannot be nil'' [] ErrInvalidRecord) | Some r \<Rightarrow>
     (case schema of None \<Rightarrow> Some nil_deref | Some s \<Rightarrow>
      if sch_PrimaryKey s \<noteq> [] \<and> map_of r (sch_PrimaryKey s) = None
      then Some (Wrapf ''%w: primary key '%s' is required'' [sch_PrimaryKey s] ErrMissingPrimaryKey)
      else validateColumns s r))"

definition ValidateUpdate :: "schema option \<Rightarrow> goval \<Rightarrow> grecord option \<Rightarrow> gerror option" where
  "ValidateUpdate schema key updates =
     (if key = VNil then Some (Wrapf ''%w: key cannot be nil'' [] ErrInvalidRecord)
      else case updates of
        None \<Rightarrow> Some (Wrapf ''%w: updates cannot be empty'' [] ErrInvalidRecord)
      | Some u \<Rightarrow>
          if u = [] then Some (Wrapf ''%w: updates cannot be empty'' [] ErrInvalidRecord)
          else (case schema of None \<Rightarrow> Some nil_deref | Some s \<Rightarrow>
            if sch_PrimaryKey s \<noteq> [] \<and> map_of u (sch_PrimaryKey s) \<noteq> None
            then Some (Wrapf (''%w: cannot update primary key '%s'' @ [CHR 0x27]) [sch_PrimaryKey s] ErrInvalidRecord)
            else validateColumns s u))"

definition ValidateDelete :: "goval \<Rightarrow> gerror option" where
  "ValidateDelete key = (if key = VNil then Some (Wrapf ''%w: key cannot be nil'' [] ErrInvalidRecord) else None)"

definition ValidateOperationType :: "string \<Rightarrow> gerror option" where
  "ValidateOperationType opType =
     (if opType = OperationCreate \<or> opType = OperationUpdate \<or> opType = OperationDelete then None
      else Some (Wrapf (''%w: '%s'' @ [CHR 0x27]) [opType] ErrInvalidOperationType))"

section \<open>Lemmas\<close>

lemma validateType_sentinel: "validateType f v c = Some e \<Longrightarrow> errors_Is e ErrInvalidRecord"
  by (auto simp: validateType_def split: if_splits goval.splits)

lemma validateColumns_sentinel: "validateColumns s r = Some e \<Longrightarrow> errors_Is e ErrInvalidRecord"
  by (induction s r rule: validateColumns.induct)
    (auto split: option.splits if_splits dest: validateType_sentinel)

lemma validateType_lower: "ToLower (col_Type c) = col_Type c \<Longrightarrow> validateType f v c = None"
proof -
  assume l: "ToLower (col_Type c) = col_Type c"
  have "list_all (\<lambda>x. ToLower x \<noteq> x) [''INT'', ''INTEGER'', ''BIGINT'', ''SMALLINT'', ''TINYINT'', ''VARCHAR'', ''TEXT'', ''CHAR'',
      ''TIMESTAMP'', ''DATETIME'', ''DATE'', ''BOOLEAN'', ''BOOL'', ''TINYINT(1)'']"
    by code_simp
  with l have "col_Type c \<notin> set [''INT'', ''INTEGER'', ''BIGINT'', ''SMALLINT'', ''TINYINT'', ''VARCHAR'', ''TEXT'', ''CHAR'',
      ''TIMESTAMP'', ''DATETIME'', ''DATE'', ''BOOLEAN'', ''BOOL'', ''TINYINT(1)'']"
    unfolding list_all_iff by blast
  then show ?thesis by (auto simp: validateType_def)
qed

section \<open>Properties\<close>

text \<open>
  The write validator compares type names literally. With a schema whose types are in lower
  case, as MySQL's \<^verbatim>\<open>DATA_TYPE\<close> reports them, it checks no type at all: a record is accepted exactly
  when no column that is not nullable is given nil.
\<close>

theorem lower_case_types_unchecked:
  assumes "list_all (\<lambda>c. ToLower (col_Type c) = col_Type c) (sch_Columns s)"
  shows "validateColumns s r = None \<longleftrightarrow>
    list_all (\<lambda>(f, v). v = VNil \<longrightarrow> (case find_column s f of None \<Rightarrow> True | Some c \<Rightarrow> col_Nullable c)) r"
proof (induction r)
  case (Cons p r)
  obtain f v where p: "p = (f, v)" by (cases p)
  have "validateType f v c = None" if "find_column s f = Some c" for c
    using assms find_column_name [OF that] by (auto simp: list_all_iff intro: validateType_lower)
  then show ?case using Cons p by (auto split: option.splits)
qed simp

theorem lower_case_types_unchecked_witness:
  "validateColumns \<lparr>sch_TableName = ''t'', sch_PrimaryKey = ''id'', sch_Columns =
      [\<lparr>col_Name = ''id'', col_Type = ''int'', col_Nullable = False, col_Default = VNil\<rparr>], sch_Indexes = []\<rparr>
     [(''id'', VString ''no number'')] = None"
  by (subst lower_case_types_unchecked) (simp_all add: ToLower_def to_lower_char_def Let_def)

text \<open>
  Every error \<^verbatim>\<open>ValidateCreate\<close> reports for a record and a schema satisfies \<^verbatim>\<open>errors.Is\<close> for the
  sentinel it documents: \<^verbatim>\<open>ErrMissingPrimaryKey\<close> when the record lacks the primary key of the schema,
  \<^verbatim>\<open>ErrInvalidRecord\<close> otherwise.
\<close>

theorem ValidateCreate_sentinels:
  assumes "ValidateCreate (Some s) (Some r) = Some e"
  shows "errors_Is e (if sch_PrimaryKey s \<noteq> [] \<and> sch_PrimaryKey s \<notin> fst ` set r
                      then ErrMissingPrimaryKey else ErrInvalidRecord)"
  using assms validateColumns_sentinel
  by (auto simp: ValidateCreate_def map_of_eq_None_iff split: if_splits)

theorem ValidateCreate_sentinels_witness:
  "errors_Is (the (ValidateCreate (Some \<lparr>sch_TableName = ''t'', sch_PrimaryKey = ''id'', sch_Columns = [],
      sch_Indexes = []\<rparr>) (Some []))) ErrMissingPrimaryKey"
  using ValidateCreate_sentinels [of "\<lparr>sch_TableName = ''t'', sch_PrimaryKey = ''id'', sch_Columns = [], sch_Indexes = []\<rparr>" "[]"]
  by (simp add: ValidateCreate_def)

end
