(* ===== verification/Config_Types.thy ===== *)
theory Config_Types
  imports Core_Types
begin

text \<open>
  The configuration structs of \<^verbatim>\<open>internal/registry/internal_config.go\<close> and \<^verbatim>\<open>KVStoreConfig\<close> of
  \<^verbatim>\<open>internal/kvstore/factory.go\<close>. Counts and durations (nanoseconds) are integers, CPU thresholds
  floats.
\<close>

record InternalRedisConfig =
  irc_Endpoints :: "string list"
  irc_ClusterMode :: bool
  irc_Password :: string
  irc_DB :: int
  irc_PoolSize :: int
  irc_MinIdleConns :: int

record InternalDynamoDBConfig =
  idc_Region :: string
  idc_TableName :: string
  idc_Endpoint :: string
  idc_AccessKeyID :: string
  idc_SecretAccessKey :: string

record InternalCassandraConfig =
  icc_Hosts :: "string list"
  icc_Keyspace :: string
  icc_ConsistencyLevel :: string
  icc_Username :: string
  icc_Password :: string

record InternalKVStoreConfig =
  ikv_Type :: string
  ikv_RedisConfig :: InternalRedisConfig
  ikv_DynamoDBConfig :: InternalDynamoDBConfig
  ikv_CassandraConfig :: InternalCassandraConfig
  ikv_MaxRetries :: int
  ikv_DialTimeout :: int
  ikv_ReadTimeout :: int
  ikv_WriteTimeout :: int

record InternalDatabaseConfig =
  idb_Type :: string
  idb_Host :: string
  idb_Port :: int
  idb_Database :: string
  idb_Username :: string
  idb_Password :: string
  idb_SSLMode :: string
  idb_MaxOpenConns :: int
  idb_MaxIdleConns :: int
  idb_ConnMaxLifetime :: int
  idb_ConnMaxIdleTime :: int
  idb_ConnectionTimeout :: int

record InternalTableConfig =
  itc_TTL :: int
  itc_WriteBackBatchSize :: int
  itc_DrainRate :: int
  itc_Enabled :: bool
  itc_Namespace :: string

record InternalKafkaConfig =
  ikc_Brokers :: "string list"
  ikc_Topic :: string
  ikc_GroupID :: string
  ikc_BatchSize :: int
  ikc_BatchTimeout :: int
  ikc_WriteTimeout :: int
  ikc_ReadTimeout :: int
  ikc_RequiredAcks :: int
  ikc_MaxMessageBytes :: int
  ikc_MinBytes :: int
  ikc_MaxBytes :: int
  ikc_MaxWait :: int

record InternalWriteBackConfig =
  iwb_BatchSize :: int
  iwb_DrainRate :: int
  iwb_MaxRetries :: int
  iwb_RetryBackoffBase :: int
  iwb_RetryBackoffMax :: int
  iwb_DefaultTTL :: int
  iwb_QueueType :: string
  iwb_QueueBufferSize :: int
  iwb_KafkaConfig :: InternalKafkaConfig

record InternalAutoScalingConfig =
  ias_Enabled :: bool
  ias_MinDrainers :: int
  ias_MaxDrainers :: int
  ias_CPUThresholdHigh :: gofloat
  ias_CPUThresholdLow :: gofloat
  ias_ScaleUpCooldown :: int
  ias_ScaleDownCooldown :: int
  ias_MonitoringInterval :: int

record InternalConfig =
  ic_KVStore :: InternalKVStoreConfig
  ic_Database :: InternalDatabaseConfig
  ic_Tables :: "InternalTableConfig gomap option"
  ic_WriteBack :: InternalWriteBackConfig
  ic_AutoScaling :: InternalAutoScalingConfig

record KVStoreConfig =
  kvc_Type :: string
  kvc_Endpoints :: "string list"
  kvc_ClusterMode :: bool
  kvc_Password :: string
  kvc_DB :: int
  kvc_MaxRetries :: int
  kvc_PoolSize :: int
  kvc_MinIdleConns :: int
  kvc_DialTimeout :: int
  kvc_ReadTimeout :: int
  kvc_WriteTimeout :: int
  kvc_Region :: string
  kvc_TableName :: string
  kvc_Endpoint :: string
  kvc_AccessKeyID :: string
  kvc_SecretAccessKey :: string

text \<open>Comparison of floats: false whenever one of them is not a number.\<close>

fun f_less :: "gofloat \<Rightarrow> gofloat \<Rightarrow> bool" where
  "f_less (FFin x) (FFin y) = (x < y)"
| "f_less (FInf neg) (FFin y) = neg"
| "f_less (FFin x) (FInf neg) = (\<not> neg)"
| "f_less (FInf n) (FInf m) = (n \<and> \<not> m)"
| "f_less FNaN f = False"
| "f_less f FNaN = False"

definition f_le :: "gofloat \<Rightarrow> gofloat \<Rightarrow> bool" where
  "f_le x y \<longleftrightarrow> f_less x y \<or> (x = y \<and> x \<noteq> FNaN)"

end
