(* ===== verification/KV_Redis.thy ===== *)
theory KV_Redis
  imports Config_Types
begin

text \<open>
  \<^verbatim>\<open>internal/kvstore/redis.go\<close>. The go-redis client is a record of functions over the state \<open>'s\<close> of
  the server behind it; what the program relies on is the locale \<open>redis_laws\<close>, the documented
  behaviour of the commands, with a server of the development's own as an instance. The state of
  the store is the server with the flag \<^verbatim>\<open>closed\<close>; its methods are the interface record
  \<open>redis_kvstore\<close> and the list operations the Redis queue uses. Logging is left out, and with it the
  decoding of values for the log.
\<close>

section \<open>The client\<close>

record 's redis_client =
  rc_Get :: "string \<Rightarrow> 's \<Rightarrow> string res \<times> 's"
  rc_Set :: "string \<Rightarrow> string \<Rightarrow> int \<Rightarrow> 's \<Rightarrow> gerror option \<times> 's"
  rc_Del :: "string \<Rightarrow> 's \<Rightarrow> gerror option \<times> 's"
  rc_Exists :: "string \<Rightarrow> 's \<Rightarrow> int res \<times> 's"
  rc_Exec :: "(string \<times> string \<times> int) list \<Rightarrow> 's \<Rightarrow> gerror option \<times> 's"
  rc_RPush :: "string \<Rightarrow> string \<Rightarrow> 's \<Rightarrow> gerror option \<times> 's"
  rc_LPop :: "string \<Rightarrow> 's \<Rightarrow> string res \<times> 's"
  rc_LLen :: "string \<Rightarrow> 's \<Rightarrow> int res \<times> 's"
  rc_LRange :: "string \<Rightarrow> int \<Rightarrow> int \<Rightarrow> 's \<Rightarrow> string list res \<times> 's"
  rc_LTrim :: "string \<Rightarrow> int \<Rightarrow> int \<Rightarrow> 's \<Rightarrow> gerror option \<times> 's"
  rc_Ping :: "'s \<Rightarrow> gerror option \<times> 's"
  rc_Close :: "'s \<Rightarrow> gerror option \<times> 's"

record redis_options =
  ro_Addr :: string
  ro_Password :: string
  ro_DB :: int
  ro_PoolSize :: int
  ro_MinIdleConns :: int
  ro_DialTimeout :: int
  ro_ReadTimeout :: int
  ro_WriteTimeout :: int

record 's redis_state =
  rs_server :: 's
  rs_closed :: bool

section \<open>Operations\<close>

definition kv_closed :: gerror where
  "kv_closed = Errorf ''KV store is closed'' []"

text \<open>A call of the client, which leaves the flag alone.\<close>

definition on_server :: "('s \<Rightarrow> 'a \<times> 's) \<Rightarrow> 's redis_state \<Rightarrow> 'a \<times> 's redis_state" where
  "on_server f r = (let (x, s) = f (rs_server r) in (x, r\<lparr>rs_server := s\<rparr>))"

text \<open>The timeout of the context given to \<^verbatim>\<open>Ping\<close> is part of what \<^verbatim>\<open>Ping\<close> may answer.\<close>

definition NewRedisKVStore :: "(redis_options \<Rightarrow> 's redis_client) \<Rightarrow> string list \<Rightarrow> string \<Rightarrow> int \<Rightarrow> int \<Rightarrow> int \<Rightarrow> int \<Rightarrow> int \<Rightarrow> int \<Rightarrow>
    's \<Rightarrow> ('s redis_client \<times> 's redis_state) res \<times> 's" where
  "NewRedisKVStore newClient endpoints password db poolSize minIdleConns dialTimeout readTimeout writeTimeout s =
     (case endpoints of
        [] \<Rightarrow> (Inl (Errorf ''at least one endpoint is required'' []), s)
      | addr # _ \<Rightarrow>
          (let client = newClient \<lparr>ro_Addr = addr, ro_Password = password, ro_DB = db, ro_PoolSize = poolSize,
                 ro_MinIdleConns = minIdleConns, ro_DialTimeout = dialTimeout, ro_ReadTimeout = readTimeout,
                 ro_WriteTimeout = writeTimeout\<rparr>
           in case rc_Ping client s of
                (Some err, s') \<Rightarrow> (Inl (Wrapf ''failed to connect to Redis: %w'' [] err), s')
              | (None, s') \<Rightarrow> (Inr (client, \<lparr>rs_server = s', rs_closed = False\<rparr>), s')))"

definition Redis_Get :: "'s redis_client \<Rightarrow> string \<Rightarrow> 's redis_state \<Rightarrow> string res \<times> 's redis_state" where
  "Redis_Get c key r =
     (if rs_closed r then (Inl kv_closed, r)
      else case on_server (rc_Get c key) r of
        (Inl err, r') \<Rightarrow>
          (if err = RedisNil then (Inl (Errorf ''key not found: %s'' [key]), r')
           else (Inl (Wrapf ''failed to get key %s: %w'' [key] err), r'))
      | (Inr val, r') \<Rightarrow> (Inr val, r'))"

definition Redis_Set :: "'s redis_client \<Rightarrow> string \<Rightarrow> string \<Rightarrow> int \<Rightarrow> 's redis_state \<Rightarrow> gerror option \<times> 's redis_state" where
  "Redis_Set c key value ttl r =
     (if rs_closed r then (Some kv_closed, r)
      else case on_server (rc_Set c key value (if 0 < ttl then ttl else 0)) r of
        (Some err, r') \<Rightarrow> (Some (Wrapf ''failed to set key %s: %w'' [key] err), r')
      | (None, r') \<Rightarrow> (None, r'))"

definition Redis_Delete :: "'s redis_client \<Rightarrow> string \<Rightarrow> 's redis_state \<Rightarrow> gerror option \<times> 's redis_state" where
  "Redis_Delete c key r =
     (if rs_closed r then (Some kv_closed, r)
      else case on_server (rc_Del c key) r of
        (Some err, r') \<Rightarrow> (Some (Wrapf ''failed to delete key %s: %w'' [key] err), r')
      | (None, r') \<Rightarrow> (None, r'))"

definition Redis_Exists :: "'s redis_client \<Rightarrow> string \<Rightarrow> 's redis_state \<Rightarrow> bool res \<times> 's redis_state" where
  "Redis_Exists c key r =
     (if rs_closed r then (Inl kv_closed, r)
      else case on_server (rc_Exists c key) r of
        (Inl err, r') \<Rightarrow> (Inl (Wrapf ''failed to check existence of key %s: %w'' [key] err), r')
      | (Inr count, r') \<Rightarrow> (Inr (0 < count), r'))"

definition Redis_BatchSet :: "'s redis_client \<Rightarrow> string gomap \<Rightarrow> int \<Rightarrow> 's redis_state \<Rightarrow> gerror option \<times> 's redis_state" where
  "Redis_BatchSet c items ttl r =
     (if rs_closed r then (Some kv_closed, r)
      else let pipe = map (\<lambda>(key, value). (key, value, if 0 < ttl then ttl else 0)) items in
        case on_server (rc_Exec c pipe) r of
          (Some err, r') \<Rightarrow> (Some (Wrapf ''failed to batch set keys: %w'' [] err), r')
        | (None, r') \<Rightarrow> (None, r'))"

definition Redis_Close :: "'s redis_client \<Rightarrow> 's redis_state \<Rightarrow> gerror option \<times> 's redis_state" where
  "Redis_Close c r = (if rs_closed r then (None, r) else on_server (rc_Close c) (r\<lparr>rs_closed := True\<rparr>))"

definition ListPush :: "'s redis_client \<Rightarrow> string \<Rightarrow> string \<Rightarrow> 's redis_state \<Rightarrow> gerror option \<times> 's redis_state" where
  "ListPush c key value r = (if rs_closed r then (Some kv_closed, r) else on_server (rc_RPush c key value) r)"

text \<open>An empty list is a nil slice and no error.\<close>

definition ListPop :: "'s redis_client \<Rightarrow> string \<Rightarrow> 's redis_state \<Rightarrow> string option res \<times> 's redis_state" where
  "ListPop c key r =
     (if rs_closed r then (Inl kv_closed, r)
      else case on_server (rc_LPop c key) r of
        (Inl err, r') \<Rightarrow> (if err = RedisNil then (Inr None, r') else (Inl err, r'))
      | (Inr val, r') \<Rightarrow> (Inr (Some val), r'))"

definition ListLength :: "'s redis_client \<Rightarrow> string \<Rightarrow> 's redis_state \<Rightarrow> int res \<times> 's redis_state" where
  "ListLength c key r = (if rs_closed r then (Inl kv_closed, r) else on_server (rc_LLen c key) r)"

definition ListRange :: "'s redis_client \<Rightarrow> string \<Rightarrow> int \<Rightarrow> int \<Rightarrow> 's redis_state \<Rightarrow> string list res \<times> 's redis_state" where
  "ListRange c key start stop r = (if rs_closed r then (Inl kv_closed, r) else on_server (rc_LRange c key start stop) r)"

definition ListTrim :: "'s redis_client \<Rightarrow> string \<Rightarrow> int \<Rightarrow> int \<Rightarrow> 's redis_state \<Rightarrow> gerror option \<times> 's redis_state" where
  "ListTrim c key start stop r = (if rs_closed r then (Some kv_closed, r) else on_server (rc_LTrim c key start stop) r)"

definition redis_kvstore :: "'s redis_client \<Rightarrow> 's redis_state kvstore" where
  "redis_kvstore c = \<lparr>kv_Get = Redis_Get c, kv_Set = Redis_Set c, kv_Delete = Redis_Delete c,
     kv_Exists = Redis_Exists c, kv_BatchSet = Redis_BatchSet c, kv_Close = Redis_Close c\<rparr>"

section \<open>Factory and validator\<close>

definition Redis_Validate :: "KVStoreConfig \<Rightarrow> gerror option" where
  "Redis_Validate config =
     (if kvc_Type config \<noteq> ''redis'' then Some (Errorf ''invalid type for Redis factory: %s'' [kvc_Type config])
      else if kvc_Endpoints config = [] then Some (Errorf ''at least one endpoint is required for Redis'' [])
      else if kvc_DB config < 0 \<or> 15 < kvc_DB config then
        Some (Errorf ''Redis DB must be between 0 and 15, got: %d'' [show_int (kvc_DB config)])
      else if kvc_PoolSize config \<le> 0 then Some (Errorf ''pool_size must be greater than 0, got: %d'' [show_int (kvc_PoolSize config)])
      else if kvc_MinIdleConns config < 0 then Some (Errorf ''min_idle_conns must be non-negative, got: %d'' [show_int (kvc_MinIdleConns config)])
      else if kvc_DialTimeout config \<le> 0 then Some (Errorf ''dial_timeout must be greater than 0, got: %d'' [show_int (kvc_DialTimeout config)])
      else if kvc_ReadTimeout config \<le> 0 then Some (Errorf ''read_timeout must be greater than 0, got: %d'' [show_int (kvc_ReadTimeout config)])
      else if kvc_WriteTimeout config \<le> 0 then Some (Errorf ''write_timeout must be greater than 0, got: %d'' [show_int (kvc_WriteTimeout config)])
      else None)"

definition Redis_Create :: "(redis_options \<Rightarrow> 's redis_client) \<Rightarrow> KVStoreConfig \<Rightarrow> 's \<Rightarrow> ('s redis_client \<times> 's redis_state) res \<times> 's" where
  "Redis_Create newClient config s =
     (case NewRedisKVStore newClient (kvc_Endpoints config) (kvc_Password config) (kvc_DB config) (kvc_PoolSize config)
             (kvc_MinIdleConns config) (kvc_DialTimeout config) (kvc_ReadTimeout config) (kvc_WriteTimeout config) s of
        (Inl err, s') \<Rightarrow> (Inl (Wrapf ''failed to create Redis KV store: %w'' [] err), s')
      | (Inr redisStore, s') \<Rightarrow> (Inr redisStore, s'))"

definition RedisConfig_Validate :: "InternalConfig option \<Rightarrow> gerror option" where
  "RedisConfig_Validate config =
     (case config of None \<Rightarrow> Some (Errorf ''config cannot be nil'' []) | Some cfg \<Rightarrow>
      let kvConfig = ic_KVStore cfg; redisConfig = ikv_RedisConfig kvConfig in
      if ikv_Type kvConfig \<noteq> ''redis'' then Some (Errorf ''invalid type for Redis validator: %s'' [ikv_Type kvConfig])
      else if irc_Endpoints redisConfig = [] then Some (Errorf ''at least one endpoint is required for Redis'' [])
      else if irc_DB redisConfig < 0 \<or> 15 < irc_DB redisConfig then
        Some (Errorf ''Redis DB must be between 0 and 15, got: %d'' [show_int (irc_DB redisConfig)])
      else if irc_PoolSize redisConfig \<le> 0 then Some (Errorf ''pool_size must be greater than 0, got: %d'' [show_int (irc_PoolSize redisConfig)])
      else if irc_MinIdleConns redisConfig < 0 then
        Some (Errorf ''min_idle_conns must be non-negative, got: %d'' [show_int (irc_MinIdleConns redisConfig)])
      else if ikv_DialTimeout kvConfig \<le> 0 then Some (Errorf ''dial_timeout must be greater than 0, got: %v'' [show_int (ikv_DialTimeout kvConfig)])
      else if ikv_ReadTimeout kvConfig \<le> 0 then Some (Errorf ''read_timeout must be greater than 0, got: %v'' [show_int (ikv_ReadTimeout kvConfig)])
      else if ikv_WriteTimeout kvConfig \<le> 0 then Some (Errorf ''write_timeout must be greater than 0, got: %v'' [show_int (ikv_WriteTimeout kvConfig)])
      else if ikv_MaxRetries kvConfig < 0 then Some (Errorf ''max_retries must be non-negative, got: %d'' [show_int (ikv_MaxRetries kvConfig)])
      else None)"

section \<open>The commands' documented behaviour\<close>

text \<open>
  A key holds a string or a list; an empty list is no key. \<open>keys\<close> is what the server holds at the
  moment of the call. A command that fails (for another reason than a missing key) may or may not
  have been applied; reads change nothing.
\<close>

datatype redis_val = RStr string | RList "string list"

definition list_at :: "(string \<Rightarrow> redis_val option) \<Rightarrow> string \<Rightarrow> string list" where
  "list_at m k = (case m k of Some (RList xs) \<Rightarrow> xs | _ \<Rightarrow> [])"

definition put_list :: "string \<Rightarrow> string list \<Rightarrow> (string \<Rightarrow> redis_val option) \<Rightarrow> string \<Rightarrow> redis_val option" where
  "put_list k xs m = m(k := (if xs = [] then None else Some (RList xs)))"

locale redis_laws =
  fixes c :: "'s redis_client"
    and keys :: "'s \<Rightarrow> string \<Rightarrow> redis_val option"
  assumes Get: "rc_Get c k s = (r, s') \<Longrightarrow> keys s' = keys s \<and>
      (\<forall>v. r = Inr v \<longrightarrow> keys s k = Some (RStr v)) \<and> (r = Inl RedisNil \<longrightarrow> keys s k = None)"
    and Set: "rc_Set c k v ttl s = (e, s') \<Longrightarrow>
      keys s' = (keys s)(k \<mapsto> RStr v) \<or> e \<noteq> None \<and> keys s' = keys s"
    and Del: "rc_Del c k s = (e, s') \<Longrightarrow> keys s' = (keys s)(k := None) \<or> e \<noteq> None \<and> keys s' = keys s"
    and Exists: "rc_Exists c k s = (rn, s') \<Longrightarrow> keys s' = keys s \<and> (\<forall>n. rn = Inr n \<longrightarrow> n = (if keys s k = None then 0 else 1))"
    and RPush: "rc_RPush c k v s = (e, s') \<Longrightarrow> (e = None \<longrightarrow> (\<forall>x. keys s k \<noteq> Some (RStr x))) \<and>
      (keys s' = put_list k (list_at (keys s) k @ [v]) (keys s) \<or> e \<noteq> None \<and> keys s' = keys s)"
    and LPop: "rc_LPop c k s = (r, s') \<Longrightarrow>
      (case r of
         Inr v \<Rightarrow> \<exists>xs. list_at (keys s) k = v # xs \<and> keys s' = put_list k xs (keys s)
       | Inl e \<Rightarrow> (if e = RedisNil then keys s k = None \<and> keys s' = keys s
                   else keys s' = keys s \<or> keys s' = put_list k (tl (list_at (keys s) k)) (keys s)))"
    and LLen: "rc_LLen c k s = (rn, s') \<Longrightarrow> keys s' = keys s \<and> (\<forall>n. rn = Inr n \<longrightarrow> n = int (length (list_at (keys s) k)))"
begin

definition redis_content :: "'s redis_state \<Rightarrow> string \<Rightarrow> string option" where
  "redis_content r k = (case keys (rs_server r) k of Some (RStr v) \<Rightarrow> Some v | _ \<Rightarrow> None)"

text \<open>An open store on such a server keeps the contract of a key-value store.\<close>

lemma redis_keeps_contract: "kv_contract (redis_kvstore c) redis_content (\<lambda>r. \<not> rs_closed r)"
proof
  fix w k r w'
  assume "\<not> rs_closed w" and "kv_Get (redis_kvstore c) k w = (r, w')"
  then show "\<not> rs_closed w' \<and> redis_content w' = redis_content w \<and> (\<forall>v. r = Inr v \<longrightarrow> redis_content w k = Some v)"
    using Get [of k "rs_server w"]
    by (auto simp: redis_kvstore_def Redis_Get_def on_server_def redis_content_def Let_def
        split: prod.splits sum.splits if_splits)
next
  fix w k v ttl e w'
  assume "\<not> rs_closed w" and "kv_Set (redis_kvstore c) k v ttl w = (e, w')"
  then show "\<not> rs_closed w' \<and>
      (redis_content w' = (redis_content w)(k \<mapsto> v) \<or> e \<noteq> None \<and> redis_content w' = redis_content w)"
    using Set [of k v "if 0 < ttl then ttl else 0" "rs_server w"]
    by (fastforce simp: redis_kvstore_def Redis_Set_def on_server_def redis_content_def fun_eq_iff Let_def
        split: prod.splits option.splits)
next
  fix w k e w'
  assume "\<not> rs_closed w" and "kv_Delete (redis_kvstore c) k w = (e, w')"
  then show "\<not> rs_closed w' \<and>
      (redis_content w' = (redis_content w)(k := None) \<or> e \<noteq> None \<and> redis_content w' = redis_content w)"
    using Del [of k "rs_server w"]
    by (fastforce simp: redis_kvstore_def Redis_Delete_def on_server_def redis_content_def fun_eq_iff Let_def
        split: prod.splits option.splits)
qed

end

sublocale redis_laws \<subseteq> rkv: kv_contract "redis_kvstore c" redis_content "\<lambda>r. \<not> rs_closed r"
  by (rule redis_keeps_contract)

section \<open>A server that keeps the laws\<close>

text \<open>
  Keys with their values and the moments they expire, and the time on the server's clock. No
  command fails except on a key of the wrong type.
\<close>

record redis_ref =
  rr_data :: "(string \<times> redis_val \<times> int option) list"
  rr_now :: int

definition ref_lookup :: "redis_ref \<Rightarrow> string \<Rightarrow> redis_val option" where
  "ref_lookup s k =
     (case map_of (rr_data s) k of
        None \<Rightarrow> None
      | Some (v, None) \<Rightarrow> Some v
      | Some (v, Some d) \<Rightarrow> (if rr_now s < d then Some v else None))"

definition ref_put :: "string \<Rightarrow> redis_val \<Rightarrow> int option \<Rightarrow> redis_ref \<Rightarrow> redis_ref" where
  "ref_put k v d s = s\<lparr>rr_data := AList.update k (v, d) (rr_data s)\<rparr>"

definition ref_del :: "string \<Rightarrow> redis_ref \<Rightarrow> redis_ref" where
  "ref_del k s = s\<lparr>rr_data := AList.delete k (rr_data s)\<rparr>"

text \<open>A list stored at a key keeps the expiry of a list already there.\<close>

definition ref_put_list :: "string \<Rightarrow> string list \<Rightarrow> redis_ref \<Rightarrow> redis_ref" where
  "ref_put_list k xs s =
     (if xs = [] then ref_del k s
      else ref_put k (RList xs) (if ref_lookup s k = None then None else (case map_of (rr_data s) k of Some (_, d) \<Rightarrow> d | None \<Rightarrow> None)) s)"

definition wrong_type :: gerror where
  "wrong_type = Errorf ''WRONGTYPE Operation against a key holding the wrong kind of value'' []"

definition ref_set :: "string \<Rightarrow> string \<Rightarrow> int \<Rightarrow> redis_ref \<Rightarrow> redis_ref" where
  "ref_set k v ttl s = ref_put k (RStr v) (if 0 < ttl then Some (rr_now s + ttl) else None) s"

definition ref_list :: "redis_ref \<Rightarrow> string \<Rightarrow> string list res" where
  "ref_list s k = (case ref_lookup s k of None \<Rightarrow> Inr [] | Some (RList xs) \<Rightarrow> Inr xs | Some (RStr _) \<Rightarrow> Inl wrong_type)"

definition range_list :: "int \<Rightarrow> int \<Rightarrow> 'a list \<Rightarrow> 'a list" where
  "range_list start stop xs =
     (let n = int (length xs); a = (if start < 0 then max 0 (n + start) else start);
          b = (if stop < 0 then n + stop else min stop (n - 1))
      in if b < a then [] else take (nat (b - a + 1)) (drop (nat a) xs))"

text \<open>What the reference server shows: an empty list is never stored.\<close>

definition ref_keys :: "redis_ref \<Rightarrow> string \<Rightarrow> redis_val option" where
  "ref_keys s k = (if ref_lookup s k = Some (RList []) then None else ref_lookup s k)"

definition ref_client :: "redis_ref redis_client" where
  "ref_client = \<lparr>
     rc_Get = (\<lambda>k s. (case ref_lookup s k of None \<Rightarrow> Inl RedisNil | Some (RStr v) \<Rightarrow> Inr v | Some (RList _) \<Rightarrow> Inl wrong_type, s)),
     rc_Set = (\<lambda>k v ttl s. (None, ref_set k v ttl s)),
     rc_Del = (\<lambda>k s. (None, ref_del k s)),
     rc_Exists = (\<lambda>k s. (Inr (if ref_keys s k = None then 0 else 1), s)),
     rc_Exec = (\<lambda>ps s. (None, fold (\<lambda>(k, v, ttl). ref_set k v ttl) ps s)),
     rc_RPush = (\<lambda>k v s. case ref_list s k of Inl e \<Rightarrow> (Some e, s) | Inr xs \<Rightarrow> (None, ref_put_list k (xs @ [v]) s)),
     rc_LPop = (\<lambda>k s. case ref_list s k of Inl e \<Rightarrow> (Inl e, s) | Inr [] \<Rightarrow> (Inl RedisNil, s)
                        | Inr (x # xs) \<Rightarrow> (Inr x, ref_put_list k xs s)),
     rc_LLen = (\<lambda>k s. (case ref_list s k of Inl e \<Rightarrow> Inl e | Inr xs \<Rightarrow> Inr (int (length xs)), s)),
     rc_LRange = (\<lambda>k start stop s. (case ref_list s k of Inl e \<Rightarrow> Inl e | Inr xs \<Rightarrow> Inr (range_list start stop xs), s)),
     rc_LTrim = (\<lambda>k start stop s. case ref_list s k of Inl e \<Rightarrow> (Some e, s) | Inr xs \<Rightarrow> (None, ref_put_list k (range_list start stop xs) s)),
     rc_Ping = (\<lambda>s. (None, s)),
     rc_Close = (\<lambda>s. (None, s))\<rparr>"

text \<open>The clock of the machine of the reference server, and an empty store on it.\<close>

definition redis_clock :: "redis_ref redis_state \<Rightarrow> gotime \<times> redis_ref redis_state" where
  "redis_clock r = (time_Unix 0 ''UTC'' (rr_now (rs_server r) div 1000000000), r)"

definition ex_redis :: "redis_ref redis_state" where
  "ex_redis = \<lparr>rs_server = \<lparr>rr_data = [], rr_now = 0\<rparr>, rs_closed = False\<rparr>"

lemma ref_lookup_put: "ref_lookup (ref_put k v d s) = (ref_lookup s)(k := (case d of None \<Rightarrow> Some v | Some t \<Rightarrow> if rr_now s < t then Some v else None))"
  by (auto simp: ref_lookup_def ref_put_def update_conv' fun_eq_iff split: option.splits)

lemma ref_lookup_del: "ref_lookup (ref_del k s) = (ref_lookup s)(k := None)"
  by (auto simp: ref_lookup_def ref_del_def delete_conv' fun_eq_iff split: option.splits)

lemma ref_lookup_set: "ref_lookup (ref_set k v ttl s) = (ref_lookup s)(k \<mapsto> RStr v)"
  by (simp add: ref_set_def ref_lookup_put)

lemma ref_lookup_put_list: "ref_lookup (ref_put_list k xs s) = put_list k xs (ref_lookup s)"
proof (cases "xs = [] \<or> ref_lookup s k = None")
  case True
  then show ?thesis by (auto simp: ref_put_list_def put_list_def ref_lookup_del ref_lookup_put)
next
  case False
  then obtain v d where "map_of (rr_data s) k = Some (v, d)" "case d of None \<Rightarrow> True | Some t \<Rightarrow> rr_now s < t"
    by (auto simp: ref_lookup_def split: option.splits if_splits)
  then show ?thesis using False
    by (auto simp: ref_put_list_def put_list_def ref_lookup_put fun_eq_iff split: option.splits)
qed

lemma ref_list_at: "ref_list s k = Inr xs \<Longrightarrow> list_at (ref_keys s) k = xs"
  by (auto simp: ref_list_def list_at_def ref_keys_def split: option.splits redis_val.splits)

lemma ref_keys_put_list: "ref_keys (ref_put_list k xs s) = put_list k xs (ref_keys s)"
  by (auto simp: ref_keys_def ref_lookup_put_list put_list_def fun_eq_iff)

interpretation ref: redis_laws ref_client ref_keys
proof
  fix k v s e s'
  assume a: "rc_RPush ref_client k v s = (e, s')"
  then show "(e = None \<longrightarrow> (\<forall>x. ref_keys s k \<noteq> Some (RStr x))) \<and>
      (ref_keys s' = put_list k (list_at (ref_keys s) k @ [v]) (ref_keys s) \<or> e \<noteq> None \<and> ref_keys s' = ref_keys s)"
    by (cases "ref_list s k")
      (auto simp: ref_client_def ref_keys_put_list ref_list_at,
       auto simp: ref_list_def ref_keys_def split: option.splits redis_val.splits if_splits)
next
  fix k s r s'
  assume "rc_LPop ref_client k s = (r, s')"
  then show "case r of
         Inr v \<Rightarrow> \<exists>xs. list_at (ref_keys s) k = v # xs \<and> ref_keys s' = put_list k xs (ref_keys s)
       | Inl e \<Rightarrow> (if e = RedisNil then ref_keys s k = None \<and> ref_keys s' = ref_keys s
                   else ref_keys s' = ref_keys s \<or> ref_keys s' = put_list k (tl (list_at (ref_keys s) k)) (ref_keys s))"
    by (cases "ref_list s k")
      (auto simp: ref_client_def ref_keys_put_list ref_list_at wrong_type_def split: list.splits,
       auto simp: ref_list_def ref_keys_def wrong_type_def split: option.splits redis_val.splits)
qed (auto simp: ref_client_def ref_keys_def ref_lookup_set ref_lookup_del ref_list_def list_at_def wrong_type_def
    split: option.splits redis_val.splits if_splits)

section \<open>Properties\<close>

text \<open>
  Read your writes in Redis. With a client that keeps the documented behaviour of GET and SET,
  after a Set that succeeded a Get of the same key returns the value that was stored or reports a
  failure of the client; it never reports the key as missing. Any other key keeps its content.
\<close>

theorem redis_get_after_set:
  assumes "redis_laws c keys" and "\<not> rs_closed r"
    and "kv_Set (redis_kvstore c) k v ttl r = (None, r1)" and "kv_Get (redis_kvstore c) k r1 = (x, r2)"
  shows "(x = Inr v \<or> (\<exists>e. x = Inl (Wrapf ''failed to get key %s: %w'' [k] e))) \<and>
    (\<forall>k'. k' = k \<or> keys (rs_server r2) k' = keys (rs_server r) k')"
proof -
  obtain s1 where s1: "rc_Set c k v (if 0 < ttl then ttl else 0) (rs_server r) = (None, s1)" "r1 = r\<lparr>rs_server := s1\<rparr>"
    using assms(2,3) by (auto simp: redis_kvstore_def Redis_Set_def on_server_def Let_def split: prod.splits option.splits)
  then have k1: "keys s1 = (keys (rs_server r))(k \<mapsto> RStr v)"
    using redis_laws.Set [OF assms(1)] by blast
  obtain g s2 where s2: "rc_Get c k s1 = (g, s2)" by (cases "rc_Get c k s1")
  have k2: "keys s2 = keys s1" "\<forall>u. g = Inr u \<longrightarrow> keys s1 k = Some (RStr u)" "g = Inl RedisNil \<longrightarrow> keys s1 k = None"
    using redis_laws.Get [OF assms(1) s2] by auto
  show ?thesis
    using assms(2,4) s1(2) s2 k1 k2
    by (auto simp: redis_kvstore_def Redis_Get_def on_server_def split: sum.splits if_splits)
qed

theorem redis_get_after_set_witness:
  "fst (kv_Get (redis_kvstore ref_client) ''k''
     (snd (kv_Set (redis_kvstore ref_client) ''k'' ''v'' 5 \<lparr>rs_server = \<lparr>rr_data = [], rr_now = 0\<rparr>, rs_closed = False\<rparr>)))
   = Inr ''v''"
proof -
  let ?r = "\<lparr>rs_server = \<lparr>rr_data = [], rr_now = 0\<rparr>, rs_closed = False\<rparr>"
  let ?r1 = "\<lparr>rs_server = \<lparr>rr_data = [(''k'', RStr ''v'', Some 5)], rr_now = 0\<rparr>, rs_closed = False\<rparr>"
  have s: "kv_Set (redis_kvstore ref_client) ''k'' ''v'' 5 ?r = (None, ?r1)"
    by (simp add: redis_kvstore_def Redis_Set_def on_server_def ref_client_def ref_set_def ref_put_def)
  obtain x r2 where g: "kv_Get (redis_kvstore ref_client) ''k'' ?r1 = (x, r2)" by (cases "kv_Get (redis_kvstore ref_client) ''k'' ?r1")
  have "\<not> rs_closed ?r" by simp
  from redis_get_after_set [OF ref.redis_laws_axioms this s g]
  have "x = Inr ''v'' \<or> (\<exists>e. x = Inl (Wrapf ''failed to get key %s: %w'' [''k''] e))" by blast
  moreover have "\<not> is_err x"
    using g by (auto simp: redis_kvstore_def Redis_Get_def on_server_def ref_client_def ref_lookup_def)
  ultimately show ?thesis using s g by (auto simp: is_err_iff)
qed

text \<open>
  A closed Redis store never touches the server again: every operation, the list operations
  included, reports an error and leaves the state as it is, and closing it again is a no-op.
\<close>

theorem redis_closed_inert:
  assumes "rs_closed r"
  shows "kv_Get (redis_kvstore c) k r = (Inl kv_closed, r) \<and> kv_Set (redis_kvstore c) k v ttl r = (Some kv_closed, r) \<and>
    kv_Delete (redis_kvstore c) k r = (Some kv_closed, r) \<and> kv_Exists (redis_kvstore c) k r = (Inl kv_closed, r) \<and>
    kv_BatchSet (redis_kvstore c) items ttl r = (Some kv_closed, r) \<and> kv_Close (redis_kvstore c) r = (None, r) \<and>
    ListPush c k v r = (Some kv_closed, r) \<and> ListPop c k r = (Inl kv_closed, r) \<and> ListLength c k r = (Inl kv_closed, r) \<and>
    ListRange c k a b r = (Inl kv_closed, r) \<and> ListTrim c k a b r = (Some kv_closed, r)"
  using assms
  by (simp add: redis_kvstore_def Redis_Get_def Redis_Set_def Redis_Delete_def Redis_Exists_def Redis_BatchSet_def
      Redis_Close_def ListPush_def ListPop_def ListLength_def ListRange_def ListTrim_def)

theorem redis_closed_inert_witness:
  "kv_Get (redis_kvstore ref_client) ''k'' \<lparr>rs_server = \<lparr>rr_data = [], rr_now = 0\<rparr>, rs_closed = True\<rparr> =
   (Inl kv_closed, \<lparr>rs_server = \<lparr>rr_data = [], rr_now = 0\<rparr>, rs_closed = True\<rparr>)"
  using redis_closed_inert [of "\<lparr>rs_server = \<lparr>rr_data = [], rr_now = 0\<rparr>, rs_closed = True\<rparr>" ref_client "''k''"] by simp

end
