(* ===== verification/KV_Dynamo.thy ===== *)
theory KV_Dynamo
  imports Config_Types
begin

text \<open>
  \<^verbatim>\<open>internal/kvstore/dynamodb.go\<close>. The AWS client is a record of functions over the state \<open>'s\<close> of the
  service: items are maps from attribute names to attribute values, a projection restricts the
  attributes a read returns, and a batch write reports the items it did not process. The clock is
  the argument \<open>now\<close>. Logging is left out.
\<close>

section \<open>The client\<close>

datatype attribute_value = AttrS string | AttrB string | AttrN string

type_synonym item = "attribute_value gomap"

record 's dynamo_client =
  dc_GetItem :: "string \<Rightarrow> string \<Rightarrow> string list option \<Rightarrow> 's \<Rightarrow> item option res \<times> 's"
  dc_PutItem :: "string \<Rightarrow> item \<Rightarrow> 's \<Rightarrow> gerror option \<times> 's"
  dc_DeleteItem :: "string \<Rightarrow> string \<Rightarrow> 's \<Rightarrow> gerror option \<times> 's"
  dc_BatchWriteItem :: "string \<Rightarrow> item list \<Rightarrow> 's \<Rightarrow> item list res \<times> 's"
  dc_DescribeTable :: "string \<Rightarrow> 's \<Rightarrow> gerror option \<times> 's"

record dynamo_options =
  do_Region :: string
  do_Credentials :: "(string \<times> string) option"
  do_BaseEndpoint :: "string option"

record 's dynamo_state =
  ds_service :: 's
  ds_tableName :: string
  ds_closed :: bool

section \<open>Operations\<close>

definition dynamo_closed :: gerror where
  "dynamo_closed = Errorf ''KV store is closed'' []"

definition on_service :: "('s \<Rightarrow> 'a \<times> 's) \<Rightarrow> 's dynamo_state \<Rightarrow> 'a \<times> 's dynamo_state" where
  "on_service f d = (let (x, s) = f (ds_service d) in (x, d\<lparr>ds_service := s\<rparr>))"

text \<open>\<open>load\<close> is \<^verbatim>\<open>LoadDefaultConfig\<close> and \<^verbatim>\<open>NewFromConfig\<close> together: a client for the options, or an error.\<close>

definition NewDynamoDBKVStore :: "(dynamo_options \<Rightarrow> 's dynamo_client res) \<Rightarrow> string \<Rightarrow> string \<Rightarrow> string \<Rightarrow> string \<Rightarrow> string \<Rightarrow>
    's \<Rightarrow> ('s dynamo_client \<times> 's dynamo_state) res \<times> 's" where
  "NewDynamoDBKVStore load region tableName endpoint accessKeyID secretAccessKey s =
     (if region = [] then (Inl (Errorf ''region is required'' []), s)
      else if tableName = [] then (Inl (Errorf ''table name is required'' []), s)
      else case load \<lparr>do_Region = region,
               do_Credentials = (if accessKeyID \<noteq> [] \<and> secretAccessKey \<noteq> [] then Some (accessKeyID, secretAccessKey) else None),
               do_BaseEndpoint = (if endpoint \<noteq> [] then Some endpoint else None)\<rparr> of
        Inl err \<Rightarrow> (Inl (Wrapf ''failed to load AWS config: %w'' [] err), s)
      | Inr client \<Rightarrow>
          (case dc_DescribeTable client tableName s of
             (Some err, s') \<Rightarrow> (Inl (Wrapf ''failed to connect to DynamoDB table %s: %w'' [tableName] err), s')
           | (None, s') \<Rightarrow> (Inr (client, \<lparr>ds_service = s', ds_tableName = tableName, ds_closed = False\<rparr>), s')))"

text \<open>\<^verbatim>\<open>fmt.Sscanf(s, "%d", &ttl)\<close>: white space, a sign and digits at the start of the text, 64 bits.\<close>

definition Sscanf_d :: "string \<Rightarrow> int option" where
  "Sscanf_d s0 =
     (let s = dropWhile (\<lambda>c. is_space c \<and> c \<noteq> CHR 0x0A) s0;
          (neg, ds) = (case s of [] \<Rightarrow> (False, [])
             | c # cs \<Rightarrow> if c = CHR ''-'' then (True, cs) else if c = CHR ''+'' then (False, cs) else (False, s));
          digits = takeWhile is_digit ds; v = (if neg then - int (digits_val digits) else int (digits_val digits))
      in if digits = [] \<or> v < - (2 ^ 63) \<or> 2 ^ 63 \<le> v then None else Some v)"

text \<open>The check of the attribute ttl, the same in \<^verbatim>\<open>Get\<close> and \<^verbatim>\<open>Exists\<close>: expired, and the clock after.\<close>

definition ttl_expired :: "('s \<Rightarrow> gotime \<times> 's) \<Rightarrow> item \<Rightarrow> 's dynamo_state \<Rightarrow> bool \<times> 's dynamo_state" where
  "ttl_expired now itm d =
     (case map_of itm ''ttl'' of
        Some (AttrN v) \<Rightarrow>
          (case Sscanf_d v of
             Some ttl \<Rightarrow> (let (t, d') = on_service now d in (ttl < unix_sec t, d'))
           | None \<Rightarrow> (False, d))
      | _ \<Rightarrow> (False, d))"

definition Dynamo_Get :: "'s dynamo_client \<Rightarrow> ('s \<Rightarrow> gotime \<times> 's) \<Rightarrow> string \<Rightarrow> 's dynamo_state \<Rightarrow> string res \<times> 's dynamo_state" where
  "Dynamo_Get c now key d =
     (if ds_closed d then (Inl dynamo_closed, d)
      else case on_service (dc_GetItem c (ds_tableName d) key None) d of
        (Inl err, d1) \<Rightarrow> (Inl (Wrapf ''failed to get key %s: %w'' [key] err), d1)
      | (Inr None, d1) \<Rightarrow> (Inl (Errorf ''key not found: %s'' [key]), d1)
      | (Inr (Some itm), d1) \<Rightarrow>
          (let (expired, d2) = ttl_expired now itm d1 in
           if expired then (Inl (Errorf ''key not found: %s'' [key]), d2)
           else (case map_of itm ''value'' of
                   None \<Rightarrow> (Inl (Errorf ''key not found: %s'' [key]), d2)
                 | Some (AttrB value) \<Rightarrow> (Inr value, d2)
                 | Some _ \<Rightarrow> (Inl (Errorf ''invalid value format for key %s'' [key]), d2))))"

text \<open>The item of a key: the readings of the clock are for \<^verbatim>\<open>created_at\<close> and, with a TTL, the deadline.\<close>

definition make_item :: "('s \<Rightarrow> gotime \<times> 's) \<Rightarrow> string \<Rightarrow> string \<Rightarrow> int \<Rightarrow> 's dynamo_state \<Rightarrow> item \<times> 's dynamo_state" where
  "make_item now key value ttl d =
     (let (t1, d1) = on_service now d;
          itm = [(''key'', AttrS key), (''value'', AttrB value), (''created_at'', AttrS (RFC3339 (time_Unix 0 ''UTC'' (unix_sec t1))))]
      in if 0 < ttl then
           (let (t2, d2) = on_service now d1; ttlTimestamp = (UnixNano t2 + ttl) div 1000000000
            in (gomap_set itm ''ttl'' (AttrN (show_int ttlTimestamp)), d2))
         else (itm, d1))"

definition Dynamo_Set :: "'s dynamo_client \<Rightarrow> ('s \<Rightarrow> gotime \<times> 's) \<Rightarrow> string \<Rightarrow> string \<Rightarrow> int \<Rightarrow> 's dynamo_state \<Rightarrow> gerror option \<times> 's dynamo_state" where
  "Dynamo_Set c now key value ttl d =
     (if ds_closed d then (Some dynamo_closed, d)
      else let (itm, d1) = make_item now key value ttl d in
        case on_service (dc_PutItem c (ds_tableName d) itm) d1 of
          (Some err, d2) \<Rightarrow> (Some (Wrapf ''failed to set key %s: %w'' [key] err), d2)
        | (None, d2) \<Rightarrow> (None, d2))"

definition Dynamo_Delete :: "'s dynamo_client \<Rightarrow> string \<Rightarrow> 's dynamo_state \<Rightarrow> gerror option \<times> 's dynamo_state" where
  "Dynamo_Delete c key d =
     (if ds_closed d then (Some dynamo_closed, d)
      else case on_service (dc_DeleteItem c (ds_tableName d) key) d of
        (Some err, d1) \<Rightarrow> (Some (Wrapf ''failed to delete key %s: %w'' [key] err), d1)
      | (None, d1) \<Rightarrow> (None, d1))"

definition Dynamo_Exists :: "'s dynamo_client \<Rightarrow> ('s \<Rightarrow> gotime \<times> 's) \<Rightarrow> string \<Rightarrow> 's dynamo_state \<Rightarrow> bool res \<times> 's dynamo_state" where
  "Dynamo_Exists c now key d =
     (if ds_closed d then (Inl dynamo_closed, d)
      else case on_service (dc_GetItem c (ds_tableName d) key (Some [''key''])) d of
        (Inl err, d1) \<Rightarrow> (Inl (Wrapf ''failed to check existence of key %s: %w'' [key] err), d1)
      | (Inr None, d1) \<Rightarrow> (Inr False, d1)
      | (Inr (Some itm), d1) \<Rightarrow> (let (expired, d2) = ttl_expired now itm d1 in (Inr (\<not> expired), d2)))"

definition maxBatchSize :: nat where
  "maxBatchSize = 25"

fun make_items :: "('s \<Rightarrow> gotime \<times> 's) \<Rightarrow> string gomap \<Rightarrow> int \<Rightarrow> 's dynamo_state \<Rightarrow> item list \<times> 's dynamo_state" where
  "make_items now [] ttl d = ([], d)"
| "make_items now ((key, value) # rest) ttl d =
     (let (itm, d1) = make_item now key value ttl d; (itms, d2) = make_items now rest ttl d1 in (itm # itms, d2))"

text \<open>The items a batch did not process are dropped with the output of the call, as in the code.\<close>

function write_batches :: "'s dynamo_client \<Rightarrow> item list \<Rightarrow> 's dynamo_state \<Rightarrow> gerror option \<times> 's dynamo_state" where
  "write_batches c allItems d =
     (if allItems = [] then (None, d)
      else case on_service (dc_BatchWriteItem c (ds_tableName d) (take maxBatchSize allItems)) d of
        (Inl err, d1) \<Rightarrow> (Some (Wrapf ''failed to batch set keys: %w'' [] err), d1)
      | (Inr unprocessed, d1) \<Rightarrow> write_batches c (drop maxBatchSize allItems) d1)"
  by pat_completeness auto
termination
  by (relation "measure (\<lambda>(_, xs, _). length xs)") (auto simp: maxBatchSize_def)

definition Dynamo_BatchSet :: "'s dynamo_client \<Rightarrow> ('s \<Rightarrow> gotime \<times> 's) \<Rightarrow> string gomap \<Rightarrow> int \<Rightarrow> 's dynamo_state \<Rightarrow> gerror option \<times> 's dynamo_state" where
  "Dynamo_BatchSet c now items ttl d =
     (if ds_closed d then (Some dynamo_closed, d)
      else if items = [] then (None, d)
      else let (allItems, d1) = make_items now items ttl d in write_batches c allItems d1)"

definition Dynamo_Close :: "'s dynamo_state \<Rightarrow> gerror option \<times> 's dynamo_state" where
  "Dynamo_Close d = (if ds_closed d then (None, d) else (None, d\<lparr>ds_closed := True\<rparr>))"

definition dynamo_kvstore :: "'s dynamo_client \<Rightarrow> ('s \<Rightarrow> gotime \<times> 's) \<Rightarrow> 's dynamo_state kvstore" where
  "dynamo_kvstore c now = \<lparr>kv_Get = Dynamo_Get c now, kv_Set = Dynamo_Set c now, kv_Delete = Dynamo_Delete c,
     kv_Exists = Dynamo_Exists c now, kv_BatchSet = Dynamo_BatchSet c now, kv_Close = Dynamo_Close\<rparr>"

section \<open>Factory and validator\<close>

definition Dynamo_Validate :: "KVStoreConfig \<Rightarrow> gerror option" where
  "Dynamo_Validate config =
     (if kvc_Type config \<noteq> ''dynamodb'' then Some (Errorf ''invalid type for DynamoDB factory: %s'' [kvc_Type config])
      else if kvc_Region config = [] then Some (Errorf ''region is required for DynamoDB'' [])
      else if kvc_TableName config = [] then Some (Errorf ''table_name is required for DynamoDB'' [])
      else None)"

definition Dynamo_Create :: "(dynamo_options \<Rightarrow> 's dynamo_client res) \<Rightarrow> KVStoreConfig \<Rightarrow> 's \<Rightarrow> ('s dynamo_client \<times> 's dynamo_state) res \<times> 's" where
  "Dynamo_Create load config s =
     (case NewDynamoDBKVStore load (kvc_Region config) (kvc_TableName config) (kvc_Endpoint config)
             (kvc_AccessKeyID config) (kvc_SecretAccessKey config) s of
        (Inl err, s') \<Rightarrow> (Inl (Wrapf ''failed to create DynamoDB KV store: %w'' [] err), s')
      | (Inr dynamoStore, s') \<Rightarrow> (Inr dynamoStore, s'))"

definition DynamoConfig_Validate :: "InternalConfig option \<Rightarrow> gerror option" where
  "DynamoConfig_Validate config =
     (case config of None \<Rightarrow> Some (Errorf ''config cannot be nil'' []) | Some cfg \<Rightarrow>
      let kvConfig = ic_KVStore cfg; dynamoConfig = ikv_DynamoDBConfig kvConfig in
      if ikv_Type kvConfig \<noteq> ''dynamodb'' then Some (Errorf ''invalid type for DynamoDB validator: %s'' [ikv_Type kvConfig])
      else if idc_Region dynamoConfig = [] then Some (Errorf ''region is required for DynamoDB'' [])
      else if idc_TableName dynamoConfig = [] then Some (Errorf ''table_name is required for DynamoDB'' [])
      else if ikv_DialTimeout kvConfig \<le> 0 then Some (Errorf ''dial_timeout must be greater than 0, got: %v'' [show_int (ikv_DialTimeout kvConfig)])
      else if ikv_ReadTimeout kvConfig \<le> 0 then Some (Errorf ''read_timeout must be greater than 0, got: %v'' [show_int (ikv_ReadTimeout kvConfig)])
      else if ikv_WriteTimeout kvConfig \<le> 0 then Some (Errorf ''write_timeout must be greater than 0, got: %v'' [show_int (ikv_WriteTimeout kvConfig)])
      else if ikv_MaxRetries kvConfig < 0 then Some (Errorf ''max_retries must be non-negative, got: %d'' [show_int (ikv_MaxRetries kvConfig)])
      else None)"

lemma Sscanf_show_int: "Sscanf_d (show_int i) = (if i < - (2 ^ 63) \<or> 2 ^ 63 \<le> i then None else Some i)"
proof -
  have d: "takeWhile is_digit (show_nat n) = show_nat n" for n
    using show_nat_digits [of n] by (simp add: takeWhile_eq_all_conv list_all_iff)
  obtain c cs where c: "show_nat (nat i) = c # cs" "is_digit c" using show_nat_Cons by blast
  have c': "\<not> is_space c" "c \<noteq> CHR ''-''" "c \<noteq> CHR ''+''" using c(2) by (auto simp: is_digit_def is_space_def)
  have m: "\<not> is_space CHR ''-''" by (simp add: is_space_def)
  show ?thesis
  proof (cases "i < 0")
    case True
    then show ?thesis by (simp add: Sscanf_d_def show_int_def d m) linarith
  next
    case False
    have e: "show_int i = c # cs" using False c(1) by (simp add: show_int_def)
    have t: "takeWhile is_digit (c # cs) = c # cs" using d [of "nat i"] c(1) by simp
    have v: "int (digits_val (c # cs)) = i" using c(1) False by (metis digits_val_show_nat int_nat_eq linorder_not_less)
    have "\<not> i < - (2 ^ 63)" using False by simp
    then show ?thesis unfolding Sscanf_d_def e using c' by (simp add: t v Let_def del: takeWhile.simps) (use v in linarith)
  qed
qed

section \<open>The service's documented behaviour\<close>

text \<open>
  \<open>items\<close> is what the service holds: the item of a key in a table. A read returns the attributes that
  the projection names, all of them without one. A write that fails may or may not have been
  applied. Reading the clock changes nothing, and time moves between the calls of the store.
\<close>

definition project :: "string list option \<Rightarrow> item \<Rightarrow> item" where
  "project proj itm = (case proj of None \<Rightarrow> itm | Some ps \<Rightarrow> filter (\<lambda>(a, _). a \<in> set ps) itm)"

definition item_expired :: "gotime \<Rightarrow> item \<Rightarrow> bool" where
  "item_expired t itm =
     (case map_of itm ''ttl'' of
        Some (AttrN v) \<Rightarrow> (case Sscanf_d v of Some ttl \<Rightarrow> ttl < unix_sec t | None \<Rightarrow> False)
      | _ \<Rightarrow> False)"

locale dynamo_laws =
  fixes c :: "'s dynamo_client"
    and items :: "'s \<Rightarrow> string \<Rightarrow> string \<Rightarrow> item option"
    and clk :: "'s \<Rightarrow> gotime"
    and now :: "'s \<Rightarrow> gotime \<times> 's"
  assumes GetItem: "dc_GetItem c tbl k proj s = (r, s') \<Longrightarrow> items s' = items s \<and> clk s' = clk s \<and>
      (\<forall>x. r = Inr x \<longrightarrow> map_option map_of x = map_option (\<lambda>i. map_of (project proj i)) (items s tbl k))"
    and PutItem: "dc_PutItem c tbl itm s = (e, s') \<Longrightarrow> map_of itm ''key'' = Some (AttrS k) \<Longrightarrow> clk s' = clk s \<and>
      (items s' = (items s)(tbl := (items s tbl)(k \<mapsto> itm)) \<or> e \<noteq> None \<and> items s' = items s)"
    and DeleteItem: "dc_DeleteItem c tbl k s = (e, s') \<Longrightarrow> clk s' = clk s \<and>
      (items s' = (items s)(tbl := (items s tbl)(k := None)) \<or> e \<noteq> None \<and> items s' = items s)"
    and now: "now s = (t, s') \<Longrightarrow> t = clk s \<and> clk s' = clk s \<and> items s' = items s"
begin

definition dynamo_content :: "'s dynamo_state \<Rightarrow> string \<Rightarrow> string option" where
  "dynamo_content d k =
     (case items (ds_service d) (ds_tableName d) k of
        None \<Rightarrow> None
      | Some itm \<Rightarrow> (if item_expired (clk (ds_service d)) itm then None
                     else (case map_of itm ''value'' of Some (AttrB v) \<Rightarrow> Some v | _ \<Rightarrow> None)))"

lemma on_service_now:
  assumes "on_service now d = (t, d')"
  shows "t = clk (ds_service d)" "clk (ds_service d') = clk (ds_service d)" "items (ds_service d') = items (ds_service d)"
    "ds_tableName d' = ds_tableName d" "ds_closed d' = ds_closed d"
  using assms now [of "ds_service d"] by (auto simp: on_service_def Let_def split: prod.splits)

lemma ttl_expired_eq:
  assumes "ttl_expired now itm d = (b, d')" and "map_of itm = map_of i"
  shows "b = item_expired (clk (ds_service d)) i \<and> clk (ds_service d') = clk (ds_service d) \<and>
    items (ds_service d') = items (ds_service d) \<and> ds_tableName d' = ds_tableName d \<and> ds_closed d' = ds_closed d"
  using assms
  by (auto simp: ttl_expired_def item_expired_def Let_def split: option.splits attribute_value.splits prod.splits
      dest: on_service_now)

text \<open>The deadline that a store with a TTL writes is not over at the moment it is written.\<close>

lemma make_item_fresh:
  assumes "make_item now k v ttl d = (itm, d')"
  shows "map_of itm ''key'' = Some (AttrS k)" "map_of itm ''value'' = Some (AttrB v)"
    "\<not> item_expired (clk (ds_service d)) itm" "clk (ds_service d') = clk (ds_service d)"
    "items (ds_service d') = items (ds_service d)" "ds_tableName d' = ds_tableName d" "ds_closed d' = ds_closed d"
proof -
  obtain t1 d1 where d1: "on_service now d = (t1, d1)" by (cases "on_service now d")
  obtain t2 d2 where d2: "on_service now d1 = (t2, d2)" by (cases "on_service now d1")
  let ?dl = "(UnixNano (clk (ds_service d)) + ttl) div 1000000000"
  have "0 < ttl \<Longrightarrow> unix_sec (clk (ds_service d)) \<le> ?dl"
    unfolding UnixNano_def by simp
  then have "\<not> item_expired (clk (ds_service d)) itm"
    using assms d1 d2 on_service_now [OF d1] on_service_now [OF d2]
    by (auto simp: make_item_def item_expired_def Sscanf_show_int Let_def split: if_splits)
  then show "map_of itm ''key'' = Some (AttrS k)" "map_of itm ''value'' = Some (AttrB v)"
    "\<not> item_expired (clk (ds_service d)) itm" "clk (ds_service d') = clk (ds_service d)"
    "items (ds_service d') = items (ds_service d)" "ds_tableName d' = ds_tableName d" "ds_closed d' = ds_closed d"
    using assms d1 d2 on_service_now [OF d1] on_service_now [OF d2]
    by (auto simp: make_item_def Let_def split: if_splits)
qed

lemma dynamo_keeps_contract: "kv_contract (dynamo_kvstore c now) dynamo_content (\<lambda>d. \<not> ds_closed d)"
proof
  fix w k r w'
  assume w: "\<not> ds_closed w" "kv_Get (dynamo_kvstore c now) k w = (r, w')"
  obtain g s1 where g: "dc_GetItem c (ds_tableName w) k None (ds_service w) = (g, s1)"
    by (cases "dc_GetItem c (ds_tableName w) k None (ds_service w)")
  let ?d1 = "w\<lparr>ds_service := s1\<rparr>"
  have l: "items s1 = items (ds_service w)" "clk s1 = clk (ds_service w)"
    "\<forall>x. g = Inr x \<longrightarrow> map_option map_of x = map_option map_of (items (ds_service w) (ds_tableName w) k)"
    using GetItem [OF g] by (auto simp: project_def)
  show "\<not> ds_closed w' \<and> dynamo_content w' = dynamo_content w \<and> (\<forall>v. r = Inr v \<longrightarrow> dynamo_content w k = Some v)"
  proof (cases "\<exists>itm. g = Inr (Some itm)")
    case False
    then show ?thesis using w g l
      by (auto simp: dynamo_kvstore_def Dynamo_Get_def on_service_def dynamo_content_def fun_eq_iff split: sum.splits option.splits)
  next
    case True
    then obtain itm where itm: "g = Inr (Some itm)" by blast
    then obtain i where i: "items (ds_service w) (ds_tableName w) k = Some i" "map_of itm = map_of i" using l(3)
      by (cases "items (ds_service w) (ds_tableName w) k") auto
    obtain b d2 where b: "ttl_expired now itm ?d1 = (b, d2)" by (cases "ttl_expired now itm ?d1")
    note e = ttl_expired_eq [OF b i(2)]
    have "dynamo_content d2 = dynamo_content w" using e l by (intro ext) (simp add: dynamo_content_def split: option.split)
    then show ?thesis using w g itm b e i l
      by (auto simp: dynamo_kvstore_def Dynamo_Get_def on_service_def dynamo_content_def
          split: option.splits attribute_value.splits if_splits)
  qed
next
  fix w k v ttl e w'
  assume w: "\<not> ds_closed w" "kv_Set (dynamo_kvstore c now) k v ttl w = (e, w')"
  obtain itm d1 where m: "make_item now k v ttl w = (itm, d1)" by (cases "make_item now k v ttl w")
  note f = make_item_fresh [OF m]
  obtain p s2 where p: "dc_PutItem c (ds_tableName w) itm (ds_service d1) = (p, s2)"
    by (cases "dc_PutItem c (ds_tableName w) itm (ds_service d1)")
  have w': "w' = d1\<lparr>ds_service := s2\<rparr>" "e = None \<longleftrightarrow> p = None"
    using w m p by (auto simp: dynamo_kvstore_def Dynamo_Set_def on_service_def split: option.splits)
  have "dynamo_content w' = (dynamo_content w)(k \<mapsto> v)"
    if "items s2 = (items (ds_service d1))(ds_tableName w := (items (ds_service d1) (ds_tableName w))(k \<mapsto> itm))"
    using that PutItem [OF p f(1)] f w'(1) by (intro ext) (auto simp: dynamo_content_def split: option.split)
  moreover have "dynamo_content w' = dynamo_content w" if "items s2 = items (ds_service d1)"
    using that PutItem [OF p f(1)] f w'(1) by (intro ext) (auto simp: dynamo_content_def split: option.split)
  ultimately show "\<not> ds_closed w' \<and>
      (dynamo_content w' = (dynamo_content w)(k \<mapsto> v) \<or> e \<noteq> None \<and> dynamo_content w' = dynamo_content w)"
    using PutItem [OF p f(1)] f(7) w' w(1) by auto
next
  fix w k e w'
  assume w: "\<not> ds_closed w" "kv_Delete (dynamo_kvstore c now) k w = (e, w')"
  obtain p s1 where p: "dc_DeleteItem c (ds_tableName w) k (ds_service w) = (p, s1)"
    by (cases "dc_DeleteItem c (ds_tableName w) k (ds_service w)")
  have w': "w' = w\<lparr>ds_service := s1\<rparr>" "e = None \<longleftrightarrow> p = None"
    using w p by (auto simp: dynamo_kvstore_def Dynamo_Delete_def on_service_def split: option.splits)
  have "dynamo_content w' = (dynamo_content w)(k := None)"
    if "items s1 = (items (ds_service w))(ds_tableName w := (items (ds_service w) (ds_tableName w))(k := None))"
    using that DeleteItem [OF p] w'(1) by (intro ext) (auto simp: dynamo_content_def split: option.split)
  moreover have "dynamo_content w' = dynamo_content w" if "items s1 = items (ds_service w)"
    using that DeleteItem [OF p] w'(1) by (intro ext) (auto simp: dynamo_content_def split: option.split)
  ultimately show "\<not> ds_closed w' \<and>
      (dynamo_content w' = (dynamo_content w)(k := None) \<or> e \<noteq> None \<and> dynamo_content w' = dynamo_content w)"
    using DeleteItem [OF p] w' w(1) by auto
qed

end

sublocale dynamo_laws \<subseteq> dkv: kv_contract "dynamo_kvstore c now" dynamo_content "\<lambda>d. \<not> ds_closed d"
  by (rule dynamo_keeps_contract)

section \<open>A service that keeps the laws\<close>

record dynamo_ref =
  dr_items :: "((string \<times> string) \<times> item) list"
  dr_clock :: gotime

definition dref_items :: "dynamo_ref \<Rightarrow> string \<Rightarrow> string \<Rightarrow> item option" where
  "dref_items s tbl k = map_of (dr_items s) (tbl, k)"

definition item_key :: "item \<Rightarrow> string" where
  "item_key itm = (case map_of itm ''key'' of Some (AttrS k) \<Rightarrow> k | _ \<Rightarrow> [])"

definition dref_put :: "string \<Rightarrow> item \<Rightarrow> dynamo_ref \<Rightarrow> dynamo_ref" where
  "dref_put tbl itm s = s\<lparr>dr_items := AList.update (tbl, item_key itm) itm (dr_items s)\<rparr>"

definition dref_client :: "dynamo_ref dynamo_client" where
  "dref_client = \<lparr>
     dc_GetItem = (\<lambda>tbl k proj s. (Inr (map_option (project proj) (dref_items s tbl k)), s)),
     dc_PutItem = (\<lambda>tbl itm s. (None, dref_put tbl itm s)),
     dc_DeleteItem = (\<lambda>tbl k s. (None, s\<lparr>dr_items := AList.delete (tbl, k) (dr_items s)\<rparr>)),
     dc_BatchWriteItem = (\<lambda>tbl itms s. (Inr [], fold (dref_put tbl) itms s)),
     dc_DescribeTable = (\<lambda>tbl s. (None, s))\<rparr>"

definition dref_now :: "dynamo_ref \<Rightarrow> gotime \<times> dynamo_ref" where
  "dref_now s = (dr_clock s, s)"

interpretation dref: dynamo_laws dref_client dref_items dr_clock dref_now
proof qed (auto simp: dref_client_def dref_items_def dref_put_def dref_now_def item_key_def update_conv' delete_conv'
    fun_eq_iff option.map_comp o_def)

section \<open>Properties\<close>

text \<open>
  \<^verbatim>\<open>Exists\<close> of the DynamoDB store ignores expiry. It reads only the attribute key, so the attribute
  ttl is never in the item it checks: with a service that honours projections, a key whose item is
  present is reported to exist even when its deadline has passed and \<^verbatim>\<open>Get\<close> reports it as missing.
\<close>

theorem dynamo_exists_ignores_ttl:
  assumes "dynamo_laws c items clk now" and "\<not> ds_closed d"
    and "items (ds_service d) (ds_tableName d) k = Some itm"
    and "kv_Exists (dynamo_kvstore c now) k d = (Inr b, d')"
  shows "b"
proof -
  obtain g s1 where g: "dc_GetItem c (ds_tableName d) k (Some [''key'']) (ds_service d) = (g, s1)"
    by (cases "dc_GetItem c (ds_tableName d) k (Some [''key'']) (ds_service d)")
  obtain x where x: "g = Inr x" using assms(2,4) g
    by (cases g) (auto simp: dynamo_kvstore_def Dynamo_Exists_def on_service_def)
  then obtain i where i: "x = Some i" "map_of i = map_of (project (Some [''key'']) itm)"
    using dynamo_laws.GetItem [OF assms(1) g] assms(3) by auto
  have "map_of (project (Some [''key'']) itm) ''ttl'' = None"
    by (auto simp: project_def map_of_eq_None_iff)
  with i have "map_of i ''ttl'' = None" by simp
  then show ?thesis using assms(2,4) g x i(1)
    by (auto simp: dynamo_kvstore_def Dynamo_Exists_def on_service_def ttl_expired_def)
qed

definition ex_expired :: "dynamo_ref dynamo_state" where
  "ex_expired = \<lparr>ds_service = \<lparr>dr_items = [((''cache'', ''k''), [(''key'', AttrS ''k''), (''value'', AttrB ''v''), (''ttl'', AttrN ''5'')])],
     dr_clock = time_Unix 0 ''UTC'' 100\<rparr>, ds_tableName = ''cache'', ds_closed = False\<rparr>"

theorem dynamo_exists_ignores_ttl_witness:
  "fst (kv_Exists (dynamo_kvstore dref_client dref_now) ''k'' ex_expired) = Inr True \<and>
   fst (kv_Get (dynamo_kvstore dref_client dref_now) ''k'' ex_expired) = Inl (Errorf ''key not found: %s'' [''k''])"
proof
  have "fst (kv_Exists (dynamo_kvstore dref_client dref_now) ''k'' ex_expired) = Inr True" by code_simp
  then obtain b d' where e: "kv_Exists (dynamo_kvstore dref_client dref_now) ''k'' ex_expired = (Inr b, d')"
    by (metis prod.collapse)
  have o: "\<not> ds_closed ex_expired" by (simp add: ex_expired_def)
  have i: "dref_items (ds_service ex_expired) (ds_tableName ex_expired) ''k'' =
      Some [(''key'', AttrS ''k''), (''value'', AttrB ''v''), (''ttl'', AttrN ''5'')]" by code_simp
  from dynamo_exists_ignores_ttl [OF dref.dynamo_laws_axioms o i e] e
  show "fst (kv_Exists (dynamo_kvstore dref_client dref_now) ''k'' ex_expired) = Inr True" by simp
  show "fst (kv_Get (dynamo_kvstore dref_client dref_now) ''k'' ex_expired) = Inl (Errorf ''key not found: %s'' [''k''])"
    by code_simp
qed

end
