(* ===== verification/Write_WAL.thy ===== *)
theory Write_WAL
  imports Core_Types
begin

text \<open>
  \<^verbatim>\<open>internal/write/wal.go\<close>: the write-ahead log kept in the key-value store. The clock is the
  argument \<open>now\<close>, an operation on the state like any other call to the outside. \<^verbatim>\<open>Append\<close> fills in
  the fields of the operation it is given, so it returns the operation with its result.
\<close>

section \<open>Operations\<close>

record wal_op =
  wal_OperationID :: string
  wal_Table :: string
  wal_Operation :: string
  wal_Key :: goval
  wal_Data :: "grecord option"
  wal_Timestamp :: gotime
  wal_KeyValue :: string
  wal_Value :: "string option"

record WALManager =
  wal_prefix :: string

definition NewWALManager :: "string \<Rightarrow> WALManager" where
  "NewWALManager prefix = \<lparr>wal_prefix = (if prefix = [] then ''wal'' else prefix)\<rparr>"

subsection \<open>The JSON codec of WALOperation\<close>

definition wal_op_json :: "wal_op \<Rightarrow> json res" where
  "wal_op_json op =
     (case to_json (wal_Key op) of Inl e \<Rightarrow> Inl e | Inr jk \<Rightarrow>
     (case (case wal_Data op of None \<Rightarrow> Inr JNull | Some m \<Rightarrow> to_json (VMap m)) of Inl e \<Rightarrow> Inl e | Inr jd \<Rightarrow>
     (case json_time (wal_Timestamp op) of Inl e \<Rightarrow> Inl e | Inr jt \<Rightarrow>
        Inr (JObj [(''OperationID'', JStr (wal_OperationID op)), (''Table'', JStr (wal_Table op)),
          (''Operation'', JStr (wal_Operation op)), (''Key'', jk), (''Data'', jd), (''Timestamp'', jt),
          (''KeyValue'', JStr (wal_KeyValue op)),
          (''Value'', (case wal_Value op of None \<Rightarrow> JNull | Some b \<Rightarrow> JStr (base64 b)))]))))"

definition wal_type_error :: "string \<Rightarrow> gerror" where
  "wal_type_error field = Errorf ''json: cannot unmarshal into Go struct field WALOperation'' [field]"

definition str_member :: "string \<Rightarrow> json \<Rightarrow> (string \<Rightarrow> wal_op) \<Rightarrow> wal_op \<Rightarrow> wal_op res" where
  "str_member field j upd op =
     (case j of JStr s \<Rightarrow> Inr (upd s) | JNull \<Rightarrow> Inr op | _ \<Rightarrow> Inl (wal_type_error field))"

definition wal_op_member :: "string \<times> json \<Rightarrow> wal_op \<Rightarrow> wal_op res" where
  "wal_op_member m op =
     (let f = ToLower (fst m); j = snd m in
      if f = ''operationid'' then str_member ''OperationID'' j (\<lambda>s. op\<lparr>wal_OperationID := s\<rparr>) op
      else if f = ''table'' then str_member ''Table'' j (\<lambda>s. op\<lparr>wal_Table := s\<rparr>) op
      else if f = ''operation'' then str_member ''Operation'' j (\<lambda>s. op\<lparr>wal_Operation := s\<rparr>) op
      else if f = ''key'' then
        (case from_json j of Inl e \<Rightarrow> Inl e | Inr v \<Rightarrow> Inr (op\<lparr>wal_Key := v\<rparr>))
      else if f = ''data'' then
        (case from_json j of Inl e \<Rightarrow> Inl e
         | Inr (VMap d) \<Rightarrow> Inr (op\<lparr>wal_Data := Some (case wal_Data op of None \<Rightarrow> d | Some d0 \<Rightarrow> gomap_of (d0 @ d))\<rparr>)
         | Inr VNil \<Rightarrow> Inr (op\<lparr>wal_Data := None\<rparr>)
         | Inr _ \<Rightarrow> Inl (wal_type_error ''Data''))
      else if f = ''timestamp'' then
        (case j of JNull \<Rightarrow> Inr op
         | JStr s \<Rightarrow> (case time_Parse Layout_RFC3339 s of
                        None \<Rightarrow> Inl (Errorf ''parsing time'' [s]) | Some t \<Rightarrow> Inr (op\<lparr>wal_Timestamp := t\<rparr>))
         | _ \<Rightarrow> Inl (Errorf ''Time.UnmarshalJSON: input is not a JSON string'' []))
      else if f = ''keyvalue'' then str_member ''KeyValue'' j (\<lambda>s. op\<lparr>wal_KeyValue := s\<rparr>) op
      else if f = ''value'' then
        (case j of JNull \<Rightarrow> Inr (op\<lparr>wal_Value := None\<rparr>)
         | JStr s \<Rightarrow> (case unbase64 s of None \<Rightarrow> Inl (Errorf ''illegal base64 data'' []) | Some b \<Rightarrow> Inr (op\<lparr>wal_Value := Some b\<rparr>))
         | _ \<Rightarrow> Inl (wal_type_error ''Value''))
      else Inr op)"

fun wal_op_members :: "(string \<times> json) list \<Rightarrow> wal_op \<Rightarrow> wal_op res" where
  "wal_op_members [] op = Inr op"
| "wal_op_members (m # ms) op =
     (case wal_op_member m op of Inl e \<Rightarrow> Inl e | Inr op' \<Rightarrow> wal_op_members ms op')"

definition zero_wal_op :: wal_op where
  "zero_wal_op = \<lparr>wal_OperationID = [], wal_Table = [], wal_Operation = [], wal_Key = VNil, wal_Data = None,
     wal_Timestamp = zero_time, wal_KeyValue = [], wal_Value = None\<rparr>"

definition marshal_wal_op :: "wal_op \<Rightarrow> string res" where
  "marshal_wal_op op = (case wal_op_json op of Inl e \<Rightarrow> Inl e | Inr j \<Rightarrow> Inr (print_json j))"

definition unmarshal_wal_op :: "string \<Rightarrow> wal_op res" where
  "unmarshal_wal_op s =
     (case parse_json s of
        None \<Rightarrow> Inl json_syntax_error
      | Some JNull \<Rightarrow> Inr zero_wal_op
      | Some (JObj ms) \<Rightarrow> wal_op_members ms zero_wal_op
      | Some _ \<Rightarrow> Inl (Errorf ''json: cannot unmarshal into Go value of type write.WALOperation'' []))"

subsection \<open>The log\<close>

definition generateOperationID :: "string \<Rightarrow> goval \<Rightarrow> gotime \<Rightarrow> string" where
  "generateOperationID tbl key t = tbl @ ''_'' @ show_v key @ ''_'' @ show_int (UnixNano t)"

definition walEntryKey :: "WALManager \<Rightarrow> string \<Rightarrow> string \<Rightarrow> string" where
  "walEntryKey wm tbl opid = wal_prefix wm @ '':'' @ tbl @ '':entry:'' @ opid"

definition timestampKey :: "WALManager \<Rightarrow> string \<Rightarrow> gotime \<Rightarrow> string \<Rightarrow> string" where
  "timestampKey wm tbl t opid = wal_prefix wm @ '':'' @ tbl @ '':timestamp:'' @ show_int (UnixNano t) @ '':'' @ opid"

definition ackKey :: "WALManager \<Rightarrow> string \<Rightarrow> string \<Rightarrow> string" where
  "ackKey wm tbl opid = wal_prefix wm @ '':'' @ tbl @ '':ack:'' @ opid"

definition hour :: int where
  "hour = 3600 * 1000000000"

text \<open>The identifier and the time of an operation that comes without them.\<close>

definition fill_fields :: "('w \<Rightarrow> gotime \<times> 'w) \<Rightarrow> wal_op \<Rightarrow> 'w \<Rightarrow> wal_op \<times> 'w" where
  "fill_fields now op w0 =
     (let (op1, w1) = (if wal_OperationID op = [] then
                         (let (t, w) = now w0 in (op\<lparr>wal_OperationID := generateOperationID (wal_Table op) (wal_Key op) t\<rparr>, w))
                       else (op, w0))
      in if IsZero (wal_Timestamp op1) then (let (t, w) = now w1 in (op1\<lparr>wal_Timestamp := t\<rparr>, w)) else (op1, w1))"

definition Append :: "'w kvstore \<Rightarrow> ('w \<Rightarrow> gotime \<times> 'w) \<Rightarrow> WALManager \<Rightarrow> wal_op \<Rightarrow> 'w \<Rightarrow> (gerror option \<times> wal_op) \<times> 'w" where
  "Append kv now wm op0 w0 =
     (let (op, w1) = fill_fields now op0 w0 in
      case marshal_wal_op op of
        Inl err \<Rightarrow> ((Some (Wrapf ''failed to marshal WAL operation: %w'' [] err), op), w1)
      | Inr opData \<Rightarrow>
          (let ttl = 24 * hour in
           case kv_Set kv (walEntryKey wm (wal_Table op) (wal_OperationID op)) opData ttl w1 of
             (Some err, w2) \<Rightarrow> ((Some (Wrapf ''failed to store WAL entry: %w'' [] err), op), w2)
           | (None, w2) \<Rightarrow>
               (case kv_Set kv (timestampKey wm (wal_Table op) (wal_Timestamp op) (wal_OperationID op))
                       (wal_OperationID op) ttl w2 of
                  (Some err, w3) \<Rightarrow> ((Some (Wrapf ''failed to store WAL timestamp index: %w'' [] err), op), w3)
                | (None, w3) \<Rightarrow> ((None, op), w3))))"

definition WAL_Get :: "'w kvstore \<Rightarrow> WALManager \<Rightarrow> string \<Rightarrow> string \<Rightarrow> 'w \<Rightarrow> wal_op res \<times> 'w" where
  "WAL_Get kv wm tbl opid w =
     (case kv_Get kv (walEntryKey wm tbl opid) w of
        (Inl err, w') \<Rightarrow> (Inl (Wrapf ''failed to get WAL entry: %w'' [] err), w')
      | (Inr d, w') \<Rightarrow>
          (case unmarshal_wal_op d of
             Inl err \<Rightarrow> (Inl (Wrapf ''failed to unmarshal WAL operation: %w'' [] err), w')
           | Inr op \<Rightarrow> (Inr op, w')))"

definition Acknowledge :: "'w kvstore \<Rightarrow> WALManager \<Rightarrow> string \<Rightarrow> string \<Rightarrow> 'w \<Rightarrow> gerror option \<times> 'w" where
  "Acknowledge kv wm tbl opid w =
     (case kv_Set kv (ackKey wm tbl opid) ''1'' (7 * 24 * hour) w of
        (Some err, w') \<Rightarrow> (Some (Wrapf ''failed to acknowledge WAL entry: %w'' [] err), w')
      | (None, w') \<Rightarrow> (None, w'))"

definition IsAcknowledged :: "'w kvstore \<Rightarrow> WALManager \<Rightarrow> string \<Rightarrow> string \<Rightarrow> 'w \<Rightarrow> bool res \<times> 'w" where
  "IsAcknowledged kv wm tbl opid w =
     (case kv_Exists kv (ackKey wm tbl opid) w of
        (Inl err, w') \<Rightarrow> (Inl (Wrapf ''failed to check WAL acknowledgment: %w'' [] err), w')
      | (Inr b, w') \<Rightarrow> (Inr b, w'))"

section \<open>What an entry becomes on its way through the codec\<close>

definition wal_plain :: "wal_op \<Rightarrow> bool" where
  "wal_plain op \<longleftrightarrow> utf8_valid (wal_OperationID op) \<and> utf8_valid (wal_Table op) \<and> utf8_valid (wal_Operation op) \<and>
     json_plain (wal_Key op) \<and> (case wal_Data op of None \<Rightarrow> True | Some m \<Rightarrow> json_plain (VMap m)) \<and>
     time_ok (wal_Timestamp op) \<and> utf8_valid (wal_KeyValue op)"

definition wal_image :: "wal_op \<Rightarrow> wal_op" where
  "wal_image op = op\<lparr>wal_Key := json_image (wal_Key op), wal_Data := map_option map_image (wal_Data op)\<rparr>"

section \<open>Lemmas\<close>

lemma ToLower_wal_fields:
  "ToLower ''OperationID'' = ''operationid''" "ToLower ''Table'' = ''table''" "ToLower ''Operation'' = ''operation''"
  "ToLower ''Key'' = ''key''" "ToLower ''Data'' = ''data''" "ToLower ''Timestamp'' = ''timestamp''"
  "ToLower ''KeyValue'' = ''keyvalue''" "ToLower ''Value'' = ''value''"
  by code_simp+

lemma json_plain_data:
  assumes "case d of None \<Rightarrow> True | Some m \<Rightarrow> json_plain (VMap m)"
  obtains jd where "(case d of None \<Rightarrow> Inr JNull | Some m \<Rightarrow> to_json (VMap m)) = Inr jd" "json_ok jd"
    "from_json jd = Inr (case d of None \<Rightarrow> VNil | Some m \<Rightarrow> VMap (map_image m))"
proof (cases d)
  case None
  then show ?thesis using that [of JNull] by simp
next
  case (Some m)
  then have "json_plain (VMap m)" using assms by simp
  then obtain j where "to_json (VMap m) = Inr j" "json_ok j" "from_json j = Inr (json_image (VMap m))"
    by (rule json_plainE)
  then show ?thesis using that [of j] Some by (simp add: map_image_def)
qed

lemma unmarshal_marshal_wal_op:
  assumes "wal_plain op"
  shows "\<exists>s. marshal_wal_op op = Inr s \<and> unmarshal_wal_op s = Inr (wal_image op)"
proof -
  have p: "json_plain (wal_Key op)" "time_ok (wal_Timestamp op)" "utf8_valid (wal_Table op)" "utf8_valid (wal_Operation op)"
    "utf8_valid (wal_OperationID op)" "utf8_valid (wal_KeyValue op)"
    "case wal_Data op of None \<Rightarrow> True | Some m \<Rightarrow> json_plain (VMap m)"
    using assms by (auto simp: wal_plain_def)
  obtain jk where jk: "to_json (wal_Key op) = Inr jk" "json_ok jk" "from_json jk = Inr (json_image (wal_Key op))"
    using p(1) by (rule json_plainE)
  obtain jd where jd: "(case wal_Data op of None \<Rightarrow> Inr JNull | Some m \<Rightarrow> to_json (VMap m)) = Inr jd" "json_ok jd"
    "from_json jd = Inr (case wal_Data op of None \<Rightarrow> VNil | Some m \<Rightarrow> VMap (map_image m))"
    using p(7) by (rule json_plain_data)
  let ?jv = "case wal_Value op of None \<Rightarrow> JNull | Some b \<Rightarrow> JStr (base64 b)"
  let ?ms = "[(''OperationID'', JStr (wal_OperationID op)), (''Table'', JStr (wal_Table op)),
          (''Operation'', JStr (wal_Operation op)), (''Key'', jk), (''Data'', jd),
          (''Timestamp'', JStr (RFC3339Nano (wal_Timestamp op))), (''KeyValue'', JStr (wal_KeyValue op)), (''Value'', ?jv)]"
  have j: "wal_op_json op = Inr (JObj ?ms)"
    using jk(1) jd(1) p(2) by (simp add: wal_op_json_def json_time_ok)
  have ok: "json_ok (JObj ?ms)"
    using jk(2) jd(2) p by (simp add: utf8_valid_ascii utf8_RFC3339Nano utf8_base64 split: option.split)
  have "wal_op_members ?ms zero_wal_op = Inr (wal_image op)"
    using jk(3) jd(3) p(2)
    by (cases "wal_Data op"; cases "wal_Value op")
      (auto simp: wal_op_member_def str_member_def ToLower_wal_fields zero_wal_op_def wal_image_def
        time_Parse_RFC3339Nano unbase64_base64 Let_def)
  moreover have "parse_json (print_json (JObj ?ms)) = Some (JObj ?ms)"
    using ok by (rule parse_json_print)
  ultimately show ?thesis
    unfolding marshal_wal_op_def unmarshal_wal_op_def j
    by (intro exI [of _ "print_json (JObj ?ms)"]) (simp only: sum.case option.case json.case simp_thms)
qed

lemma entry_not_timestamp: "walEntryKey wm t i \<noteq> timestampKey wm t ts j"
  by (simp add: walEntryKey_def timestampKey_def)

section \<open>The log over a store that keeps its contract\<close>

locale wal_store = kv_contract +
  fixes now :: "'a \<Rightarrow> gotime \<times> 'a"
  assumes clock: "ok w \<Longrightarrow> now w = (t, w') \<Longrightarrow> ok w' \<and> content w' = content w"
begin

lemma fill_ok: "ok w \<Longrightarrow> fill_fields now op w = (op', w') \<Longrightarrow> ok w' \<and> content w' = content w"
  by (auto simp: fill_fields_def Let_def split: prod.splits if_splits dest: clock) (metis clock)+

lemma fill_fields_only: "fill_fields now op w = (op', w') \<Longrightarrow>
    op'\<lparr>wal_OperationID := wal_OperationID op, wal_Timestamp := wal_Timestamp op\<rparr> = op"
  by (auto simp: fill_fields_def Let_def split: prod.splits if_splits)

text \<open>An entry that is appended is in the store, and is read back unless the store fails to read it.\<close>

lemma append_get:
  assumes "ok w" and "Append kv now wm op w = ((None, op'), w1)" and "wal_plain op'"
    and "WAL_Get kv wm (wal_Table op') (wal_OperationID op') w1 = (r, w2)"
  shows "\<exists>d. marshal_wal_op op' = Inr d \<and> unmarshal_wal_op d = Inr (wal_image op') \<and>
    content w1 (walEntryKey wm (wal_Table op') (wal_OperationID op')) = Some d \<and>
    op'\<lparr>wal_OperationID := wal_OperationID op, wal_Timestamp := wal_Timestamp op\<rparr> = op \<and>
    (r = Inr (wal_image op') \<or> (\<exists>e. fst (kv_Get kv (walEntryKey wm (wal_Table op') (wal_OperationID op')) w1) = Inl e \<and>
      r = Inl (Wrapf ''failed to get WAL entry: %w'' [] e)))"
proof -
  have f: "op'\<lparr>wal_OperationID := wal_OperationID op, wal_Timestamp := wal_Timestamp op\<rparr> = op"
    using assms(2) fill_fields_only by (auto simp: Append_def Let_def split: prod.splits option.splits sum.splits)
  obtain d where d: "marshal_wal_op op' = Inr d" "unmarshal_wal_op d = Inr (wal_image op')"
    using unmarshal_marshal_wal_op [OF assms(3)] by blast
  let ?ek = "walEntryKey wm (wal_Table op') (wal_OperationID op')"
  obtain wa wb where s: "ok wa" "kv_Set kv ?ek d (24 * hour) wa = (None, wb)"
    "kv_Set kv (timestampKey wm (wal_Table op') (wal_Timestamp op') (wal_OperationID op')) (wal_OperationID op') (24 * hour) wb = (None, w1)"
    using assms(2) d(1)
    by (auto simp: Append_def Let_def split: prod.splits option.splits sum.splits dest!: fill_ok [OF assms(1)])
  have b: "ok wb" "content wb ?ek = Some d" using set [OF s(1,2)] by auto
  have c: "ok w1" "content w1 ?ek = Some d" using set [OF b(1) s(3)] b(2) entry_not_timestamp by auto
  obtain g where g: "kv_Get kv ?ek w1 = (g, w2)"
    using assms(4) by (auto simp: WAL_Get_def split: prod.splits sum.splits)
  show ?thesis
  proof (cases g)
    case (Inl e)
    then show ?thesis using assms(4) g d f c(2) by (auto simp: WAL_Get_def)
  next
    case (Inr v)
    then have "v = d" using get [OF c(1) g] c(2) by auto
    then show ?thesis using assms(4) g Inr d f c(2) by (auto simp: WAL_Get_def)
  qed
qed

end

end
