(* ===== verification/Write_Buffer.thy ===== *)
theory Write_Buffer
  imports Write_WAL
begin

text \<open>
  \<^verbatim>\<open>internal/write/buffer.go\<close>: writes collected in memory and sent to the store in batches. The
  state of a buffer is the struct without its store and log, which are arguments, and without the
  mutex: an operation that holds it from its first to its last access is one step. The channel
  \<^verbatim>\<open>flushCh\<close>, of capacity one, is whether it holds a signal. \<^verbatim>\<open>flushWrites\<close> ranges over a map from
  TTLs to groups; the order the runtime picks is the argument \<open>ttls\<close>.

  The second half is the buffer with its background goroutine and its callers as a transition
  system, in which a flush is two steps: the copy of the buffer taken under the mutex, and the
  writes to the store after it is released.
\<close>

section \<open>Operations\<close>

record BufferedWrite =
  bw_Key :: string
  bw_Value :: string
  bw_TTL :: int
  bw_Operation :: "wal_op option"

record WriteBufferConfig =
  MaxSize :: int
  FlushSize :: int
  FlushTimeout :: int

record WriteBuffer =
  wb_maxSize :: int
  wb_flushSize :: int
  wb_flushTimeout :: int
  wb_buffer :: "BufferedWrite list"
  wb_closed :: bool
  wb_flushCh :: bool
  wb_stopCh :: bool
  wb_pendingWrites :: int
  wb_totalFlushes :: int
  wb_totalWrites :: int

definition DefaultWriteBufferConfig :: WriteBufferConfig where
  "DefaultWriteBufferConfig = \<lparr>MaxSize = 1000, FlushSize = 100, FlushTimeout = 100 * 1000000\<rparr>"

definition NewWriteBuffer :: "WriteBufferConfig \<Rightarrow> WriteBuffer" where
  "NewWriteBuffer config0 =
     (let config = (if MaxSize config0 = 0 then DefaultWriteBufferConfig else config0)
      in \<lparr>wb_maxSize = MaxSize config, wb_flushSize = FlushSize config, wb_flushTimeout = FlushTimeout config,
          wb_buffer = [], wb_closed = False, wb_flushCh = False, wb_stopCh = False,
          wb_pendingWrites = 0, wb_totalFlushes = 0, wb_totalWrites = 0\<rparr>)"

definition Write :: "BufferedWrite \<Rightarrow> WriteBuffer \<Rightarrow> gerror option \<times> WriteBuffer" where
  "Write wr b =
     (if wb_closed b then (Some ErrBufferClosed, b)
      else if wb_maxSize b \<le> int (length (wb_buffer b)) then (Some ErrBufferFull, b)
      else
        let b1 = b\<lparr>wb_buffer := wb_buffer b @ [wr], wb_totalWrites := wb_totalWrites b + 1\<rparr>
        in (None, if wb_flushSize b1 \<le> int (length (wb_buffer b1)) then b1\<lparr>wb_flushCh := True\<rparr> else b1))"

text \<open>The group of a TTL, the map of its items, and the operations to log.\<close>

definition ttl_group :: "BufferedWrite list \<Rightarrow> int \<Rightarrow> BufferedWrite list" where
  "ttl_group writes ttl = filter (\<lambda>wr. bw_TTL wr = ttl) writes"

definition items_of :: "BufferedWrite list \<Rightarrow> string gomap" where
  "items_of grp = gomap_of (map (\<lambda>wr. (bw_Key wr, bw_Value wr)) grp)"

definition walOps_of :: "BufferedWrite list \<Rightarrow> wal_op list" where
  "walOps_of grp = List.map_filter bw_Operation grp"

fun set_each :: "'w kvstore \<Rightarrow> BufferedWrite list \<Rightarrow> 'w \<Rightarrow> 'w" where
  "set_each kv [] w = w"
| "set_each kv (wr # wrs) w = set_each kv wrs (snd (kv_Set kv (bw_Key wr) (bw_Value wr) (bw_TTL wr) w))"

fun append_each :: "'w kvstore \<Rightarrow> ('w \<Rightarrow> gotime \<times> 'w) \<Rightarrow> WALManager \<Rightarrow> wal_op list \<Rightarrow> 'w \<Rightarrow> 'w" where
  "append_each kv now wm [] w = w"
| "append_each kv now wm (op # ops) w = append_each kv now wm ops (snd (Append kv now wm op w))"

definition flush_group :: "'w kvstore \<Rightarrow> ('w \<Rightarrow> gotime \<times> 'w) \<Rightarrow> WALManager \<Rightarrow> BufferedWrite list \<Rightarrow> int \<Rightarrow> 'w \<Rightarrow> 'w" where
  "flush_group kv now wm grp ttl w =
     (case kv_BatchSet kv (items_of grp) ttl w of
        (None, w1) \<Rightarrow> append_each kv now wm (walOps_of grp) w1
      | (Some err, w1) \<Rightarrow> append_each kv now wm (walOps_of grp) (set_each kv grp w1))"

fun flush_groups :: "'w kvstore \<Rightarrow> ('w \<Rightarrow> gotime \<times> 'w) \<Rightarrow> WALManager \<Rightarrow> BufferedWrite list \<Rightarrow> int list \<Rightarrow> 'w \<Rightarrow> 'w" where
  "flush_groups kv now wm writes [] w = w"
| "flush_groups kv now wm writes (ttl # ttls) w =
     flush_groups kv now wm writes ttls (flush_group kv now wm (ttl_group writes ttl) ttl w)"

definition flushWrites :: "'w kvstore \<Rightarrow> ('w \<Rightarrow> gotime \<times> 'w) \<Rightarrow> WALManager \<Rightarrow> int list \<Rightarrow> BufferedWrite list \<Rightarrow> WriteBuffer \<Rightarrow> 'w \<Rightarrow>
    gerror option \<times> WriteBuffer \<times> 'w" where
  "flushWrites kv now wm ttls writes b w =
     (if writes = [] then (None, b, w)
      else (None, b\<lparr>wb_totalFlushes := wb_totalFlushes b + 1\<rparr>, flush_groups kv now wm writes ttls w))"

text \<open>The part of \<^verbatim>\<open>Flush\<close> under the mutex, and the whole of it when nothing else runs meanwhile.\<close>

definition take_buffer :: "WriteBuffer \<Rightarrow> BufferedWrite list \<times> WriteBuffer" where
  "take_buffer b = (wb_buffer b, b\<lparr>wb_buffer := []\<rparr>)"

definition Flush :: "'w kvstore \<Rightarrow> ('w \<Rightarrow> gotime \<times> 'w) \<Rightarrow> WALManager \<Rightarrow> int list \<Rightarrow> WriteBuffer \<Rightarrow> 'w \<Rightarrow>
    gerror option \<times> WriteBuffer \<times> 'w" where
  "Flush kv now wm ttls b w =
     (if wb_buffer b = [] then (None, b, w)
      else let (writes, b1) = take_buffer b in flushWrites kv now wm ttls writes b1 w)"

definition WriteBuffer_Size :: "WriteBuffer \<Rightarrow> int" where
  "WriteBuffer_Size b = int (length (wb_buffer b))"

definition WriteBuffer_Stats :: "WriteBuffer \<Rightarrow> grecord" where
  "WriteBuffer_Stats b = [(''buffer_size'', VInt (word_of_int (int (length (wb_buffer b))))), (''pending_writes'', VInt64 (word_of_int (wb_pendingWrites b))),
     (''total_flushes'', VInt64 (word_of_int (wb_totalFlushes b))), (''total_writes'', VInt64 (word_of_int (wb_totalWrites b))),
     (''closed'', VBool (wb_closed b))]"

section \<open>The buffer, its flusher and its callers\<close>

text \<open>
  Where the background goroutine is: in its select, or done after the last flush; and where the
  call of \<^verbatim>\<open>Close\<close> that found the buffer open is. \<open>taken\<close> are the writes that a flush has copied, in
  the order in which flushes copied them (several flushes may be under way; each hands its copy to
  \<^verbatim>\<open>flushWrites\<close>), \<open>accepted\<close> the writes for which \<^verbatim>\<open>Write\<close> returned nil.
\<close>

datatype flusher_pc = Selecting | FlusherDone

datatype close_pc = NotClosing | Marked | Stopping | FinalFlush | CloseDone

record buf_state =
  bs_buf :: WriteBuffer
  bs_flusher :: flusher_pc
  bs_close :: close_pc
  bs_taken :: "BufferedWrite list"
  bs_accepted :: "BufferedWrite list"

definition flush_step :: "buf_state \<Rightarrow> buf_state" where
  "flush_step s = (let (ws, b) = take_buffer (bs_buf s) in s\<lparr>bs_buf := b, bs_taken := bs_taken s @ ws\<rparr>)"

inductive buf_step :: "buf_state \<Rightarrow> buf_state \<Rightarrow> bool" where
  write_ok: "Write wr (bs_buf s) = (None, b) \<Longrightarrow>
     buf_step s (s\<lparr>bs_buf := b, bs_accepted := bs_accepted s @ [wr]\<rparr>)"
| write_err: "Write wr (bs_buf s) = (Some e, b) \<Longrightarrow> buf_step s (s\<lparr>bs_buf := b\<rparr>)"
| caller_flush: "buf_step s (flush_step s)"
| tick: "bs_flusher s = Selecting \<Longrightarrow> buf_step s (flush_step s)"
| signal: "bs_flusher s = Selecting \<Longrightarrow> wb_flushCh (bs_buf s) \<Longrightarrow>
     buf_step s (flush_step (s\<lparr>bs_buf := (bs_buf s)\<lparr>wb_flushCh := False\<rparr>\<rparr>))"
| stop: "bs_flusher s = Selecting \<Longrightarrow> wb_stopCh (bs_buf s) \<Longrightarrow> buf_step s (flush_step (s\<lparr>bs_flusher := FlusherDone\<rparr>))"
| close_mark: "\<not> wb_closed (bs_buf s) \<Longrightarrow>
     buf_step s (s\<lparr>bs_buf := (bs_buf s)\<lparr>wb_closed := True\<rparr>, bs_close := Marked\<rparr>)"
| close_stop: "bs_close s = Marked \<Longrightarrow>
     buf_step s (s\<lparr>bs_buf := (bs_buf s)\<lparr>wb_stopCh := True\<rparr>, bs_close := Stopping\<rparr>)"
| close_wait: "bs_close s = Stopping \<Longrightarrow> bs_flusher s = FlusherDone \<Longrightarrow> buf_step s (s\<lparr>bs_close := FinalFlush\<rparr>)"
| close_flush: "bs_close s = FinalFlush \<Longrightarrow> buf_step s (flush_step (s\<lparr>bs_close := CloseDone\<rparr>))"

definition buf_init :: "WriteBufferConfig \<Rightarrow> buf_state" where
  "buf_init config = \<lparr>bs_buf = NewWriteBuffer config, bs_flusher = Selecting, bs_close = NotClosing, bs_taken = [], bs_accepted = []\<rparr>"

definition buf_inv :: "buf_state \<Rightarrow> bool" where
  "buf_inv s \<longleftrightarrow> bs_accepted s = bs_taken s @ wb_buffer (bs_buf s) \<and>
     wb_totalWrites (bs_buf s) = int (length (bs_accepted s)) \<and>
     int (length (wb_buffer (bs_buf s))) \<le> max 0 (wb_maxSize (bs_buf s)) \<and>
     (bs_close s \<noteq> NotClosing \<longrightarrow> wb_closed (bs_buf s)) \<and>
     (bs_close s = CloseDone \<longrightarrow> wb_buffer (bs_buf s) = [])"

section \<open>Lemmas\<close>

inductive_cases buf_stepE: "buf_step s s'"

lemma Write_None:
  "Write wr b = (None, b') \<Longrightarrow> \<not> wb_closed b \<and> int (length (wb_buffer b)) < wb_maxSize b \<and> wb_buffer b' = wb_buffer b @ [wr] \<and>
     wb_totalWrites b' = wb_totalWrites b + 1 \<and> wb_maxSize b' = wb_maxSize b \<and> wb_closed b' = wb_closed b"
  by (auto simp: Write_def Let_def split: if_splits)

lemma Write_Some: "Write wr b = (Some e, b') \<Longrightarrow> b' = b \<and> (wb_closed b \<or> wb_maxSize b \<le> int (length (wb_buffer b)))"
  by (auto simp: Write_def Let_def split: if_splits)

lemma buf_inv_init: "buf_inv (buf_init config)"
  by (simp add: buf_inv_def buf_init_def NewWriteBuffer_def Let_def)

lemma buf_inv_flush: "buf_inv s \<Longrightarrow> buf_inv (flush_step s)"
  by (auto simp: buf_inv_def flush_step_def take_buffer_def)

lemma buf_inv_step: "buf_step s s' \<Longrightarrow> buf_inv s \<Longrightarrow> buf_inv s'"
proof (induction rule: buf_step.induct)
  case (write_ok wr s b)
  then show ?case by (auto simp: buf_inv_def dest!: Write_None)
next
  case (write_err wr s e b)
  then show ?case by (auto dest!: Write_Some)
next
  case (close_flush s)
  then show ?case by (auto simp: buf_inv_def flush_step_def take_buffer_def)
qed (auto intro!: buf_inv_flush simp: buf_inv_def flush_step_def take_buffer_def)

lemma buf_inv_reachable: "buf_step\<^sup>*\<^sup>* (buf_init config) s \<Longrightarrow> buf_inv s"
  by (induction rule: rtranclp_induct) (auto intro: buf_inv_init buf_inv_step)

section \<open>Properties\<close>

text \<open>
  C7. The buffer loses nothing, whatever the interleaving of writers, explicit flushes, the
  background flusher and \<^verbatim>\<open>Close\<close>: the writes accepted so far are exactly those taken by flushes, in
  the order of acceptance, followed by those still buffered; the buffer never exceeds its capacity,
  and after \<^verbatim>\<open>Close\<close> has returned it is empty, so every accepted write was handed to a flush.
\<close>

theorem buffer_no_loss:
  assumes "buf_step\<^sup>*\<^sup>* (buf_init config) s"
  shows "bs_accepted s = bs_taken s @ wb_buffer (bs_buf s) \<and>
    int (length (wb_buffer (bs_buf s))) \<le> max 0 (wb_maxSize (bs_buf s)) \<and>
    (bs_close s = CloseDone \<longrightarrow> bs_taken s = bs_accepted s)"
  using buf_inv_reachable [OF assms] by (auto simp: buf_inv_def)

theorem buffer_no_loss_witness:
  "\<exists>s. buf_step\<^sup>*\<^sup>* (buf_init \<lparr>MaxSize = 2, FlushSize = 2, FlushTimeout = 1\<rparr>) s \<and> bs_close s = CloseDone \<and>
     bs_taken s = [\<lparr>bw_Key = ''k'', bw_Value = ''v'', bw_TTL = 0, bw_Operation = None\<rparr>]"
proof -
  let ?c = "\<lparr>MaxSize = 2, FlushSize = 2, FlushTimeout = 1\<rparr>"
  let ?wr = "\<lparr>bw_Key = ''k'', bw_Value = ''v'', bw_TTL = 0, bw_Operation = None\<rparr>"
  let ?s0 = "buf_init ?c"
  let ?b1 = "(bs_buf ?s0)\<lparr>wb_buffer := [?wr], wb_totalWrites := 1\<rparr>"
  let ?s1 = "?s0\<lparr>bs_buf := ?b1, bs_accepted := bs_accepted ?s0 @ [?wr]\<rparr>"
  let ?s2 = "?s1\<lparr>bs_buf := (bs_buf ?s1)\<lparr>wb_closed := True\<rparr>, bs_close := Marked\<rparr>"
  let ?s3 = "?s2\<lparr>bs_buf := (bs_buf ?s2)\<lparr>wb_stopCh := True\<rparr>, bs_close := Stopping\<rparr>"
  let ?s4 = "flush_step (?s3\<lparr>bs_flusher := FlusherDone\<rparr>)"
  let ?s5 = "?s4\<lparr>bs_close := FinalFlush\<rparr>"
  let ?s6 = "flush_step (?s5\<lparr>bs_close := CloseDone\<rparr>)"
  note d = buf_init_def NewWriteBuffer_def flush_step_def take_buffer_def Write_def
  have "buf_step ?s0 ?s1" by (rule buf_step.write_ok) (simp add: d)
  moreover have "buf_step ?s1 ?s2" by (rule buf_step.close_mark) (simp add: d)
  moreover have "buf_step ?s2 ?s3" by (rule buf_step.close_stop) (simp add: d)
  moreover have "buf_step ?s3 ?s4" by (rule buf_step.stop) (simp_all add: d)
  moreover have "buf_step ?s4 ?s5" by (rule buf_step.close_wait) (simp_all add: d)
  moreover have "buf_step ?s5 ?s6" by (rule buf_step.close_flush) (simp add: d)
  ultimately have r: "buf_step\<^sup>*\<^sup>* ?s0 ?s6"
    by (meson converse_rtranclp_into_rtranclp rtranclp.rtrancl_refl)
  have "bs_close ?s6 = CloseDone" "bs_accepted ?s6 = [?wr]" by (simp_all add: d)
  then show ?thesis using r buffer_no_loss [OF r] by metis
qed

end
