(* ===== verification/Store_Instances.thy ===== *)
theory Store_Instances
  imports KV_Redis KV_Dynamo Write_Buffer
begin

text \<open>
  The write-ahead log and the write buffer over the stores: the contract of the log's store is
  discharged for the Redis and the DynamoDB store on their reference servers, and the order in which
  a flush applies buffered writes is examined on the Redis store.
\<close>

section \<open>The clock of the reference service\<close>

definition dynamo_clock :: "dynamo_ref dynamo_state \<Rightarrow> gotime \<times> dynamo_ref dynamo_state" where
  "dynamo_clock d = (dr_clock (ds_service d), d)"

interpretation rwal: wal_store "redis_kvstore ref_client" ref.redis_content "\<lambda>r. \<not> rs_closed r" redis_clock
  by unfold_locales (simp add: redis_clock_def)

interpretation dwal: wal_store "dynamo_kvstore dref_client dref_now" dref.dynamo_content "\<lambda>d. \<not> ds_closed d" dynamo_clock
  by unfold_locales (simp add: dynamo_clock_def)

section \<open>Lemmas\<close>

lemma ref_exec_lookup:
  "ref_lookup (fold (\<lambda>(k, v, ttl). ref_set k v ttl) (map (\<lambda>(k, v). (k, v, t)) ps) s) k =
     (case map_of (rev ps) k of Some v \<Rightarrow> Some (RStr v) | None \<Rightarrow> ref_lookup s k)"
  by (induction ps arbitrary: s) (auto simp: ref_lookup_set map_add_def split: option.splits)

lemma ref_content_batch:
  assumes "\<not> rs_closed r"
  shows "\<exists>r'. Redis_BatchSet ref_client items ttl r = (None, r') \<and>
    ref.redis_content r' k = (case map_of (rev items) k of Some v \<Rightarrow> Some v | None \<Rightarrow> ref.redis_content r k)"
  using assms
  by (auto simp: Redis_BatchSet_def on_server_def ref_client_def Let_def ref.redis_content_def ref_keys_def
      ref_exec_lookup split: option.splits)

section \<open>Properties\<close>

text \<open>
  C23. The write-ahead log over any store that keeps the contract of a key-value store: after \<^verbatim>\<open>Append\<close>
  has succeeded, the store holds the encoded operation under the key of its identifier, the second key
  that \<^verbatim>\<open>Append\<close> writes notwithstanding; the operation is the one given, with the identifier and the time
  filled in where they were missing; what is stored decodes to the same operation but for what JSON
  does to dynamic values, and that is what \<^verbatim>\<open>Get\<close> returns, unless the read of the store itself fails.
\<close>

theorem wal_append_get:
  assumes "wal_store kv content ok now" and "ok w" and "Append kv now wm op w = ((None, op'), w1)"
    and "wal_plain op'" and "WAL_Get kv wm (wal_Table op') (wal_OperationID op') w1 = (r, w2)"
  shows "\<exists>d. marshal_wal_op op' = Inr d \<and> unmarshal_wal_op d = Inr (wal_image op') \<and>
    content w1 (walEntryKey wm (wal_Table op') (wal_OperationID op')) = Some d \<and>
    op'\<lparr>wal_OperationID := wal_OperationID op, wal_Timestamp := wal_Timestamp op\<rparr> = op \<and>
    (r = Inr (wal_image op') \<or> (\<exists>e. fst (kv_Get kv (walEntryKey wm (wal_Table op') (wal_OperationID op')) w1) = Inl e \<and>
      r = Inl (Wrapf ''failed to get WAL entry: %w'' [] e)))"
  using assms by (rule wal_store.append_get)

definition ex_wal_op :: wal_op where
  "ex_wal_op = \<lparr>wal_OperationID = ''op1'', wal_Table = ''users'', wal_Operation = ''CREATE'', wal_Key = VInt 7, wal_Data = None,
     wal_Timestamp = time_Unix 0 ''UTC'' 1700000000, wal_KeyValue = ''users:7'', wal_Value = Some ''{}''\<rparr>"

theorem wal_append_get_witness:
  "\<exists>w1. Append (redis_kvstore ref_client) redis_clock (NewWALManager []) ex_wal_op ex_redis = ((None, ex_wal_op), w1) \<and>
     fst (WAL_Get (redis_kvstore ref_client) (NewWALManager []) ''users'' ''op1'' w1) = Inr (wal_image ex_wal_op)"
proof -
  let ?wm = "NewWALManager []" and ?op = ex_wal_op
  have p: "wal_plain ?op" by code_simp
  have o: "\<not> rs_closed ex_redis" by (simp add: ex_redis_def)
  obtain d where d: "marshal_wal_op ?op = Inr d" "unmarshal_wal_op d = Inr (wal_image ?op)"
    using unmarshal_marshal_wal_op [OF p] by blast
  let ?ek = "walEntryKey ?wm (wal_Table ?op) (wal_OperationID ?op)"
  let ?tk = "timestampKey ?wm (wal_Table ?op) (wal_Timestamp ?op) (wal_OperationID ?op)"
  let ?w1 = "ex_redis\<lparr>rs_server := ref_set ?tk (wal_OperationID ?op) (24 * hour) (ref_set ?ek d (24 * hour) (rs_server ex_redis))\<rparr>"
  have "\<not> IsZero (wal_Timestamp ?op)" "wal_OperationID ?op \<noteq> []" by code_simp+
  then have "fill_fields redis_clock ?op ex_redis = (?op, ex_redis)" by (simp add: fill_fields_def)
  moreover have "(0 :: int) < 24 * hour" by (simp add: hour_def)
  ultimately have a: "Append (redis_kvstore ref_client) redis_clock ?wm ?op ex_redis = ((None, ?op), ?w1)"
    using o d(1) by (simp add: Append_def redis_kvstore_def Redis_Set_def on_server_def ref_client_def Let_def)
  obtain r w2 where g: "WAL_Get (redis_kvstore ref_client) ?wm (wal_Table ?op) (wal_OperationID ?op) ?w1 = (r, w2)"
    by (cases "WAL_Get (redis_kvstore ref_client) ?wm (wal_Table ?op) (wal_OperationID ?op) ?w1")
  have "ref_lookup (rs_server ?w1) ?ek = Some (RStr d)" by (simp add: ref_lookup_set entry_not_timestamp)
  then have "\<not> is_err r"
    using g o d(2) not_err_iff by (fastforce simp: WAL_Get_def redis_kvstore_def Redis_Get_def on_server_def ref_client_def)
  then have "r = Inr (wal_image ?op)"
    using wal_append_get [OF rwal.wal_store_axioms o a p g] by (auto simp: is_err_iff)
  then show ?thesis using a g by (auto simp: ex_wal_op_def)
qed

text \<open>
  A flush applies buffered writes in order when they share one TTL: on an open Redis store, after
  \<^verbatim>\<open>Flush\<close> every key holds the value of the last buffered write to it, keys not written keep their
  content, and the buffer is empty.
\<close>

theorem flush_last_write_wins:
  assumes "\<not> rs_closed r" and "list_all (\<lambda>wr. bw_TTL wr = ttl \<and> bw_Operation wr = None) (wb_buffer b)"
    and "wb_buffer b \<noteq> []"
  shows "\<exists>b' r'. Flush (redis_kvstore ref_client) redis_clock wm [ttl] b r = (None, b', r') \<and> wb_buffer b' = [] \<and>
    (\<forall>k. ref.redis_content r' k =
       (case map_of (rev (map (\<lambda>wr. (bw_Key wr, bw_Value wr)) (wb_buffer b))) k of
          Some v \<Rightarrow> Some v | None \<Rightarrow> ref.redis_content r k))"
proof -
  have grp: "ttl_group (wb_buffer b) ttl = wb_buffer b" "walOps_of (wb_buffer b) = []"
    using assms(2) by (auto simp: ttl_group_def walOps_of_def list_all_iff filter_id_conv map_filter_def filter_empty_conv)
  let ?items = "items_of (wb_buffer b)"
  have rev: "map_of (rev ?items) = map_of (rev (map (\<lambda>wr. (bw_Key wr, bw_Value wr)) (wb_buffer b)))"
    unfolding items_of_def by (subst map_of_rev_distinct) (simp_all add: gomap_of_get flip: gomap_wf_def)
  obtain r' where r': "Redis_BatchSet ref_client ?items ttl r = (None, r')"
    using ref_content_batch [OF assms(1)] by blast
  have "ref.redis_content r' k = (case map_of (rev ?items) k of Some v \<Rightarrow> Some v | None \<Rightarrow> ref.redis_content r k)" for k
    using ref_content_batch [OF assms(1), of ?items ttl k] r' by auto
  then show ?thesis using assms(3) grp r' rev
    by (auto simp: Flush_def take_buffer_def flushWrites_def flush_group_def redis_kvstore_def)
qed

definition bw :: "string \<Rightarrow> string \<Rightarrow> int \<Rightarrow> BufferedWrite" where
  "bw k v ttl = \<lparr>bw_Key = k, bw_Value = v, bw_TTL = ttl, bw_Operation = None\<rparr>"

definition ex_buffer :: "BufferedWrite list \<Rightarrow> WriteBuffer" where
  "ex_buffer ws = (NewWriteBuffer DefaultWriteBufferConfig)\<lparr>wb_buffer := ws\<rparr>"

theorem flush_last_write_wins_witness:
  "\<exists>b' r'. Flush (redis_kvstore ref_client) redis_clock (NewWALManager []) [9] (ex_buffer [bw ''k'' ''old'' 9, bw ''k'' ''new'' 9]) ex_redis
     = (None, b', r') \<and> ref.redis_content r' ''k'' = Some ''new''"
proof -
  let ?b = "ex_buffer [bw ''k'' ''old'' 9, bw ''k'' ''new'' 9]"
  have "\<not> rs_closed ex_redis" "list_all (\<lambda>wr. bw_TTL wr = 9 \<and> bw_Operation wr = None) (wb_buffer ?b)" "wb_buffer ?b \<noteq> []"
    by (simp_all add: ex_redis_def ex_buffer_def bw_def)
  from flush_last_write_wins [OF this, of "NewWALManager []"] show ?thesis
    by (fastforce simp: ex_buffer_def bw_def)
qed

text \<open>
  With different TTLs the order is lost: the groups are flushed in the iteration order of a Go map,
  so of two buffered writes to one key either may win. For one of the two orders the store ends up
  with the older value.
\<close>

theorem flush_ttl_order_unspecified:
  "ref.redis_content (snd (snd (Flush (redis_kvstore ref_client) redis_clock wm [5, 9]
      (ex_buffer [bw ''k'' ''old'' 5, bw ''k'' ''new'' 9]) ex_redis))) ''k'' = Some ''new'' \<and>
   ref.redis_content (snd (snd (Flush (redis_kvstore ref_client) redis_clock wm [9, 5]
      (ex_buffer [bw ''k'' ''old'' 5, bw ''k'' ''new'' 9]) ex_redis))) ''k'' = Some ''old''"
  by (simp add: Flush_def take_buffer_def flushWrites_def flush_group_def redis_kvstore_def ex_buffer_def bw_def
      NewWriteBuffer_def DefaultWriteBufferConfig_def ttl_group_def items_of_def walOps_of_def gomap_of_def gomap_set_def map_filter_def
      Redis_BatchSet_def on_server_def ref_client_def ref_set_def ref_put_def ref.redis_content_def ref_keys_def ref_lookup_def ex_redis_def)

end
