(* ===== verification/Lifecycle.thy ===== *)
theory Lifecycle
  imports Core_Types
begin

text \<open>
  \<^verbatim>\<open>internal/registry/lifecycle.go\<close>: hooks that run when a table is enabled or disabled. A hook acts on a
  state \<open>'s\<close>. Hooks are interface values: \<open>hk_func\<close> says whether the dynamic type is the struct
  \<^verbatim>\<open>LifecycleHookFunc\<close>, whose fields are functions, so that two of them cannot be compared; other hooks
  are told apart by \<open>hk_id\<close>. Hooks are not nil. The mutex is held for the whole of every operation but
  the execution, which works on a copy of the slice.
\<close>

section \<open>Operations\<close>

record 's LifecycleHook =
  hk_func :: bool
  hk_id :: nat
  hk_OnEnable :: "string \<Rightarrow> schema \<Rightarrow> 's \<Rightarrow> gerror option \<times> 's"
  hk_OnDisable :: "string \<Rightarrow> schema \<Rightarrow> 's \<Rightarrow> gerror option \<times> 's"

type_synonym 's hook_fun = "string \<Rightarrow> schema \<Rightarrow> 's \<Rightarrow> gerror option \<times> 's"

definition hook_call :: "'s hook_fun option \<Rightarrow> 's hook_fun" where
  "hook_call f tableName schema s = (case f of None \<Rightarrow> (None, s) | Some g \<Rightarrow> g tableName schema s)"

definition LifecycleHookFunc :: "'s hook_fun option \<Rightarrow> 's hook_fun option \<Rightarrow> 's LifecycleHook" where
  "LifecycleHookFunc OnEnableFunc OnDisableFunc =
     \<lparr>hk_func = True, hk_id = 0, hk_OnEnable = hook_call OnEnableFunc, hk_OnDisable = hook_call OnDisableFunc\<rparr>"

record 's LifecycleManager =
  lm_hooks :: "'s LifecycleHook list"

definition NewLifecycleManager :: "'s LifecycleManager" where
  "NewLifecycleManager = \<lparr>lm_hooks = []\<rparr>"

definition RegisterHook :: "'s LifecycleHook \<Rightarrow> 's LifecycleManager \<Rightarrow> 's LifecycleManager" where
  "RegisterHook hook lm = lm\<lparr>lm_hooks := lm_hooks lm @ [hook]\<rparr>"

text \<open>The comparison of two interface values: \<open>None\<close> is the panic of two values of one uncomparable type.\<close>

definition hook_eq :: "'s LifecycleHook \<Rightarrow> 's LifecycleHook \<Rightarrow> bool option" where
  "hook_eq h k = (if hk_func h \<and> hk_func k then None else Some (\<not> hk_func h \<and> \<not> hk_func k \<and> hk_id h = hk_id k))"

fun remove_hook :: "'s LifecycleHook \<Rightarrow> 's LifecycleHook list \<Rightarrow> 's LifecycleHook list res" where
  "remove_hook hook [] = Inr []"
| "remove_hook hook (h # hs) =
     (case hook_eq h hook of
        None \<Rightarrow> Inl (Panic ''runtime error: comparing uncomparable type registry.LifecycleHookFunc'')
      | Some True \<Rightarrow> Inr hs
      | Some False \<Rightarrow> (case remove_hook hook hs of Inl e \<Rightarrow> Inl e | Inr hs' \<Rightarrow> Inr (h # hs')))"

definition UnregisterHook :: "'s LifecycleHook \<Rightarrow> 's LifecycleManager \<Rightarrow> 's LifecycleManager res" where
  "UnregisterHook hook lm = (case remove_hook hook (lm_hooks lm) of Inl e \<Rightarrow> Inl e | Inr hs \<Rightarrow> Inr (lm\<lparr>lm_hooks := hs\<rparr>))"

fun run_hooks :: "('s LifecycleHook \<Rightarrow> 's \<Rightarrow> gerror option \<times> 's) \<Rightarrow> 's LifecycleHook list \<Rightarrow> 's \<Rightarrow> gerror option \<times> 's" where
  "run_hooks call [] s = (None, s)"
| "run_hooks call (hook # hooks) s =
     (case call hook s of
        (Some err, s1) \<Rightarrow> (Some err, s1)
      | (None, s1) \<Rightarrow> run_hooks call hooks s1)"

definition ExecuteEnableHooks :: "string \<Rightarrow> schema \<Rightarrow> 's LifecycleManager \<Rightarrow> 's \<Rightarrow> gerror option \<times> 's" where
  "ExecuteEnableHooks tableName schema lm s = run_hooks (\<lambda>hook. hk_OnEnable hook tableName schema) (lm_hooks lm) s"

definition ExecuteDisableHooks :: "string \<Rightarrow> schema \<Rightarrow> 's LifecycleManager \<Rightarrow> 's \<Rightarrow> gerror option \<times> 's" where
  "ExecuteDisableHooks tableName schema lm s = run_hooks (\<lambda>hook. hk_OnDisable hook tableName schema) (lm_hooks lm) s"

definition ClearHooks :: "'s LifecycleManager \<Rightarrow> 's LifecycleManager" where
  "ClearHooks lm = lm\<lparr>lm_hooks := []\<rparr>"

definition HookCount :: "'s LifecycleManager \<Rightarrow> int" where
  "HookCount lm = int (length (lm_hooks lm))"

section \<open>Lemmas\<close>

lemma run_hooks_append:
  "run_hooks call (hs @ ks) s = (case run_hooks call hs s of (Some err, s1) \<Rightarrow> (Some err, s1) | (None, s1) \<Rightarrow> run_hooks call ks s1)"
  by (induction hs arbitrary: s) (auto split: prod.split option.split)

text \<open>A failed run is a run of the hooks before the failing one, and then that one.\<close>

lemma run_hooks_failed:
  "run_hooks call hs s = (Some err, s') \<Longrightarrow>
     \<exists>before h rest s1. hs = before @ h # rest \<and> run_hooks call before s = (None, s1) \<and> call h s1 = (Some err, s')"
proof (induction hs arbitrary: s)
  case (Cons h hs)
  obtain e s1 where c: "call h s = (e, s1)" by (cases "call h s")
  show ?case
  proof (cases e)
    case (Some err')
    then show ?thesis using Cons.prems c by (intro exI [of _ "[]"] exI [of _ h] exI [of _ hs] exI [of _ s]) simp
  next
    case None
    then obtain before k rest s2 where "hs = before @ k # rest" "run_hooks call before s1 = (None, s2)" "call k s2 = (Some err, s')"
      using Cons.IH [of s1] Cons.prems c by auto
    then show ?thesis using c None by (intro exI [of _ "h # before"] exI [of _ k] exI [of _ rest] exI [of _ s2]) simp
  qed
qed simp

lemma run_hooks_inv:
  assumes "run_hooks call hs s = (e, s')" and "P s" and "\<And>h s e s'. h \<in> set hs \<Longrightarrow> P s \<Longrightarrow> call h s = (e, s') \<Longrightarrow> P s'"
  shows "P s'"
  using assms
proof (induction hs arbitrary: s)
  case (Cons h hs)
  obtain e1 s1 where c: "call h s = (e1, s1)" by (cases "call h s")
  have p: "P s1" using Cons.prems(2,3) c by (meson list.set_intros(1))
  show ?case
  proof (cases e1)
    case None
    then have "run_hooks call hs s1 = (e, s')" using Cons.prems(1) c by simp
    from Cons.IH [OF this p] show ?thesis using Cons.prems(3) by (meson list.set_intros(2))
  next
    case (Some err)
    then show ?thesis using Cons.prems(1) c p by simp
  qed
qed simp

lemma UnregisterHook_RegisterHook:
  assumes "\<not> hk_func h" and "\<forall>k \<in> set (lm_hooks lm). hk_id k \<noteq> hk_id h \<or> hk_func k"
  shows "UnregisterHook h (RegisterHook h lm) = Inr lm"
proof -
  have "remove_hook h (hs @ [h]) = Inr hs" if "\<forall>k \<in> set hs. hk_id k \<noteq> hk_id h \<or> hk_func k" for hs
    using that assms(1) by (induction hs) (auto simp: hook_eq_def)
  then show ?thesis using assms(2) by (simp add: UnregisterHook_def RegisterHook_def)
qed

section \<open>Properties\<close>

text \<open>
  Function hooks cannot be unregistered. Removing a \<^verbatim>\<open>LifecycleHookFunc\<close> from a manager that holds one
  panics, even when it is the very hook that was registered, because the comparison of two values of
  this type is a run-time error; other hooks that were registered once are removed and nothing else is.
\<close>

theorem unregister_hooks:
  "(hk_func h \<and> (\<exists>k \<in> set (lm_hooks lm). hk_func k) \<longrightarrow>
      UnregisterHook h lm = Inl (Panic ''runtime error: comparing uncomparable type registry.LifecycleHookFunc'')) \<and>
   (\<not> hk_func h \<and> (\<forall>k \<in> set (lm_hooks lm). hk_id k \<noteq> hk_id h \<or> hk_func k) \<longrightarrow> UnregisterHook h (RegisterHook h lm) = Inr lm)"
proof -
  have "remove_hook h hs = Inl (Panic ''runtime error: comparing uncomparable type registry.LifecycleHookFunc'')"
    if "hk_func h" "\<exists>k \<in> set hs. hk_func k" for hs
    using that
  proof (induction hs)
    case (Cons a hs)
    then show ?case by (cases "\<exists>k \<in> set hs. hk_func k") (auto simp: hook_eq_def)
  qed simp
  then show ?thesis using UnregisterHook_RegisterHook by (auto simp: UnregisterHook_def)
qed

theorem unregister_hooks_witness:
  "let h = LifecycleHookFunc None None :: unit LifecycleHook in
   UnregisterHook h (RegisterHook h NewLifecycleManager) = Inl (Panic ''runtime error: comparing uncomparable type registry.LifecycleHookFunc'')"
  using unregister_hooks [of "LifecycleHookFunc None None" "RegisterHook (LifecycleHookFunc None None) NewLifecycleManager"]
  by (simp add: LifecycleHookFunc_def RegisterHook_def NewLifecycleManager_def Let_def)

end
