(* ===== verification/Go_Scan.thy ===== *)
theory Go_Scan
  imports Go_Value
begin

text \<open>
  Two parsers of the standard library that the configuration uses: \<^verbatim>\<open>fmt.Sscanf\<close> with the verb f, and
  \<^verbatim>\<open>time.ParseDuration\<close>. Durations are integers, in nanoseconds.
\<close>

section \<open>Sscanf with the verb f\<close>

text \<open>
  \<^verbatim>\<open>floatToken\<close> takes the longest text that could be a float. A word that only begins like NaN or Inf
  leaves its first letters in the token, and the conversion then fails. A binary exponent after a
  decimal mantissa is not Go syntax but is converted here, by \<^verbatim>\<open>math.Ldexp\<close>.
\<close>

definition accept :: "string \<Rightarrow> string \<times> string \<Rightarrow> bool \<times> string \<times> string" where
  "accept set_of ts = (case snd ts of [] \<Rightarrow> (False, ts)
     | c # cs \<Rightarrow> if c \<in> set set_of then (True, fst ts @ [c], cs) else (False, ts))"

fun accept_word :: "string list \<Rightarrow> string \<times> string \<Rightarrow> bool \<times> string \<times> string" where
  "accept_word [] ts = (True, ts)"
| "accept_word (w # ws) ts = (let (ok, ts') = accept w ts in if ok then accept_word ws ts' else (False, ts'))"

definition accept_run :: "string \<Rightarrow> string \<times> string \<Rightarrow> string \<times> string" where
  "accept_run set_of ts = (fst ts @ takeWhile (\<lambda>c. c \<in> set set_of) (snd ts), dropWhile (\<lambda>c. c \<in> set set_of) (snd ts))"

definition floatToken :: "string \<Rightarrow> string" where
  "floatToken s =
     (let (nan, t0) = accept_word [''nN'', ''aA'', ''nN''] ([], s) in
      if nan then fst t0
      else let (_, t1) = accept ''+-'' t0; (inf, t2) = accept_word [''iI'', ''nN'', ''fF''] t1 in
        if inf then fst t2
        else let (hex, t3) = accept_word [''0'', ''xX''] t2;
                 digits = (if hex then ''0123456789aAbBcCdDeEfF_'' else ''0123456789_'');
                 expo = (if hex then ''pP'' else ''eEpP'');
                 t4 = accept_run digits t3;
                 (dot, t5) = accept ''.'' t4;
                 t6 = (if dot then accept_run digits t5 else t5);
                 (ex, t7) = accept expo t6
             in if ex then fst (accept_run ''0123456789_'' (snd (accept ''+-'' t7))) else fst t7)"

definition convertFloat :: "string \<Rightarrow> gofloat option" where
  "convertFloat str =
     (if CHR ''p'' \<in> set str \<and> CHR ''x'' \<notin> set str \<and> CHR ''X'' \<notin> set str
      then (case (ParseFloat round_f64 (takeWhile (\<lambda>c. c \<noteq> CHR ''p'') str), ParseInt 64 (tl (dropWhile (\<lambda>c. c \<noteq> CHR ''p'') str))) of
              (Some (FFin x), Some m) \<Rightarrow> Some (round_f64 (x * pow2 m))
            | (Some f, Some m) \<Rightarrow> Some f
            | _ \<Rightarrow> None)
      else ParseFloat round_f64 str)"

definition Sscanf_f :: "string \<Rightarrow> gofloat option" where
  "Sscanf_f s = convertFloat (floatToken (dropWhile (\<lambda>c. is_space c \<and> c \<noteq> CHR 0x0A) s))"

section \<open>Durations\<close>

definition unitMap :: "string \<Rightarrow> int option" where
  "unitMap u =
     (if u = ''ns'' then Some 1
      else if u = ''us'' \<or> u = [CHR 0xC2, CHR 0xB5, CHR ''s''] \<or> u = [CHR 0xCE, CHR 0xBC, CHR ''s''] then Some 1000
      else if u = ''ms'' then Some 1000000
      else if u = ''s'' then Some 1000000000
      else if u = ''m'' then Some 60000000000
      else if u = ''h'' then Some 3600000000000
      else None)"

text \<open>The digits before and after the point; \<open>None\<close> is an overflow.\<close>

fun leadingInt :: "int \<Rightarrow> string \<Rightarrow> (int \<times> string) option" where
  "leadingInt x [] = Some (x, [])"
| "leadingInt x (c # cs) =
     (if \<not> is_digit c then Some (x, c # cs)
      else if 2 ^ 63 div 10 < x then None
      else let y = x * 10 + int (digit_val c) in if 2 ^ 63 < y then None else leadingInt y cs)"

fun leadingFraction :: "int \<Rightarrow> nat \<Rightarrow> bool \<Rightarrow> string \<Rightarrow> int \<times> nat \<times> string" where
  "leadingFraction x scale overflow [] = (x, scale, [])"
| "leadingFraction x scale overflow (c # cs) =
     (if \<not> is_digit c then (x, scale, c # cs)
      else if overflow \<or> (2 ^ 63 - 1) div 10 < x then leadingFraction x scale True cs
      else let y = x * 10 + int (digit_val c)
           in if 2 ^ 63 < y then leadingFraction x scale True cs else leadingFraction y (scale + 1) False cs)"

lemma leadingInt_length: "leadingInt x s = Some (v, s') \<Longrightarrow> length s' \<le> length s"
  by (induction x s rule: leadingInt.induct) (auto simp: Let_def split: if_splits)

lemma leadingFraction_length: "leadingFraction x k o0 s = (f, m, s') \<Longrightarrow> length s' \<le> length s"
  by (induction x k o0 s rule: leadingFraction.induct) (auto simp: Let_def split: if_splits)

text \<open>
  The nanoseconds of a fraction \<open>f / 10\<^bsup>scale\<^esup>\<close> of a unit, in floating point as the code computes them.
\<close>

definition frac_of :: "int \<Rightarrow> nat \<Rightarrow> int \<Rightarrow> int" where
  "frac_of f scale unit =
     (case round_f64 (of_int f) of FFin a \<Rightarrow>
        (case round_f64 (10 ^ scale) of FFin s \<Rightarrow>
          (case round_f64 (of_int unit / s) of FFin q \<Rightarrow>
            (case round_f64 (a * q) of FFin p \<Rightarrow> rat_trunc p | _ \<Rightarrow> 0) | _ \<Rightarrow> 0) | _ \<Rightarrow> 0) | _ \<Rightarrow> 0)"

definition in_unit :: "char \<Rightarrow> bool" where
  "in_unit c \<longleftrightarrow> c \<noteq> CHR ''.'' \<and> \<not> is_digit c"

text \<open>One number with its unit: the nanoseconds and the rest of the text.\<close>

definition duration_part :: "string \<Rightarrow> (int \<times> string) option" where
  "duration_part s =
     (case s of [] \<Rightarrow> None | c # _ \<Rightarrow>
      if c \<noteq> CHR ''.'' \<and> \<not> is_digit c then None
      else case leadingInt 0 s of None \<Rightarrow> None | Some (v, s1) \<Rightarrow>
       (let pre = (length s1 \<noteq> length s);
            (f, scale, s2, post) = (case s1 of [] \<Rightarrow> (0, 0, [], False) | d # ds \<Rightarrow>
              if d = CHR ''.'' then (let (f, k, s2) = leadingFraction 0 0 False ds in (f, k, s2, length s2 \<noteq> length ds))
              else (0, 0, s1, False));
            u = takeWhile in_unit s2; s3 = dropWhile in_unit s2
        in if \<not> pre \<and> \<not> post then None
           else if u = [] then None
           else case unitMap u of None \<Rightarrow> None | Some unit \<Rightarrow>
             if 2 ^ 63 div unit < v then None
             else let w = v * unit + (if 0 < f then frac_of f scale unit else 0)
                  in if 2 ^ 63 < w then None else Some (w, s3)))"

lemma duration_part_shrinks: "duration_part s = Some (w, s') \<Longrightarrow> length s' < length s"
proof -
  assume a: "duration_part s = Some (w, s')"
  then obtain v s1 where i: "leadingInt 0 s = Some (v, s1)"
    by (auto simp: duration_part_def split: list.splits if_splits option.splits)
  have "\<exists>s2. length s2 \<le> length s1 \<and> s' = dropWhile in_unit s2 \<and> takeWhile in_unit s2 \<noteq> []"
  proof (cases "s1 \<noteq> [] \<and> hd s1 = CHR ''.''")
    case True
    then obtain ds where s1: "s1 = CHR ''.'' # ds" by (cases s1) auto
    obtain f k s2 where "leadingFraction 0 0 False ds = (f, k, s2)" by (metis surj_pair)
    with leadingFraction_length [OF this] a i s1 show ?thesis
      by (intro exI [of _ s2]) (auto simp: duration_part_def Let_def split: list.splits if_splits option.splits)
  next
    case False
    then show ?thesis using a i
      by (intro exI [of _ s1]) (cases s1; auto simp: duration_part_def Let_def split: list.splits if_splits option.splits)
  qed
  then obtain s2 where s2: "length s2 \<le> length s1" "s' = dropWhile in_unit s2" "takeWhile in_unit s2 \<noteq> []" by blast
  have "length (dropWhile in_unit s2) < length s2" using s2(3) by (cases s2) (auto simp: length_dropWhile_le le_imp_less_Suc split: if_splits)
  then show ?thesis using s2(1,2) leadingInt_length [OF i] by simp
qed

function duration_parts :: "int \<Rightarrow> string \<Rightarrow> int option" where
  "duration_parts d s =
     (if s = [] then Some d
      else case duration_part s of None \<Rightarrow> None
        | Some (v, s') \<Rightarrow> (let d' = (d + v) mod 2 ^ 64 in if 2 ^ 63 < d' then None else duration_parts d' s'))"
  by pat_completeness auto
termination
  by (relation "measure (\<lambda>(d, s). length s)") (auto dest: duration_part_shrinks)

declare duration_parts.simps [simp del]

definition ParseDuration :: "string \<Rightarrow> int option" where
  "ParseDuration s0 =
     (let (neg, s) = split_sign s0 in
      if s = ''0'' then Some 0
      else if s = [] then None
      else case duration_parts 0 s of None \<Rightarrow> None
        | Some d \<Rightarrow> if neg then Some (if d = 2 ^ 63 then - (2 ^ 63) else - d) else if 2 ^ 63 - 1 < d then None else Some d)"

section \<open>Reading back whole numbers of a unit\<close>

lemma leadingInt_digits:
  assumes "list_all is_digit ds" and "rest = [] \<or> \<not> is_digit (hd rest)"
    and "0 \<le> x" and "x * 10 ^ length ds + int (digits_val ds) \<le> 2 ^ 63"
  shows "leadingInt x (ds @ rest) = Some (x * 10 ^ length ds + int (digits_val ds), rest)"
  using assms(1,3,4)
proof (induction ds arbitrary: x)
  case Nil
  then show ?case using assms(2) by (cases rest) (auto simp: digits_val_def)
next
  case (Cons c ds)
  have v: "digits_val (c # ds) = digit_val c * 10 ^ length ds + digits_val ds"
  proof -
    have "foldl (\<lambda>a c. a * 10 + digit_val c) a ds = a * 10 ^ length ds + foldl (\<lambda>a c. a * 10 + digit_val c) 0 ds" for a :: nat
    proof (induction ds arbitrary: a)
      case (Cons d ds)
      show ?case using Cons [of "a * 10 + digit_val d"] Cons [of "digit_val d"] by (simp add: algebra_simps)
    qed simp
    from this [of "digit_val c"] show ?thesis by (simp add: digits_val_def)
  qed
  let ?y = "x * 10 + int (digit_val c)"
  have e: "?y * 10 ^ length ds + int (digits_val ds) = x * 10 ^ length (c # ds) + int (digits_val (c # ds))"
    by (simp add: v algebra_simps)
  have p: "(1 :: int) \<le> 10 ^ length ds" by simp
  have "?y * 1 \<le> ?y * 10 ^ length ds" using Cons.prems(2) p by (intro mult_left_mono) auto
  then have "?y \<le> ?y * 10 ^ length ds + int (digits_val ds)" by simp
  then have y: "?y \<le> 2 ^ 63" using Cons.prems(3) unfolding e by (rule order_trans)
  have "x * 10 \<le> 2 ^ 63" using y by linarith
  then have x: "x \<le> 2 ^ 63 div 10" using zdiv_mono1 [of "x * 10" "2 ^ 63" 10] by simp
  have "leadingInt x ((c # ds) @ rest) = leadingInt ?y (ds @ rest)" using Cons.prems(1) x y by (simp del: power_numeral)
  then show ?case using Cons.IH [of ?y] Cons.prems y unfolding e by simp
qed

lemma ParseDuration_seconds:
  assumes "0 \<le> n" and "n * 1000000000 < 2 ^ 63"
  shows "ParseDuration (show_int n @ ''s'') = Some (n * 1000000000)"
proof -
  let ?ds = "show_nat (nat n)"
  obtain c cs where c: "?ds = c # cs" "is_digit c" using show_nat_Cons by blast
  have nd: "\<not> is_digit CHR ''s''" "in_unit CHR ''s''" by (auto simp: is_digit_def in_unit_def)
  have li: "leadingInt 0 (?ds @ ''s'') = Some (n, ''s'')"
    using leadingInt_digits [of ?ds "''s''" 0] assms nd by simp
  have part: "duration_part (?ds @ ''s'') = Some (n * 1000000000, [])"
    using li c assms nd by (simp add: duration_part_def unitMap_def)
  have "duration_parts 0 (?ds @ ''s'') = Some (n * 1000000000)"
    using part c assms by (subst duration_parts.simps) (simp add: duration_parts.simps [of _ "[]"] Let_def)
  moreover have "split_sign (?ds @ ''s'') = (False, ?ds @ ''s'')" using c is_digit_not_sign [OF c(2)] by (simp add: split_sign_def)
  moreover have "?ds @ ''s'' \<noteq> ''0''" using c by (cases cs) auto
  ultimately show ?thesis using assms by (simp add: ParseDuration_def show_int_def)
qed

end
