(* ===== verification/Config_Manager.thy ===== *)
theory Config_Manager
  imports KV_Redis KV_Dynamo Go_Scan
begin

text \<open>
  \<^verbatim>\<open>internal/registry/config.go\<close>: the registry of configuration validators and the configuration
  manager, which loads a configuration from YAML, JSON or the environment over the defaults and keeps
  it only if it validates. The file system, the environment and the YAML decoder of \<^verbatim>\<open>gopkg.in/yaml.v3\<close>
  are parameters; the JSON decoder of the standard library is modelled for the configuration structs.
\<close>

section \<open>Validators\<close>

record ConfigValidator =
  cv_Validate :: "InternalConfig option \<Rightarrow> gerror option"
  cv_Type :: string

definition Register :: "ConfigValidator option \<Rightarrow> ConfigValidator gomap \<Rightarrow> ConfigValidator gomap res" where
  "Register validator reg =
     (case validator of None \<Rightarrow> Inl (Panic ''validator cannot be nil'') | Some v \<Rightarrow>
      if cv_Type v = [] then Inl (Panic ''validator type cannot be empty'')
      else if map_of reg (cv_Type v) \<noteq> None then Inl (Panic (''validator for type '' @ cv_Type v @ '' is already registered''))
      else Inr (gomap_set reg (cv_Type v) v))"

definition GetValidator :: "ConfigValidator gomap \<Rightarrow> string \<Rightarrow> ConfigValidator option" where
  "GetValidator reg validatorType = map_of reg validatorType"

text \<open>The two validators that the packages register when they are initialised.\<close>

definition RedisConfigValidator :: ConfigValidator where
  "RedisConfigValidator = \<lparr>cv_Validate = RedisConfig_Validate, cv_Type = ''redis''\<rparr>"

definition DynamoDBConfigValidator :: ConfigValidator where
  "DynamoDBConfigValidator = \<lparr>cv_Validate = DynamoConfig_Validate, cv_Type = ''dynamodb''\<rparr>"

definition init_validators :: "ConfigValidator gomap res" where
  "init_validators =
     (case Register (Some DynamoDBConfigValidator) [] of
        Inl e \<Rightarrow> Inl e
      | Inr reg \<Rightarrow> Register (Some RedisConfigValidator) reg)"

section \<open>Defaults\<close>

definition defaultInternalConfig :: InternalConfig where
  "defaultInternalConfig = \<lparr>
     ic_KVStore = \<lparr>ikv_Type = ''redis'',
       ikv_RedisConfig = \<lparr>irc_Endpoints = [''localhost:6379''], irc_ClusterMode = False, irc_Password = [], irc_DB = 0,
         irc_PoolSize = 10, irc_MinIdleConns = 5\<rparr>,
       ikv_DynamoDBConfig = \<lparr>idc_Region = [], idc_TableName = [], idc_Endpoint = [], idc_AccessKeyID = [], idc_SecretAccessKey = []\<rparr>,
       ikv_CassandraConfig = \<lparr>icc_Hosts = [], icc_Keyspace = [], icc_ConsistencyLevel = [], icc_Username = [], icc_Password = []\<rparr>,
       ikv_MaxRetries = 3, ikv_DialTimeout = 5 * 1000000000, ikv_ReadTimeout = 3 * 1000000000, ikv_WriteTimeout = 3 * 1000000000\<rparr>,
     ic_Database = \<lparr>idb_Type = ''mysql'', idb_Host = ''localhost'', idb_Port = 3306, idb_Database = [], idb_Username = [],
       idb_Password = [], idb_SSLMode = [], idb_MaxOpenConns = 25, idb_MaxIdleConns = 5, idb_ConnMaxLifetime = 5 * 60000000000,
       idb_ConnMaxIdleTime = 10 * 60000000000, idb_ConnectionTimeout = 10 * 1000000000\<rparr>,
     ic_Tables = Some [],
     ic_WriteBack = \<lparr>iwb_BatchSize = 100, iwb_DrainRate = 50, iwb_MaxRetries = 5, iwb_RetryBackoffBase = 1 * 1000000000,
       iwb_RetryBackoffMax = 30 * 1000000000, iwb_DefaultTTL = 1 * 3600000000000, iwb_QueueType = ''memory'', iwb_QueueBufferSize = 10000,
       iwb_KafkaConfig = \<lparr>ikc_Brokers = [''localhost:9092''], ikc_Topic = ''shock-absorber-writeback'',
         ikc_GroupID = ''shock-absorber-writeback'', ikc_BatchSize = 100, ikc_BatchTimeout = 10 * 1000000, ikc_WriteTimeout = 10 * 1000000000,
         ikc_ReadTimeout = 10 * 1000000000, ikc_RequiredAcks = - 1, ikc_MaxMessageBytes = 1000000, ikc_MinBytes = 1,
         ikc_MaxBytes = 10 * 1024 * 1024, ikc_MaxWait = 100 * 1000000\<rparr>\<rparr>,
     ic_AutoScaling = \<lparr>ias_Enabled = False, ias_MinDrainers = 1, ias_MaxDrainers = 10, ias_CPUThresholdHigh = FFin 80,
       ias_CPUThresholdLow = FFin 30, ias_ScaleUpCooldown = 1 * 60000000000, ias_ScaleDownCooldown = 5 * 60000000000,
       ias_MonitoringInterval = 10 * 1000000000\<rparr>\<rparr>"

record ConfigManager =
  cm_config :: InternalConfig

definition NewConfigManager :: ConfigManager where
  "NewConfigManager = \<lparr>cm_config = defaultInternalConfig\<rparr>"

section \<open>Validation\<close>

definition validate_database :: "InternalDatabaseConfig \<Rightarrow> gerror option" where
  "validate_database d =
     (if idb_Type d = [] then Some (Errorf ''database.type is required'' [])
      else if idb_Type d \<noteq> ''mysql'' \<and> idb_Type d \<noteq> ''postgresql'' then Some (Errorf (''database.type must be 'mysql' or 'postgresql'' @ [CHR 0x27]) [])
      else if idb_Host d = [] then Some (Errorf ''database.host is required'' [])
      else if idb_Port d \<le> 0 \<or> 65535 < idb_Port d then Some (Errorf ''database.port must be between 1 and 65535'' [])
      else if idb_Database d = [] then Some (Errorf ''database.database is required'' [])
      else if idb_Username d = [] then Some (Errorf ''database.username is required'' [])
      else if idb_MaxOpenConns d \<le> 0 then Some (Errorf ''database.max_open_conns must be greater than 0'' [])
      else None)"

definition validate_writeback :: "InternalWriteBackConfig \<Rightarrow> gerror option" where
  "validate_writeback w =
     (if iwb_BatchSize w \<le> 0 then Some (Errorf ''writeback.batch_size must be greater than 0'' [])
      else if iwb_DrainRate w \<le> 0 then Some (Errorf ''writeback.drain_rate must be greater than 0'' [])
      else if iwb_MaxRetries w < 0 then Some (Errorf ''writeback.max_retries must be non-negative'' [])
      else if iwb_DefaultTTL w \<le> 0 then Some (Errorf ''writeback.default_ttl must be greater than 0'' [])
      else if iwb_QueueType w \<noteq> [] \<and> iwb_QueueType w \<noteq> ''memory'' \<and> iwb_QueueType w \<noteq> ''redis'' \<and> iwb_QueueType w \<noteq> ''kafka''
      then Some (Errorf (''writeback.queue_type must be 'memory', 'redis', or 'kafka'' @ [CHR 0x27]) [])
      else if iwb_QueueType w = ''kafka'' \<and> ikc_Brokers (iwb_KafkaConfig w) = []
      then Some (Errorf (''kafka_config.brokers is required when queue_type is 'kafka'' @ [CHR 0x27]) [])
      else if iwb_QueueType w = ''kafka'' \<and> ikc_Topic (iwb_KafkaConfig w) = []
      then Some (Errorf (''kafka_config.topic is required when queue_type is 'kafka'' @ [CHR 0x27]) [])
      else None)"

definition validate_autoscaling :: "InternalAutoScalingConfig \<Rightarrow> gerror option" where
  "validate_autoscaling a =
     (if \<not> ias_Enabled a then None
      else if ias_MinDrainers a \<le> 0 then Some (Errorf ''autoscaling.min_drainers must be greater than 0'' [])
      else if ias_MaxDrainers a < ias_MinDrainers a then Some (Errorf ''autoscaling.max_drainers must be >= autoscaling.min_drainers'' [])
      else if f_le (ias_CPUThresholdHigh a) (FFin 0) \<or> f_less (FFin 100) (ias_CPUThresholdHigh a)
      then Some (Errorf ''autoscaling.cpu_threshold_high must be between 0 and 100'' [])
      else if f_le (ias_CPUThresholdLow a) (FFin 0) \<or> f_less (FFin 100) (ias_CPUThresholdLow a)
      then Some (Errorf ''autoscaling.cpu_threshold_low must be between 0 and 100'' [])
      else if f_le (ias_CPUThresholdHigh a) (ias_CPUThresholdLow a)
      then Some (Errorf ''autoscaling.cpu_threshold_low must be < autoscaling.cpu_threshold_high'' [])
      else if ias_MonitoringInterval a \<le> 0 then Some (Errorf ''autoscaling.monitoring_interval must be greater than 0'' [])
      else None)"

definition validateConfig :: "ConfigValidator gomap \<Rightarrow> InternalConfig \<Rightarrow> gerror option" where
  "validateConfig reg config =
     (if ikv_Type (ic_KVStore config) = [] then Some (Errorf ''kvstore.type is required'' [])
      else case GetValidator reg (ikv_Type (ic_KVStore config)) of
        None \<Rightarrow> Some (Errorf ''unsupported KV store type: %s'' [ikv_Type (ic_KVStore config)])
      | Some validator \<Rightarrow>
          (case cv_Validate validator (Some config) of
             Some err \<Rightarrow> Some (Wrapf ''kvstore validation failed: %w'' [] err)
           | None \<Rightarrow>
               (case validate_database (ic_Database config) of
                  Some err \<Rightarrow> Some err
                | None \<Rightarrow>
                    (case validate_writeback (ic_WriteBack config) of
                       Some err \<Rightarrow> Some err
                     | None \<Rightarrow> validate_autoscaling (ic_AutoScaling config)))))"

section \<open>JSON\<close>

text \<open>
  \<^verbatim>\<open>json.Unmarshal\<close> into a struct that already has values: \<open>dec j x\<close> is what decoding \<open>j\<close> makes of \<open>x\<close>. Null
  changes nothing, except that it empties a slice or a map. A slice keeps its elements as the
  starting points of the new ones; an element of a map starts from zero. A member goes to the field
  of its name, or else to the first whose name differs in case only; other members are skipped.
\<close>

definition config_type_error :: "string \<Rightarrow> gerror" where
  "config_type_error ty = Errorf ''json: cannot unmarshal into Go value of type %s'' [ty]"

definition dec_string :: "json \<Rightarrow> string \<Rightarrow> string res" where
  "dec_string j x = (case j of JNull \<Rightarrow> Inr x | JStr s \<Rightarrow> Inr s | _ \<Rightarrow> Inl (config_type_error ''string''))"

definition dec_bool :: "json \<Rightarrow> bool \<Rightarrow> bool res" where
  "dec_bool j x = (case j of JNull \<Rightarrow> Inr x | JBool b \<Rightarrow> Inr b | _ \<Rightarrow> Inl (config_type_error ''bool''))"

definition dec_int :: "json \<Rightarrow> int \<Rightarrow> int res" where
  "dec_int j x = (case j of JNull \<Rightarrow> Inr x
     | JNum t \<Rightarrow> (case ParseInt 64 t of Some i \<Rightarrow> Inr i | None \<Rightarrow> Inl (config_type_error ''int''))
     | _ \<Rightarrow> Inl (config_type_error ''int''))"

definition dec_float :: "json \<Rightarrow> gofloat \<Rightarrow> gofloat res" where
  "dec_float j x = (case j of JNull \<Rightarrow> Inr x
     | JNum t \<Rightarrow> (case ParseFloat round_f64 t of Some f \<Rightarrow> Inr f | None \<Rightarrow> Inl (config_type_error ''float64''))
     | _ \<Rightarrow> Inl (config_type_error ''float64''))"

fun dec_elems :: "json list \<Rightarrow> string list \<Rightarrow> string list res" where
  "dec_elems [] xs = Inr []"
| "dec_elems (j # js) xs =
     (case dec_string j (case xs of [] \<Rightarrow> [] | x # _ \<Rightarrow> x) of
        Inl e \<Rightarrow> Inl e
      | Inr y \<Rightarrow> (case dec_elems js (tl xs) of Inl e \<Rightarrow> Inl e | Inr ys \<Rightarrow> Inr (y # ys)))"

definition dec_strings :: "json \<Rightarrow> string list \<Rightarrow> string list res" where
  "dec_strings j xs = (case j of JNull \<Rightarrow> Inr [] | JArr js \<Rightarrow> dec_elems js xs | _ \<Rightarrow> Inl (config_type_error ''[]string''))"

type_synonym 'a fields = "(string \<times> (json \<Rightarrow> 'a \<Rightarrow> 'a res)) list"

definition find_field :: "'a fields \<Rightarrow> string \<Rightarrow> (json \<Rightarrow> 'a \<Rightarrow> 'a res) option" where
  "find_field fs name =
     (case map_of fs name of
        Some d \<Rightarrow> Some d
      | None \<Rightarrow> map_option snd (find (\<lambda>(n, d). ToLower n = ToLower name) fs))"

fun dec_members :: "'a fields \<Rightarrow> (string \<times> json) list \<Rightarrow> 'a \<Rightarrow> 'a res" where
  "dec_members fs [] x = Inr x"
| "dec_members fs ((k, j) # ms) x =
     (case find_field fs k of
        None \<Rightarrow> dec_members fs ms x
      | Some d \<Rightarrow> (case d j x of Inl e \<Rightarrow> Inl e | Inr y \<Rightarrow> dec_members fs ms y))"

definition dec_struct :: "string \<Rightarrow> 'a fields \<Rightarrow> json \<Rightarrow> 'a \<Rightarrow> 'a res" where
  "dec_struct ty fs j x = (case j of JNull \<Rightarrow> Inr x | JObj ms \<Rightarrow> dec_members fs ms x | _ \<Rightarrow> Inl (config_type_error ty))"

definition fld :: "string \<Rightarrow> ('r \<Rightarrow> 'a) \<Rightarrow> (('a \<Rightarrow> 'a) \<Rightarrow> 'r \<Rightarrow> 'r) \<Rightarrow> (json \<Rightarrow> 'a \<Rightarrow> 'a res) \<Rightarrow> string \<times> (json \<Rightarrow> 'r \<Rightarrow> 'r res)" where
  "fld name get upd dec = (name, \<lambda>j r. case dec j (get r) of Inl e \<Rightarrow> Inl e | Inr x \<Rightarrow> Inr (upd (\<lambda>_. x) r))"

definition redis_fields :: "InternalRedisConfig fields" where
  "redis_fields = [fld ''Endpoints'' irc_Endpoints irc_Endpoints_update dec_strings,
     fld ''ClusterMode'' irc_ClusterMode irc_ClusterMode_update dec_bool, fld ''Password'' irc_Password irc_Password_update dec_string,
     fld ''DB'' irc_DB irc_DB_update dec_int, fld ''PoolSize'' irc_PoolSize irc_PoolSize_update dec_int,
     fld ''MinIdleConns'' irc_MinIdleConns irc_MinIdleConns_update dec_int]"

definition dynamo_fields :: "InternalDynamoDBConfig fields" where
  "dynamo_fields = [fld ''region'' idc_Region idc_Region_update dec_string, fld ''table_name'' idc_TableName idc_TableName_update dec_string,
     fld ''endpoint'' idc_Endpoint idc_Endpoint_update dec_string, fld ''access_key_id'' idc_AccessKeyID idc_AccessKeyID_update dec_string,
     fld ''secret_access_key'' idc_SecretAccessKey idc_SecretAccessKey_update dec_string]"

definition cassandra_fields :: "InternalCassandraConfig fields" where
  "cassandra_fields = [fld ''Hosts'' icc_Hosts icc_Hosts_update dec_strings, fld ''Keyspace'' icc_Keyspace icc_Keyspace_update dec_string,
     fld ''ConsistencyLevel'' icc_ConsistencyLevel icc_ConsistencyLevel_update dec_string,
     fld ''Username'' icc_Username icc_Username_update dec_string, fld ''Password'' icc_Password icc_Password_update dec_string]"

definition kvstore_fields :: "InternalKVStoreConfig fields" where
  "kvstore_fields = [fld ''type'' ikv_Type ikv_Type_update dec_string,
     fld ''redis_config'' ikv_RedisConfig ikv_RedisConfig_update (dec_struct ''InternalRedisConfig'' redis_fields),
     fld ''dynamodb_config'' ikv_DynamoDBConfig ikv_DynamoDBConfig_update (dec_struct ''InternalDynamoDBConfig'' dynamo_fields),
     fld ''cassandra_config'' ikv_CassandraConfig ikv_CassandraConfig_update (dec_struct ''InternalCassandraConfig'' cassandra_fields),
     fld ''max_retries'' ikv_MaxRetries ikv_MaxRetries_update dec_int, fld ''dial_timeout'' ikv_DialTimeout ikv_DialTimeout_update dec_int,
     fld ''read_timeout'' ikv_ReadTimeout ikv_ReadTimeout_update dec_int, fld ''write_timeout'' ikv_WriteTimeout ikv_WriteTimeout_update dec_int]"

definition database_fields :: "InternalDatabaseConfig fields" where
  "database_fields = [fld ''Type'' idb_Type idb_Type_update dec_string, fld ''Host'' idb_Host idb_Host_update dec_string,
     fld ''Port'' idb_Port idb_Port_update dec_int, fld ''Database'' idb_Database idb_Database_update dec_string,
     fld ''Username'' idb_Username idb_Username_update dec_string, fld ''Password'' idb_Password idb_Password_update dec_string,
     fld ''SSLMode'' idb_SSLMode idb_SSLMode_update dec_string, fld ''MaxOpenConns'' idb_MaxOpenConns idb_MaxOpenConns_update dec_int,
     fld ''MaxIdleConns'' idb_MaxIdleConns idb_MaxIdleConns_update dec_int,
     fld ''ConnMaxLifetime'' idb_ConnMaxLifetime idb_ConnMaxLifetime_update dec_int,
     fld ''ConnMaxIdleTime'' idb_ConnMaxIdleTime idb_ConnMaxIdleTime_update dec_int,
     fld ''ConnectionTimeout'' idb_ConnectionTimeout idb_ConnectionTimeout_update dec_int]"

definition table_fields :: "InternalTableConfig fields" where
  "table_fields = [fld ''TTL'' itc_TTL itc_TTL_update dec_int,
     fld ''WriteBackBatchSize'' itc_WriteBackBatchSize itc_WriteBackBatchSize_update dec_int,
     fld ''DrainRate'' itc_DrainRate itc_DrainRate_update dec_int, fld ''Enabled'' itc_Enabled itc_Enabled_update dec_bool,
     fld ''Namespace'' itc_Namespace itc_Namespace_update dec_string]"

definition zero_table_config :: InternalTableConfig where
  "zero_table_config = \<lparr>itc_TTL = 0, itc_WriteBackBatchSize = 0, itc_DrainRate = 0, itc_Enabled = False, itc_Namespace = []\<rparr>"

fun dec_tables :: "(string \<times> json) list \<Rightarrow> InternalTableConfig gomap \<Rightarrow> InternalTableConfig gomap res" where
  "dec_tables [] m = Inr m"
| "dec_tables ((k, j) # ms) m =
     (case dec_struct ''InternalTableConfig'' table_fields j zero_table_config of
        Inl e \<Rightarrow> Inl e
      | Inr t \<Rightarrow> dec_tables ms (gomap_set m k t))"

definition dec_table_map :: "json \<Rightarrow> InternalTableConfig gomap option \<Rightarrow> InternalTableConfig gomap option res" where
  "dec_table_map j m = (case j of JNull \<Rightarrow> Inr None
     | JObj ms \<Rightarrow> (case dec_tables ms (case m of None \<Rightarrow> [] | Some m \<Rightarrow> m) of Inl e \<Rightarrow> Inl e | Inr m' \<Rightarrow> Inr (Some m'))
     | _ \<Rightarrow> Inl (config_type_error ''map[string]InternalTableConfig''))"

definition kafka_fields :: "InternalKafkaConfig fields" where
  "kafka_fields = [fld ''brokers'' ikc_Brokers ikc_Brokers_update dec_strings, fld ''topic'' ikc_Topic ikc_Topic_update dec_string,
     fld ''group_id'' ikc_GroupID ikc_GroupID_update dec_string, fld ''batch_size'' ikc_BatchSize ikc_BatchSize_update dec_int,
     fld ''batch_timeout'' ikc_BatchTimeout ikc_BatchTimeout_update dec_int, fld ''write_timeout'' ikc_WriteTimeout ikc_WriteTimeout_update dec_int,
     fld ''read_timeout'' ikc_ReadTimeout ikc_ReadTimeout_update dec_int, fld ''required_acks'' ikc_RequiredAcks ikc_RequiredAcks_update dec_int,
     fld ''max_message_bytes'' ikc_MaxMessageBytes ikc_MaxMessageBytes_update dec_int, fld ''min_bytes'' ikc_MinBytes ikc_MinBytes_update dec_int,
     fld ''max_bytes'' ikc_MaxBytes ikc_MaxBytes_update dec_int, fld ''max_wait'' ikc_MaxWait ikc_MaxWait_update dec_int]"

definition writeback_fields :: "InternalWriteBackConfig fields" where
  "writeback_fields = [fld ''batch_size'' iwb_BatchSize iwb_BatchSize_update dec_int, fld ''drain_rate'' iwb_DrainRate iwb_DrainRate_update dec_int,
     fld ''max_retries'' iwb_MaxRetries iwb_MaxRetries_update dec_int,
     fld ''retry_backoff_base'' iwb_RetryBackoffBase iwb_RetryBackoffBase_update dec_int,
     fld ''retry_backoff_max'' iwb_RetryBackoffMax iwb_RetryBackoffMax_update dec_int,
     fld ''default_ttl'' iwb_DefaultTTL iwb_DefaultTTL_update dec_int, fld ''queue_type'' iwb_QueueType iwb_QueueType_update dec_string,
     fld ''queue_buffer_size'' iwb_QueueBufferSize iwb_QueueBufferSize_update dec_int,
     fld ''kafka_config'' iwb_KafkaConfig iwb_KafkaConfig_update (dec_struct ''InternalKafkaConfig'' kafka_fields)]"

definition autoscaling_fields :: "InternalAutoScalingConfig fields" where
  "autoscaling_fields = [fld ''Enabled'' ias_Enabled ias_Enabled_update dec_bool,
     fld ''MinDrainers'' ias_MinDrainers ias_MinDrainers_update dec_int, fld ''MaxDrainers'' ias_MaxDrainers ias_MaxDrainers_update dec_int,
     fld ''CPUThresholdHigh'' ias_CPUThresholdHigh ias_CPUThresholdHigh_update dec_float,
     fld ''CPUThresholdLow'' ias_CPUThresholdLow ias_CPUThresholdLow_update dec_float,
     fld ''ScaleUpCooldown'' ias_ScaleUpCooldown ias_ScaleUpCooldown_update dec_int,
     fld ''ScaleDownCooldown'' ias_ScaleDownCooldown ias_ScaleDownCooldown_update dec_int,
     fld ''MonitoringInterval'' ias_MonitoringInterval ias_MonitoringInterval_update dec_int]"

definition config_fields :: "InternalConfig fields" where
  "config_fields = [fld ''KVStore'' ic_KVStore ic_KVStore_update (dec_struct ''InternalKVStoreConfig'' kvstore_fields),
     fld ''Database'' ic_Database ic_Database_update (dec_struct ''InternalDatabaseConfig'' database_fields),
     fld ''Tables'' ic_Tables ic_Tables_update dec_table_map,
     fld ''WriteBack'' ic_WriteBack ic_WriteBack_update (dec_struct ''InternalWriteBackConfig'' writeback_fields),
     fld ''AutoScaling'' ic_AutoScaling ic_AutoScaling_update (dec_struct ''InternalAutoScalingConfig'' autoscaling_fields)]"

definition json_Unmarshal_config :: "string \<Rightarrow> InternalConfig \<Rightarrow> InternalConfig res" where
  "json_Unmarshal_config s config =
     (case parse_json s of None \<Rightarrow> Inl json_syntax_error | Some j \<Rightarrow> dec_struct ''InternalConfig'' config_fields j config)"

section \<open>Loading\<close>

text \<open>The common end of the loaders: the configuration replaces the current one if it validates.\<close>

definition install :: "ConfigValidator gomap \<Rightarrow> InternalConfig \<Rightarrow> ConfigManager \<Rightarrow> gerror option \<times> ConfigManager" where
  "install reg config cm =
     (case validateConfig reg config of
        Some err \<Rightarrow> (Some (Wrapf ''invalid configuration: %w'' [] err), cm)
      | None \<Rightarrow> (None, cm\<lparr>cm_config := config\<rparr>))"

definition LoadFromYAML :: "ConfigValidator gomap \<Rightarrow> (string \<Rightarrow> InternalConfig \<Rightarrow> InternalConfig res) \<Rightarrow> string \<Rightarrow> ConfigManager \<Rightarrow>
    gerror option \<times> ConfigManager" where
  "LoadFromYAML reg yaml_Unmarshal dat cm =
     (case (if dat \<noteq> [] then yaml_Unmarshal dat defaultInternalConfig else Inr defaultInternalConfig) of
        Inl err \<Rightarrow> (Some (Wrapf ''failed to parse YAML config: %w'' [] err), cm)
      | Inr config \<Rightarrow> install reg config cm)"

definition LoadFromJSON :: "ConfigValidator gomap \<Rightarrow> string \<Rightarrow> ConfigManager \<Rightarrow> gerror option \<times> ConfigManager" where
  "LoadFromJSON reg dat cm =
     (case (if dat \<noteq> [] then json_Unmarshal_config dat defaultInternalConfig else Inr defaultInternalConfig) of
        Inl err \<Rightarrow> (Some (Wrapf ''failed to parse JSON config: %w'' [] err), cm)
      | Inr config \<Rightarrow> install reg config cm)"

text \<open>\<^verbatim>\<open>filepath.Ext\<close>: from the last dot of the last element of the path.\<close>

definition Ext :: "string \<Rightarrow> string" where
  "Ext path =
     (let base = takeWhile (\<lambda>c. c \<noteq> CHR ''/'') (rev path)
      in if CHR ''.'' \<in> set base then CHR ''.'' # rev (takeWhile (\<lambda>c. c \<noteq> CHR ''.'') base) else [])"

definition LoadFromFile :: "ConfigValidator gomap \<Rightarrow> (string \<Rightarrow> InternalConfig \<Rightarrow> InternalConfig res) \<Rightarrow> (string \<Rightarrow> string res) \<Rightarrow> string \<Rightarrow>
    ConfigManager \<Rightarrow> gerror option \<times> ConfigManager" where
  "LoadFromFile reg yaml_Unmarshal readFile filePath cm =
     (case readFile filePath of
        Inl err \<Rightarrow> (Some (Wrapf ''failed to read config file: %w'' [] err), cm)
      | Inr dat \<Rightarrow>
          (let ext = ToLower (Ext filePath) in
           if ext = ''.yaml'' \<or> ext = ''.yml'' then LoadFromYAML reg yaml_Unmarshal dat cm
           else if ext = ''.json'' then LoadFromJSON reg dat cm
           else (Some (Errorf ''unsupported config file format: %s (supported: .yaml, .yml, .json)'' [ext]), cm)))"

text \<open>A variable that is set and not empty changes a field; a number that does not parse changes nothing.\<close>

definition env_set :: "(string \<Rightarrow> string) \<Rightarrow> string \<Rightarrow> (string \<Rightarrow> 'c \<Rightarrow> 'c) \<Rightarrow> 'c \<Rightarrow> 'c" where
  "env_set getenv name f c = (let val = getenv (''SHOCK_ABSORBER_'' @ name) in if val \<noteq> [] then f val c else c)"

definition env_int :: "(string \<Rightarrow> string) \<Rightarrow> string \<Rightarrow> (int \<Rightarrow> 'c \<Rightarrow> 'c) \<Rightarrow> 'c \<Rightarrow> 'c" where
  "env_int getenv name f = env_set getenv name (\<lambda>val c. case Sscanf_d val of Some n \<Rightarrow> f n c | None \<Rightarrow> c)"

definition env_bool :: "(string \<Rightarrow> string) \<Rightarrow> string \<Rightarrow> (bool \<Rightarrow> 'c \<Rightarrow> 'c) \<Rightarrow> 'c \<Rightarrow> 'c" where
  "env_bool getenv name f = env_set getenv name (\<lambda>val. f (val = ''true'' \<or> val = ''1''))"

definition env_float :: "(string \<Rightarrow> string) \<Rightarrow> string \<Rightarrow> (gofloat \<Rightarrow> 'c \<Rightarrow> 'c) \<Rightarrow> 'c \<Rightarrow> 'c" where
  "env_float getenv name f = env_set getenv name (\<lambda>val c. case Sscanf_f val of Some x \<Rightarrow> f x c | None \<Rightarrow> c)"

definition env_redis :: "(string \<Rightarrow> string) \<Rightarrow> InternalRedisConfig \<Rightarrow> InternalRedisConfig" where
  "env_redis getenv c =
     (let c1 = env_set getenv ''KVSTORE_ENDPOINTS'' (\<lambda>val c. c\<lparr>irc_Endpoints := str_split CHR '','' val\<rparr>) c;
          c2 = env_bool getenv ''KVSTORE_CLUSTER_MODE'' (\<lambda>b c. c\<lparr>irc_ClusterMode := b\<rparr>) c1;
          c3 = env_set getenv ''KVSTORE_PASSWORD'' (\<lambda>val c. c\<lparr>irc_Password := val\<rparr>) c2;
          c4 = env_int getenv ''KVSTORE_DB'' (\<lambda>n c. c\<lparr>irc_DB := n\<rparr>) c3
      in env_int getenv ''KVSTORE_POOL_SIZE'' (\<lambda>n c. c\<lparr>irc_PoolSize := n\<rparr>) c4)"

definition env_kvstore :: "(string \<Rightarrow> string) \<Rightarrow> InternalKVStoreConfig \<Rightarrow> InternalKVStoreConfig" where
  "env_kvstore getenv c =
     (let c1 = env_set getenv ''KVSTORE_TYPE'' (\<lambda>val c. c\<lparr>ikv_Type := val\<rparr>) c;
          c2 = c1\<lparr>ikv_RedisConfig := env_redis getenv (ikv_RedisConfig c1)\<rparr>
      in env_int getenv ''KVSTORE_MAX_RETRIES'' (\<lambda>n c. c\<lparr>ikv_MaxRetries := n\<rparr>) c2)"

definition env_database :: "(string \<Rightarrow> string) \<Rightarrow> InternalDatabaseConfig \<Rightarrow> InternalDatabaseConfig" where
  "env_database getenv c =
     (let c1 = env_set getenv ''DATABASE_TYPE'' (\<lambda>val c. c\<lparr>idb_Type := val\<rparr>) c;
          c2 = env_set getenv ''DATABASE_HOST'' (\<lambda>val c. c\<lparr>idb_Host := val\<rparr>) c1;
          c3 = env_int getenv ''DATABASE_PORT'' (\<lambda>n c. c\<lparr>idb_Port := n\<rparr>) c2;
          c4 = env_set getenv ''DATABASE_DATABASE'' (\<lambda>val c. c\<lparr>idb_Database := val\<rparr>) c3;
          c5 = env_set getenv ''DATABASE_USERNAME'' (\<lambda>val c. c\<lparr>idb_Username := val\<rparr>) c4;
          c6 = env_set getenv ''DATABASE_PASSWORD'' (\<lambda>val c. c\<lparr>idb_Password := val\<rparr>) c5;
          c7 = env_set getenv ''DATABASE_SSL_MODE'' (\<lambda>val c. c\<lparr>idb_SSLMode := val\<rparr>) c6;
          c8 = env_int getenv ''DATABASE_MAX_OPEN_CONNS'' (\<lambda>n c. c\<lparr>idb_MaxOpenConns := n\<rparr>) c7
      in env_int getenv ''DATABASE_MAX_IDLE_CONNS'' (\<lambda>n c. c\<lparr>idb_MaxIdleConns := n\<rparr>) c8)"

definition env_writeback :: "(string \<Rightarrow> string) \<Rightarrow> InternalWriteBackConfig \<Rightarrow> InternalWriteBackConfig" where
  "env_writeback getenv c =
     (let c1 = env_int getenv ''WRITEBACK_BATCH_SIZE'' (\<lambda>n c. c\<lparr>iwb_BatchSize := n\<rparr>) c;
          c2 = env_int getenv ''WRITEBACK_DRAIN_RATE'' (\<lambda>n c. c\<lparr>iwb_DrainRate := n\<rparr>) c1;
          c3 = env_int getenv ''WRITEBACK_MAX_RETRIES'' (\<lambda>n c. c\<lparr>iwb_MaxRetries := n\<rparr>) c2;
          c4 = env_set getenv ''WRITEBACK_DEFAULT_TTL'' (\<lambda>val c. case ParseDuration val of Some ttl \<Rightarrow> c\<lparr>iwb_DefaultTTL := ttl\<rparr> | None \<Rightarrow> c) c3
      in env_set getenv ''WRITEBACK_QUEUE_TYPE'' (\<lambda>val c. c\<lparr>iwb_QueueType := val\<rparr>) c4)"

definition env_autoscaling :: "(string \<Rightarrow> string) \<Rightarrow> InternalAutoScalingConfig \<Rightarrow> InternalAutoScalingConfig" where
  "env_autoscaling getenv c =
     (let c1 = env_bool getenv ''AUTOSCALING_ENABLED'' (\<lambda>b c. c\<lparr>ias_Enabled := b\<rparr>) c;
          c2 = env_int getenv ''AUTOSCALING_MIN_DRAINERS'' (\<lambda>n c. c\<lparr>ias_MinDrainers := n\<rparr>) c1;
          c3 = env_int getenv ''AUTOSCALING_MAX_DRAINERS'' (\<lambda>n c. c\<lparr>ias_MaxDrainers := n\<rparr>) c2;
          c4 = env_float getenv ''AUTOSCALING_CPU_THRESHOLD_HIGH'' (\<lambda>x c. c\<lparr>ias_CPUThresholdHigh := x\<rparr>) c3
      in env_float getenv ''AUTOSCALING_CPU_THRESHOLD_LOW'' (\<lambda>x c. c\<lparr>ias_CPUThresholdLow := x\<rparr>) c4)"

definition env_config :: "(string \<Rightarrow> string) \<Rightarrow> InternalConfig" where
  "env_config getenv =
     (let c = defaultInternalConfig in
      c\<lparr>ic_KVStore := env_kvstore getenv (ic_KVStore c), ic_Database := env_database getenv (ic_Database c),
        ic_WriteBack := env_writeback getenv (ic_WriteBack c), ic_AutoScaling := env_autoscaling getenv (ic_AutoScaling c)\<rparr>)"

definition LoadFromEnv :: "ConfigValidator gomap \<Rightarrow> (string \<Rightarrow> string) \<Rightarrow> ConfigManager \<Rightarrow> gerror option \<times> ConfigManager" where
  "LoadFromEnv reg getenv cm = install reg (env_config getenv) cm"

section \<open>Queries\<close>

definition cm_GetConfig :: "ConfigManager \<Rightarrow> InternalConfig" where
  "cm_GetConfig cm = cm_config cm"

definition GetTableConfig :: "string \<Rightarrow> ConfigManager \<Rightarrow> InternalTableConfig" where
  "GetTableConfig tableName cm =
     (let w = ic_WriteBack (cm_config cm) in
      case map_of (case ic_Tables (cm_config cm) of None \<Rightarrow> [] | Some m \<Rightarrow> m) tableName of
        None \<Rightarrow> \<lparr>itc_TTL = iwb_DefaultTTL w, itc_WriteBackBatchSize = iwb_BatchSize w, itc_DrainRate = iwb_DrainRate w,
                 itc_Enabled = False, itc_Namespace = []\<rparr>
      | Some c \<Rightarrow>
          (let c1 = (if itc_TTL c = 0 then c\<lparr>itc_TTL := iwb_DefaultTTL w\<rparr> else c);
               c2 = (if itc_WriteBackBatchSize c1 = 0 then c1\<lparr>itc_WriteBackBatchSize := iwb_BatchSize w\<rparr> else c1)
           in if itc_DrainRate c2 = 0 then c2\<lparr>itc_DrainRate := iwb_DrainRate w\<rparr> else c2))"

section \<open>Lemmas\<close>

lemmas load_defs = LoadFromYAML_def LoadFromJSON_def LoadFromFile_def LoadFromEnv_def install_def

lemma validateConfig_None:
  "validateConfig reg c = None \<longleftrightarrow>
     ikv_Type (ic_KVStore c) \<noteq> [] \<and> (\<exists>v. map_of reg (ikv_Type (ic_KVStore c)) = Some v \<and> cv_Validate v (Some c) = None) \<and>
     validate_database (ic_Database c) = None \<and> validate_writeback (ic_WriteBack c) = None \<and> validate_autoscaling (ic_AutoScaling c) = None"
  by (auto simp: validateConfig_def GetValidator_def split: option.splits)

lemma validate_writeback_None:
  "validate_writeback w = None \<longleftrightarrow> 0 < iwb_BatchSize w \<and> 0 < iwb_DrainRate w \<and> 0 \<le> iwb_MaxRetries w \<and> 0 < iwb_DefaultTTL w \<and>
     iwb_QueueType w \<in> {[], ''memory'', ''redis'', ''kafka''} \<and>
     (iwb_QueueType w = ''kafka'' \<longrightarrow> ikc_Brokers (iwb_KafkaConfig w) \<noteq> [] \<and> ikc_Topic (iwb_KafkaConfig w) \<noteq> [])"
  by (auto simp: validate_writeback_def)

lemma GetTableConfig_nonzero:
  assumes "iwb_DefaultTTL (ic_WriteBack (cm_config cm)) \<noteq> 0" and "iwb_BatchSize (ic_WriteBack (cm_config cm)) \<noteq> 0"
    and "iwb_DrainRate (ic_WriteBack (cm_config cm)) \<noteq> 0"
  shows "itc_TTL (GetTableConfig t cm) \<noteq> 0 \<and> itc_WriteBackBatchSize (GetTableConfig t cm) \<noteq> 0 \<and> itc_DrainRate (GetTableConfig t cm) \<noteq> 0"
  using assms by (simp add: GetTableConfig_def Let_def split: option.split)

lemma init_validators_eq: "init_validators = Inr [(''dynamodb'', DynamoDBConfigValidator), (''redis'', RedisConfigValidator)]"
  by (simp add: init_validators_def Register_def DynamoDBConfigValidator_def RedisConfigValidator_def gomap_set_def)

text \<open>The manager's life: loads from any source, with any contents, in any order.\<close>

inductive cm_step :: "ConfigValidator gomap \<Rightarrow> ConfigManager \<Rightarrow> ConfigManager \<Rightarrow> bool" for reg where
  yaml: "LoadFromYAML reg yaml_Unmarshal dat cm = (e, cm') \<Longrightarrow> cm_step reg cm cm'"
| json: "LoadFromJSON reg dat cm = (e, cm') \<Longrightarrow> cm_step reg cm cm'"
| from_file: "LoadFromFile reg yaml_Unmarshal readFile filePath cm = (e, cm') \<Longrightarrow> cm_step reg cm cm'"
| env: "LoadFromEnv reg getenv cm = (e, cm') \<Longrightarrow> cm_step reg cm cm'"

lemma install_effect: "install reg c cm = (e, cm') \<Longrightarrow> cm' = cm \<or> validateConfig reg (cm_config cm') = None"
  by (auto simp: install_def split: option.splits)

lemma cm_step_effect: "cm_step reg cm cm' \<Longrightarrow> cm' = cm \<or> validateConfig reg (cm_config cm') = None"
proof (induction rule: cm_step.induct)
  case (yaml y dat cm e cm')
  then show ?case by (auto simp: LoadFromYAML_def dest: install_effect split: sum.splits if_splits)
next
  case (json dat cm e cm')
  then show ?case by (auto simp: LoadFromJSON_def dest: install_effect split: sum.splits if_splits)
next
  case (from_file y r p cm e cm')
  then show ?case
    by (auto simp: LoadFromFile_def LoadFromYAML_def LoadFromJSON_def Let_def dest: install_effect split: sum.splits if_splits)
next
  case (env g cm e cm')
  then show ?case by (auto simp: LoadFromEnv_def dest: install_effect)
qed

lemma cm_reachable: "(cm_step reg)\<^sup>*\<^sup>* NewConfigManager cm \<Longrightarrow> cm = NewConfigManager \<or> validateConfig reg (cm_config cm) = None"
  by (induction rule: rtranclp_induct) (auto dest: cm_step_effect)

lemma f_le_cases:
  "f_le (FFin x) (FFin y) \<longleftrightarrow> x \<le> y" "f_le FNaN f \<longleftrightarrow> False" "f_le f FNaN \<longleftrightarrow> False"
  "f_le (FInf b) (FFin y) \<longleftrightarrow> b" "f_le (FFin x) (FInf b) \<longleftrightarrow> \<not> b" "f_le (FInf a) (FInf b) \<longleftrightarrow> a \<or> \<not> b"
  by (cases f; auto simp: f_le_def)+

lemma f_less_NaN [simp]: "\<not> f_less f FNaN"
  by (cases f) auto

section \<open>Properties\<close>

text \<open>
  C11. The manager never holds an invalid configuration that was loaded. After any sequence of loads,
  from files, YAML, JSON or the environment, succeeding and failing, the configuration is either the
  default one, untouched, or one that validates: a host, a port in range, positive batch size, drain
  rate and time to live, a known queue. The configuration of a table never has zeros.
\<close>

theorem config_manager_invariant:
  assumes "(cm_step reg)\<^sup>*\<^sup>* NewConfigManager cm"
  shows "(cm = NewConfigManager \<or> validateConfig reg (cm_config cm) = None \<and>
      0 < idb_Port (ic_Database (cm_config cm)) \<and> idb_Port (ic_Database (cm_config cm)) \<le> 65535 \<and> idb_Host (ic_Database (cm_config cm)) \<noteq> [] \<and>
      0 < iwb_BatchSize (ic_WriteBack (cm_config cm)) \<and> 0 < iwb_DrainRate (ic_WriteBack (cm_config cm)) \<and>
      0 < iwb_DefaultTTL (ic_WriteBack (cm_config cm)) \<and>
      iwb_QueueType (ic_WriteBack (cm_config cm)) \<in> {[], ''memory'', ''redis'', ''kafka''}) \<and>
    itc_TTL (GetTableConfig t cm) \<noteq> 0 \<and> itc_WriteBackBatchSize (GetTableConfig t cm) \<noteq> 0 \<and> itc_DrainRate (GetTableConfig t cm) \<noteq> 0"
proof -
  consider "cm = NewConfigManager" | "validateConfig reg (cm_config cm) = None" using cm_reachable [OF assms] by (rule disjE)
  then show ?thesis
  proof cases
    case 1
    then show ?thesis using GetTableConfig_nonzero [of cm t] by (simp add: NewConfigManager_def defaultInternalConfig_def)
  next
    case 2
    then have w: "validate_writeback (ic_WriteBack (cm_config cm)) = None" and d: "validate_database (ic_Database (cm_config cm)) = None"
      by (auto simp: validateConfig_None)
    have "0 < idb_Port (ic_Database (cm_config cm)) \<and> idb_Port (ic_Database (cm_config cm)) \<le> 65535 \<and> idb_Host (ic_Database (cm_config cm)) \<noteq> []"
      using d by (auto simp: validate_database_def split: if_splits)
    then show ?thesis using w 2 GetTableConfig_nonzero [of cm t] unfolding validate_writeback_None by auto
  qed
qed

definition ex_getenv :: "string \<Rightarrow> string" where
  "ex_getenv name =
     (if name = ''SHOCK_ABSORBER_DATABASE_DATABASE'' then ''shop'' else if name = ''SHOCK_ABSORBER_DATABASE_USERNAME'' then ''app''
      else if name = ''SHOCK_ABSORBER_DATABASE_PORT'' then ''3307'' else if name = ''SHOCK_ABSORBER_WRITEBACK_DEFAULT_TTL'' then ''90s''
      else if name = ''SHOCK_ABSORBER_KVSTORE_ENDPOINTS'' then ''a:1,b:2'' else [])"

definition ex_validators :: "ConfigValidator gomap" where
  "ex_validators = [(''dynamodb'', DynamoDBConfigValidator), (''redis'', RedisConfigValidator)]"

lemma ex_env_loads:
  "LoadFromEnv ex_validators ex_getenv NewConfigManager = (None, \<lparr>cm_config = env_config ex_getenv\<rparr>)"
  "itc_TTL (GetTableConfig ''users'' \<lparr>cm_config = env_config ex_getenv\<rparr>) = 90 * 1000000000"
proof -
  have "validateConfig ex_validators (env_config ex_getenv) = None" by code_simp
  then show "LoadFromEnv ex_validators ex_getenv NewConfigManager = (None, \<lparr>cm_config = env_config ex_getenv\<rparr>)"
    by (simp add: LoadFromEnv_def install_def NewConfigManager_def)
  show "itc_TTL (GetTableConfig ''users'' \<lparr>cm_config = env_config ex_getenv\<rparr>) = 90 * 1000000000" by code_simp
qed

theorem config_manager_invariant_witness:
  "LoadFromEnv ex_validators ex_getenv NewConfigManager = (None, \<lparr>cm_config = env_config ex_getenv\<rparr>) \<and>
   itc_DrainRate (GetTableConfig ''users'' \<lparr>cm_config = env_config ex_getenv\<rparr>) \<noteq> 0"
proof -
  have "(cm_step ex_validators)\<^sup>*\<^sup>* NewConfigManager \<lparr>cm_config = env_config ex_getenv\<rparr>"
    using cm_step.env [OF ex_env_loads(1)] by (rule r_into_rtranclp)
  from config_manager_invariant [OF this] show ?thesis using ex_env_loads(1) by simp
qed

text \<open>
  The defaults do not validate. They name no database and no user, so with the validators the
  program registers, loading empty YAML or JSON data, or an empty environment, always fails and the
  manager keeps a configuration that \<^verbatim>\<open>validateConfig\<close> rejects.
\<close>

theorem default_config_rejected:
  "case init_validators of
     Inl _ \<Rightarrow> False
   | Inr reg \<Rightarrow> validateConfig reg (cm_GetConfig NewConfigManager) = Some (Errorf ''database.database is required'' []) \<and>
       LoadFromYAML reg yaml_Unmarshal [] cm = (Some (Wrapf ''invalid configuration: %w'' [] (Errorf ''database.database is required'' [])), cm) \<and>
       LoadFromJSON reg [] cm = LoadFromYAML reg yaml_Unmarshal [] cm \<and> LoadFromEnv reg (\<lambda>_. []) cm = LoadFromYAML reg yaml_Unmarshal [] cm"
proof -
  have v: "validateConfig ex_validators defaultInternalConfig = Some (Errorf ''database.database is required'' [])" by code_simp
  have e: "env_config (\<lambda>_. []) = defaultInternalConfig"
    by (simp add: env_config_def env_kvstore_def env_redis_def env_database_def env_writeback_def env_autoscaling_def env_set_def env_int_def
        env_bool_def env_float_def Let_def)
  show ?thesis unfolding init_validators_eq ex_validators_def [symmetric]
    using v e by (simp add: load_defs cm_GetConfig_def NewConfigManager_def)
qed

text \<open>
  What the checks of the CPU thresholds admit. For enabled auto-scaling the validation succeeds
  exactly when the numbers of drainers and the interval are in order and the thresholds are: two
  finite numbers with 0 < low < high \<open>\<le>\<close> 100, as the messages say; or one finite number in that range and
  a NaN, or two NaNs, because every comparison with a NaN is false.
\<close>

theorem autoscaling_thresholds:
  assumes "ias_Enabled a"
  shows "validate_autoscaling a = None \<longleftrightarrow>
    0 < ias_MinDrainers a \<and> ias_MinDrainers a \<le> ias_MaxDrainers a \<and> 0 < ias_MonitoringInterval a \<and>
    (case (ias_CPUThresholdLow a, ias_CPUThresholdHigh a) of
       (FFin l, FFin h) \<Rightarrow> 0 < l \<and> l < h \<and> h \<le> 100
     | (FFin l, FNaN) \<Rightarrow> 0 < l \<and> l \<le> 100
     | (FNaN, FFin h) \<Rightarrow> 0 < h \<and> h \<le> 100
     | (FNaN, FNaN) \<Rightarrow> True
     | _ \<Rightarrow> False)"
  using assms
  by (cases "ias_CPUThresholdLow a"; cases "ias_CPUThresholdHigh a")
    (auto simp: validate_autoscaling_def f_le_cases)

theorem autoscaling_thresholds_witness:
  "validate_autoscaling ((ic_AutoScaling defaultInternalConfig)\<lparr>ias_Enabled := True, ias_CPUThresholdLow := FNaN\<rparr>) = None"
  by (subst autoscaling_thresholds) (simp_all add: defaultInternalConfig_def)

text \<open>
  The environment is read back. A variable that holds a printed integer, endpoints joined by commas,
  or a whole number of seconds sets its field to exactly that value, and with no variables set the
  configuration is the default one.
\<close>

theorem env_values_read_back:
  assumes "getenv ''SHOCK_ABSORBER_DATABASE_PORT'' = show_int port" and "- (2 ^ 63) \<le> port" and "port < 2 ^ 63"
    and "getenv ''SHOCK_ABSORBER_WRITEBACK_DEFAULT_TTL'' = show_int secs @ ''s''" and "0 \<le> secs" and "secs * 1000000000 < 2 ^ 63"
    and "getenv ''SHOCK_ABSORBER_KVSTORE_ENDPOINTS'' = str_join '','' es" and "str_join '','' es \<noteq> []" and "\<forall>e \<in> set es. CHR '','' \<notin> set e"
  shows "idb_Port (ic_Database (env_config getenv)) = port \<and> iwb_DefaultTTL (ic_WriteBack (env_config getenv)) = secs * 1000000000 \<and>
    irc_Endpoints (ikv_RedisConfig (ic_KVStore (env_config getenv))) = es"
proof -
  have ne: "show_int port \<noteq> []" by (simp add: show_int_def)
  have "es \<noteq> []" using assms(8) by auto
  then have s: "str_split CHR '','' (str_join '','' es) = es" using str_split_join assms(9) by blast
  have keep: "f (env_set getenv n g c) = f c" if "\<And>v c. f (g v c) = f c" for f g c and n :: string and getenv
    using that by (simp add: env_set_def Let_def)
  have keepi: "f (env_int getenv n g c) = f c" if "\<And>v c. f (g v c) = f c" for f g c and n :: string and getenv
    using that by (simp add: env_int_def env_set_def Let_def split: option.split)
  have keepb: "f (env_bool getenv n g c) = f c" if "\<And>v c. f (g v c) = f c" for f g c and n :: string and getenv
    using that by (simp add: env_bool_def env_set_def Let_def)
  have "idb_Port (ic_Database (env_config getenv)) = port"
    using assms(1-3) ne
    by (simp add: env_config_def env_database_def Let_def keep keepi) (simp add: env_int_def env_set_def Let_def Sscanf_show_int)
  moreover have "iwb_DefaultTTL (ic_WriteBack (env_config getenv)) = secs * 1000000000"
    using assms(4-6) by (simp add: env_config_def env_writeback_def Let_def keep keepi)
      (simp add: env_set_def Let_def ParseDuration_seconds)
  moreover have "irc_Endpoints (ikv_RedisConfig (ic_KVStore (env_config getenv))) = es"
    using assms(7,8) s
    by (simp add: env_config_def env_kvstore_def env_redis_def Let_def keep keepi keepb) (simp add: env_set_def Let_def)
  ultimately show ?thesis by simp
qed

theorem env_values_read_back_witness:
  "idb_Port (ic_Database (env_config ex_getenv)) = 3307 \<and> iwb_DefaultTTL (ic_WriteBack (env_config ex_getenv)) = 90 * 1000000000 \<and>
   irc_Endpoints (ikv_RedisConfig (ic_KVStore (env_config ex_getenv))) = [''a:1'', ''b:2'']"
proof -
  have "ex_getenv ''SHOCK_ABSORBER_DATABASE_PORT'' = show_int 3307" "ex_getenv ''SHOCK_ABSORBER_WRITEBACK_DEFAULT_TTL'' = show_int 90 @ ''s''"
    "ex_getenv ''SHOCK_ABSORBER_KVSTORE_ENDPOINTS'' = str_join '','' [''a:1'', ''b:2'']" by code_simp+
  then show ?thesis by (intro env_values_read_back) simp_all
qed

end
