(* ===== verification/Schema_Translator.thy ===== *)
theory Schema_Translator
  imports Schema_Validator
begin

text \<open>
  \<^verbatim>\<open>internal/schema/translator.go\<close>: records to key-value pairs and back, records to INSERT and
  UPDATE statements, result rows to records. A byte slice that may be nil is an option. The order
  of the flds of an UPDATE is the order of iteration over the map of changes.
\<close>

section \<open>Operations\<close>

record Translator =
  keyFormat :: string

definition NewTranslator :: Translator where
  "NewTranslator = \<lparr>keyFormat = ''%s:%v''\<rparr>"

definition NewTranslatorWithKeyFormat :: "string \<Rightarrow> Translator" where
  "NewTranslatorWithKeyFormat format = \<lparr>keyFormat = format\<rparr>"

text \<open>The verb s of \<^verbatim>\<open>fmt\<close>, for operands that are not compound.\<close>

definition show_s :: "goval \<Rightarrow> string" where
  "show_s v =
     (case v of VString s \<Rightarrow> s | VBytes s \<Rightarrow> s | VTime t \<Rightarrow> time_String t | VNil \<Rightarrow> ''%!s(<nil>)''
      | v \<Rightarrow> ''%!s('' @ type_name v @ ''='' @ show_v v @ '')'')"

text \<open>
  \<^verbatim>\<open>fmt.Sprintf\<close> for the verbs s and v, the two placeholders a key format has, and the escaped
  percent sign. A verb without an operand and operands left over print as in the \<^verbatim>\<open>fmt\<close> package.
\<close>

fun Sprintf :: "string \<Rightarrow> goval list \<Rightarrow> string" where
  "Sprintf [] args =
     (if args = [] then []
      else ''%!(EXTRA '' @ str_join '', '' (map (\<lambda>a. type_name a @ ''='' @ show_v a) args) @ '')'')"
| "Sprintf (c # f) args =
     (if c = CHR ''%'' then
        (case f of
           [] \<Rightarrow> ''%!(NOVERB)'' @ Sprintf [] args
         | v # f' \<Rightarrow>
             if v = CHR ''%'' then CHR ''%'' # Sprintf f' args
             else (case args of
                     [] \<Rightarrow> ''%!'' @ [v] @ ''(MISSING)'' @ Sprintf f' []
                   | a # as \<Rightarrow> (if v = CHR ''s'' then show_s a else show_v a) @ Sprintf f' as))
      else c # Sprintf f args)"

text \<open>The type of the first column of that name, the empty string when there is none.\<close>

definition column_type :: "schema \<Rightarrow> string \<Rightarrow> string" where
  "column_type s colName = (case find_column s colName of None \<Rightarrow> [] | Some c \<Rightarrow> col_Type c)"

text \<open>The loop over the fields of a record that converts each with its column's type.\<close>

fun convert_fields :: "(goval \<Rightarrow> string \<Rightarrow> goval res) \<Rightarrow> schema \<Rightarrow> grecord \<Rightarrow> grecord res" where
  "convert_fields conv s [] = Inr []"
| "convert_fields conv s ((colName, value) # flds) =
     (case (if value = VNil then Inr VNil else conv value (column_type s colName)) of
        Inl err \<Rightarrow> Inl (Wrapf ''failed to convert value for column '%s': %w'' [colName] err)
      | Inr converted \<Rightarrow>
          (case convert_fields conv s flds of
             Inl err \<Rightarrow> Inl err
           | Inr rest \<Rightarrow> Inr ((colName, converted) # rest)))"

definition ToKV :: "Translator \<Rightarrow> tzinfo \<Rightarrow> grecord option \<Rightarrow> schema option \<Rightarrow> (string \<times> string) res" where
  "ToKV t tz record schema =
     (case record of None \<Rightarrow> Inl (Errorf ''record cannot be nil'' []) | Some r \<Rightarrow>
     (case schema of None \<Rightarrow> Inl (Errorf ''schema cannot be nil'' []) | Some s \<Rightarrow>
     (case ValidateRecord tz (Some s) (Some r) of
        Some err \<Rightarrow> Inl (Wrapf ''validation failed: %w'' [] err)
      | None \<Rightarrow>
     (case map_of r (sch_PrimaryKey s) of
        None \<Rightarrow> Inl (Errorf ''primary key '%s' not found in record'' [sch_PrimaryKey s])
      | Some pkValue \<Rightarrow>
     (let key = Sprintf (keyFormat t) [VString (sch_TableName s), pkValue] in
      case convert_fields (ConvertToDBValue tz) s r of
        Inl err \<Rightarrow> Inl err
      | Inr kvRecord \<Rightarrow>
     (case json_Marshal (VMap kvRecord) of
        Inl err \<Rightarrow> Inl (Wrapf ''failed to marshal record to JSON: %w'' [] err)
      | Inr value \<Rightarrow> Inr (key, value)))))))"

text \<open>The outcome of the validation at the end of \<^verbatim>\<open>FromKV\<close> is ignored, as the code does.\<close>

definition FromKV :: "Translator \<Rightarrow> tzinfo \<Rightarrow> string \<Rightarrow> string option \<Rightarrow> schema option \<Rightarrow> grecord res" where
  "FromKV t tz key value schema =
     (case value of None \<Rightarrow> Inl (Errorf ''value cannot be nil'' []) | Some v \<Rightarrow>
     (case schema of None \<Rightarrow> Inl (Errorf ''schema cannot be nil'' []) | Some s \<Rightarrow>
     (case json_Unmarshal_map v of
        Inl err \<Rightarrow> Inl (Wrapf ''failed to unmarshal JSON: %w'' [] err)
      | Inr kvRecord \<Rightarrow> convert_fields (ConvertFromDBValue tz) s (case kvRecord of None \<Rightarrow> [] | Some m \<Rightarrow> m))))"

text \<open>The columns an INSERT names, with their converted values.\<close>

fun insert_columns :: "tzinfo \<Rightarrow> grecord \<Rightarrow> column list \<Rightarrow> (string \<times> goval) list res" where
  "insert_columns tz r [] = Inr []"
| "insert_columns tz r (col # cols) =
     (let value = map_of r (col_Name col) in
      if value = None \<and> col_Nullable col then insert_columns tz r cols
      else (case (case value of None \<Rightarrow> Inr VNil
                  | Some v \<Rightarrow> (if v = VNil then Inr VNil else ConvertToDBValue tz v (col_Type col))) of
              Inl err \<Rightarrow> Inl (Wrapf ''failed to convert value for column '%s': %w'' [col_Name col] err)
            | Inr converted \<Rightarrow>
                (case insert_columns tz r cols of
                   Inl err \<Rightarrow> Inl err
                 | Inr rest \<Rightarrow> Inr ((col_Name col, converted) # rest))))"

definition ToDB :: "Translator \<Rightarrow> tzinfo \<Rightarrow> grecord option \<Rightarrow> schema option \<Rightarrow> (string \<times> goval list) res" where
  "ToDB t tz record schema =
     (case record of None \<Rightarrow> Inl (Errorf ''record cannot be nil'' []) | Some r \<Rightarrow>
     (case schema of None \<Rightarrow> Inl (Errorf ''schema cannot be nil'' []) | Some s \<Rightarrow>
     (case ValidateRecord tz (Some s) (Some r) of
        Some err \<Rightarrow> Inl (Wrapf ''validation failed: %w'' [] err)
      | None \<Rightarrow>
     (case insert_columns tz r (sch_Columns s) of
        Inl err \<Rightarrow> Inl err
      | Inr cols \<Rightarrow>
          if cols = [] then Inl (Errorf ''no columns to insert'' [])
          else Inr (''INSERT INTO '' @ sch_TableName s @ '' ('' @ str_join '', '' (map fst cols) @
                    '') VALUES ('' @ str_join '', '' (map (\<lambda>_. ''?'') cols) @ '')'', map snd cols)))))"

text \<open>The SET clause: a field without a column keeps its value as it is.\<close>

fun set_parts :: "tzinfo \<Rightarrow> schema \<Rightarrow> grecord \<Rightarrow> (string \<times> goval) list res" where
  "set_parts tz s [] = Inr []"
| "set_parts tz s ((colName, value) # flds) =
     (case (case find_column s colName of
              None \<Rightarrow> Inr value
            | Some col \<Rightarrow> (if value = VNil then Inr VNil else ConvertToDBValue tz value (col_Type col))) of
        Inl err \<Rightarrow> Inl (Wrapf ''failed to convert value for column '%s': %w'' [colName] err)
      | Inr converted \<Rightarrow>
          (case set_parts tz s flds of
             Inl err \<Rightarrow> Inl err
           | Inr rest \<Rightarrow> Inr ((colName @ '' = ?'', converted) # rest)))"

text \<open>
  The fallback conversion with the type of the first column indexes the columns: with no columns it
  would panic, the outcome of the last branch but one. Its result is used only when no column
  has the name of the primary key.
\<close>

definition ToDBUpdate :: "Translator \<Rightarrow> tzinfo \<Rightarrow> goval \<Rightarrow> grecord option \<Rightarrow> schema option \<Rightarrow> (string \<times> goval list) res" where
  "ToDBUpdate t tz key updates schema =
     (if updates = None \<or> updates = Some [] then Inl (Errorf ''updates cannot be empty'' [])
      else let u = the updates in
     case schema of None \<Rightarrow> Inl (Errorf ''schema cannot be nil'' []) | Some s \<Rightarrow>
     (case ValidatePartialRecord tz (Some s) (Some u) of
        Some err \<Rightarrow> Inl (Wrapf ''validation failed: %w'' [] err)
      | None \<Rightarrow>
     (case ValidatePrimaryKey tz (Some s) key of
        Some err \<Rightarrow> Inl (Wrapf ''invalid primary key: %w'' [] err)
      | None \<Rightarrow>
      if map_of u (sch_PrimaryKey s) \<noteq> None then Inl (Errorf (''cannot update primary key '%s'' @ [CHR 0x27]) [sch_PrimaryKey s])
      else
     (case set_parts tz s u of
        Inl err \<Rightarrow> Inl err
      | Inr parts \<Rightarrow>
      if parts = [] then Inl (Errorf ''no columns to update'' [])
      else
     (case sch_Columns s of
        [] \<Rightarrow> Inl (Panic ''runtime error: index out of range [0] with length 0'')
      | c0 # _ \<Rightarrow>
     (case (case find_column s (sch_PrimaryKey s) of
              None \<Rightarrow> ConvertToDBValue tz key (col_Type c0)
            | Some col \<Rightarrow> ConvertToDBValue tz key (col_Type col)) of
        Inl err \<Rightarrow> Inl (Wrapf ''failed to convert primary key value: %w'' [] err)
      | Inr pkValue \<Rightarrow>
          Inr (''UPDATE '' @ sch_TableName s @ '' SET '' @ str_join '', '' (map fst parts) @ '' WHERE '' @
               sch_PrimaryKey s @ '' = ?'', map snd parts @ [pkValue])))))))"

text \<open>
  A row is what its \<^verbatim>\<open>Scan\<close> delivers into \<^verbatim>\<open>interface{}\<close> variables; \<^verbatim>\<open>database/sql\<close> reports an error
  when the number of variables is not the number of columns of the row.
\<close>

definition scan_row :: "goval list res \<Rightarrow> nat \<Rightarrow> goval list res" where
  "scan_row row n =
     (case row of Inl err \<Rightarrow> Inl err
      | Inr vs \<Rightarrow> if length vs = n then Inr vs
                  else Inl (Errorf ''sql: expected %d destination arguments in Scan, not %d''
                         [show_nat (length vs), show_nat n]))"

fun row_fields :: "tzinfo \<Rightarrow> (column \<times> goval) list \<Rightarrow> grecord \<Rightarrow> grecord res" where
  "row_fields tz [] record = Inr record"
| "row_fields tz ((col, value) # rest) record =
     (case (if value = VNil then Inr VNil else ConvertFromDBValue tz value (col_Type col)) of
        Inl err \<Rightarrow> Inl (Wrapf ''failed to convert value for column '%s': %w'' [col_Name col] err)
      | Inr converted \<Rightarrow> row_fields tz rest (gomap_set record (col_Name col) converted))"

definition FromDB :: "Translator \<Rightarrow> tzinfo \<Rightarrow> goval list res option \<Rightarrow> schema option \<Rightarrow> grecord res" where
  "FromDB t tz row schema =
     (case row of None \<Rightarrow> Inl (Errorf ''row cannot be nil'' []) | Some rw \<Rightarrow>
     (case schema of None \<Rightarrow> Inl (Errorf ''schema cannot be nil'' []) | Some s \<Rightarrow>
     (case scan_row rw (length (sch_Columns s)) of
        Inl err \<Rightarrow> Inl (Wrapf ''failed to scan row: %w'' [] err)
      | Inr values \<Rightarrow> row_fields tz (zip (sch_Columns s) values) [])))"

section \<open>What survives storage\<close>

text \<open>
  The converted values that come back from the store unchanged: integers a float64 holds exactly,
  UTF-8 strings, times the RFC 3339 layouts express, booleans, and nil. A string of a JSON column
  has to be a JSON text. Byte slices are not among them (they come back base64 encoded), nor are
  floats, for which the decimal form is not analysed here.
\<close>

fun kv_exact :: "string \<Rightarrow> goval \<Rightarrow> bool" where
  "kv_exact ty VNil = True"
| "kv_exact ty (VInt w) = (\<bar>sint w\<bar> \<le> 2 ^ 53)"
| "kv_exact ty (VInt64 w) = (\<bar>sint w\<bar> \<le> 2 ^ 53)"
| "kv_exact ty (VInt16 w) = True"
| "kv_exact ty (VString s) = (utf8_valid s \<and> (db_switch ty = C_JSON \<longrightarrow> \<not> is_err (json_Unmarshal s)))"
| "kv_exact ty (VTime t) = time_ok t"
| "kv_exact ty (VBool b) = True"
| "kv_exact ty _ = False"

section \<open>Lemmas\<close>

lemma toString_string [simp]: "toString (VString s) = Inr s"
  by (simp add: toString_def)

lemma toBool_bool [simp]: "toBool (VBool b) = Inr b"
  by (simp add: toBool_def)

lemma toJSON_string: "\<not> is_err (json_Unmarshal s) \<Longrightarrow> toJSON (VString s) = Inr (VString s)"
  by (auto simp: toJSON_def is_err_iff split: sum.splits)

lemma ConvertToDBValue_nonnil:
  "ConvertToDBValue tz v ty = Inr d \<Longrightarrow> v \<noteq> VNil \<Longrightarrow> d \<noteq> VNil"
  by (auto simp: ConvertToDBValue_def dest: toJSON_result split: db_clause.splits)

lemmas image_back = word_of_int_f_to_sint_64 word_of_int_f_to_sint_16 first_some_time toJSON_string

lemma ConvertFromDBValue_image:
  assumes "ConvertToDBValue tz v ty = Inr d" and "v \<noteq> VNil" and "kv_exact ty d"
  shows "ConvertFromDBValue tz (json_image d) ty = Inr d \<and> json_plain d"
proof (cases "db_switch ty")
  case C_JSON
  then have "toJSON v = Inr d" using assms(1,2) by (simp add: ConvertToDBValue_def)
  then obtain s where "d = VString s" using toJSON_result by blast
  then show ?thesis using C_JSON assms(3) by (simp add: ConvertFromDBValue_def toJSON_string)
next
  case C_SMALLINT
  then obtain w where "d = VInt16 w" using assms(1,2) by (auto simp: ConvertToDBValue_def)
  then show ?thesis using C_SMALLINT sint_range_size [of w]
    by (simp add: ConvertFromDBValue_def image_back size_word_def del: f_to_sint.simps of_int_sint) linarith
qed (use assms in \<open>auto simp: ConvertToDBValue_def ConvertFromDBValue_def image_back simp del: f_to_sint.simps of_int_sint\<close>)

lemma Convert_VNil [simp]: "ConvertToDBValue tz VNil ty = Inr VNil" "ConvertFromDBValue tz VNil ty = Inr VNil"
  by (simp_all add: ConvertToDBValue_def ConvertFromDBValue_def)

lemma convert_fields_map:
  assumes "\<forall>(c, v) \<in> set r. conv v (column_type s c) = Inr (g c v)" and "\<forall>ty. conv VNil ty = Inr VNil"
  shows "convert_fields conv s r = Inr (map (\<lambda>(c, v). (c, g c v)) r)"
  using assms by (induction r) auto

text \<open>The value of a field as \<^verbatim>\<open>ToKV\<close> stores it.\<close>

definition stored :: "tzinfo \<Rightarrow> schema \<Rightarrow> string \<Rightarrow> goval \<Rightarrow> goval" where
  "stored tz s c v = (case ConvertToDBValue tz v (column_type s c) of Inl _ \<Rightarrow> VNil | Inr d \<Rightarrow> d)"

definition storable :: "tzinfo \<Rightarrow> schema \<Rightarrow> grecord \<Rightarrow> bool" where
  "storable tz s r \<longleftrightarrow> (\<forall>(c, v) \<in> set r. utf8_valid c \<and>
     \<not> is_err (ConvertToDBValue tz v (column_type s c)) \<and> kv_exact (column_type s c) (stored tz s c v))"

definition stored_record :: "tzinfo \<Rightarrow> schema \<Rightarrow> grecord \<Rightarrow> grecord" where
  "stored_record tz s r = map (\<lambda>(c, v). (c, stored tz s c v)) r"

lemma stored_back:
  assumes "storable tz s r" and "(c, v) \<in> set r"
  shows "ConvertToDBValue tz v (column_type s c) = Inr (stored tz s c v)"
    and "ConvertFromDBValue tz (json_image (stored tz s c v)) (column_type s c) = Inr (stored tz s c v)"
    and "json_plain (stored tz s c v)" and "utf8_valid c"
proof -
  have f: "utf8_valid c" "\<not> is_err (ConvertToDBValue tz v (column_type s c))" "kv_exact (column_type s c) (stored tz s c v)"
    using assms by (auto simp: storable_def)
  then show c: "ConvertToDBValue tz v (column_type s c) = Inr (stored tz s c v)" and "utf8_valid c"
    by (auto simp: stored_def is_err_iff split: sum.splits)
  have "v = VNil \<Longrightarrow> stored tz s c v = VNil" by (simp add: stored_def)
  then show "ConvertFromDBValue tz (json_image (stored tz s c v)) (column_type s c) = Inr (stored tz s c v)"
    and "json_plain (stored tz s c v)"
    using ConvertFromDBValue_image [OF c _ f(3)] by (cases "v = VNil"; simp)+
qed

lemma map_fst_stored [simp]: "map fst (stored_record tz s r) = map fst r"
  by (auto simp: stored_record_def)

lemma map_of_stored: "map_of (stored_record tz s r) c = map_option (stored tz s c) (map_of r c)"
  by (induction r) (auto simp: stored_record_def)

lemma Sprintf_default: "Sprintf (keyFormat NewTranslator) [VString tbl, pk] = tbl @ '':'' @ show_v pk"
  by (simp add: NewTranslator_def show_s_def)

lemma ToKV_eq:
  assumes "ValidateRecord tz (Some s) (Some r) = None" and "map_of r (sch_PrimaryKey s) = Some pk"
    and "storable tz s r"
  shows "ToKV NewTranslator tz (Some r) (Some s) =
    (case json_Marshal (VMap (stored_record tz s r)) of
        Inl err \<Rightarrow> Inl (Wrapf ''failed to marshal record to JSON: %w'' [] err)
      | Inr value \<Rightarrow> Inr (sch_TableName s @ '':'' @ show_v pk, value))"
proof -
  have "convert_fields (ConvertToDBValue tz) s r = Inr (stored_record tz s r)"
    unfolding stored_record_def using assms(3) by (intro convert_fields_map) (auto simp: stored_back(1))
  with assms(1,2) show ?thesis by (simp add: ToKV_def Sprintf_default del: Sprintf.simps) (simp split: sum.split)
qed

lemma ToKV_FromKV_stored:
  assumes "gomap_wf r" and "ValidateRecord tz (Some s) (Some r) = None"
    and "map_of r (sch_PrimaryKey s) = Some pk" and "storable tz s r"
  shows "\<exists>val. ToKV NewTranslator tz (Some r) (Some s) = Inr (sch_TableName s @ '':'' @ show_v pk, val) \<and>
    FromKV t tz k (Some val) (Some s) = Inr (sort_key fst (stored_record tz s r))"
proof -
  let ?m = "stored_record tz s r" and ?s = "sort_key fst (stored_record tz s r)"
  have plain: "json_plain (VMap ?m)"
  proof -
    have "distinct (map fst ?m)" using assms(1) by (simp add: gomap_wf_def)
    moreover have "list_all (\<lambda>(k, v). utf8_valid k \<and> json_plain v) ?m"
      using stored_back(3,4) [OF assms(4)] by (auto simp: stored_record_def list_all_iff)
    ultimately show ?thesis by simp
  qed
  obtain val where val: "json_Marshal (VMap ?m) = Inr val"
    "json_Unmarshal_map val = Inr (Some (map (\<lambda>(k, v). (k, json_image v)) ?s))"
    using json_Marshal_Unmarshal_map [OF plain] by (auto simp: sort_key_map_snd)
  have inv: "convert_fields (ConvertFromDBValue tz) s (map (\<lambda>(k, v). (k, json_image v)) xs) = Inr xs"
    if "set xs \<subseteq> set ?m" for xs
    using that
  proof (induction xs)
    case (Cons p xs)
    obtain c d where p: "p = (c, d)" by (cases p)
    with Cons.prems obtain v where v: "(c, v) \<in> set r" "d = stored tz s c v" by (auto simp: stored_record_def)
    have "ConvertFromDBValue tz (json_image d) (column_type s c) = Inr d"
      using stored_back(2) [OF assms(4) v(1)] v(2) by simp
    moreover have "json_image d = VNil \<longrightarrow> d = VNil" by (cases d) auto
    ultimately show ?case using Cons p by auto
  qed simp
  have "FromKV t tz k (Some val) (Some s) = Inr ?s"
    using val(2) inv [of ?s] by (simp add: FromKV_def)
  moreover have "ToKV NewTranslator tz (Some r) (Some s) = Inr (sch_TableName s @ '':'' @ show_v pk, val)"
    using ToKV_eq [OF assms(2,3,4)] val(1) by simp
  ultimately show ?thesis by blast
qed

subsection \<open>Statements\<close>

lemma insert_columns_ok:
  assumes "list_all (column_ok tz r) cols"
  shows "\<exists>cs. insert_columns tz r cols = Inr cs \<and>
    map fst cs = map col_Name (filter (\<lambda>c. map_of r (col_Name c) \<noteq> None \<or> \<not> col_Nullable c) cols)"
  using assms
proof (induction cols)
  case (Cons c cols)
  then obtain cs where cs: "insert_columns tz r cols = Inr cs"
    "map fst cs = map col_Name (filter (\<lambda>c. map_of r (col_Name c) \<noteq> None \<or> \<not> col_Nullable c) cols)" by auto
  show ?case
  proof (cases "map_of r (col_Name c)")
    case None
    with Cons.prems cs show ?thesis by (auto simp: column_ok_def)
  next
    case (Some v)
    with Cons.prems have "v = VNil \<or> (\<exists>d. ConvertToDBValue tz v (col_Type c) = Inr d)"
      by (auto simp: column_ok_def not_err_iff split: if_splits)
    with Some cs show ?thesis by auto
  qed
qed simp

lemma set_parts_ok:
  assumes "list_all (\<lambda>(f, v). field_ok tz s f v) u"
  shows "\<exists>ps. set_parts tz s u = Inr ps \<and> map fst ps = map (\<lambda>(f, _). f @ '' = ?'') u"
  using assms
proof (induction u)
  case (Cons p u)
  obtain f v where p: "p = (f, v)" by (cases p)
  from Cons p obtain ps where "set_parts tz s u = Inr ps" "map fst ps = map (\<lambda>(f, _). f @ '' = ?'') u" by auto
  moreover have "\<exists>d. (case find_column s f of None \<Rightarrow> Inr v
            | Some col \<Rightarrow> (if v = VNil then Inr VNil else ConvertToDBValue tz v (col_Type col))) = Inr d"
    using Cons.prems p by (auto simp: field_ok_def not_err_iff split: option.splits if_splits)
  ultimately show ?case using p by auto
qed simp

lemma find_column_exists: "find_column s c = Some col \<Longrightarrow> sch_Columns s \<noteq> []"
  using find_column_name by fastforce

lemma set_parts_length: "set_parts tz s u = Inr ps \<Longrightarrow> length ps = length u"
  by (induction u arbitrary: ps) (auto split: sum.splits option.splits if_splits)

text \<open>The changes and the key that an UPDATE is built for.\<close>

definition update_ok :: "tzinfo \<Rightarrow> goval \<Rightarrow> grecord option \<Rightarrow> schema option \<Rightarrow> bool" where
  "update_ok tz key u s \<longleftrightarrow>
     (case (u, s) of
        (Some u', Some s') \<Rightarrow> u' \<noteq> [] \<and> ValidatePartialRecord tz s u = None \<and> ValidatePrimaryKey tz s key = None \<and>
          map_of u' (sch_PrimaryKey s') = None
      | _ \<Rightarrow> False)"

section \<open>A table for the witnesses\<close>

definition ex_schema :: schema where
  "ex_schema = \<lparr>sch_TableName = ''users'', sch_PrimaryKey = ''id'',
     sch_Columns = [\<lparr>col_Name = ''id'', col_Type = ''INT'', col_Nullable = False, col_Default = VNil\<rparr>,
                    \<lparr>col_Name = ''name'', col_Type = ''VARCHAR(255)'', col_Nullable = True, col_Default = VNil\<rparr>,
                    \<lparr>col_Name = ''active'', col_Type = ''BOOLEAN'', col_Nullable = True, col_Default = VNil\<rparr>],
     sch_Indexes = []\<rparr>"

definition ex_record :: grecord where
  "ex_record = [(''id'', VInt64 7), (''name'', VString ''bob''), (''active'', VInt 1)]"

definition utc :: tzinfo where
  "utc s = (0, ''UTC'')"

section \<open>Properties\<close>


lemma ex_record_ok:
  "gomap_wf ex_record" "ValidateRecord utc (Some ex_schema) (Some ex_record) = None" "storable utc ex_schema ex_record"
  by code_simp+


text \<open>
  C32. A record the key-value path accepts can be written back: when \<^verbatim>\<open>ToKV\<close> succeeds and the schema
  has its primary key among its columns, \<^verbatim>\<open>ToDB\<close> succeeds on the same record. The statement names
  exactly the columns that are present or required, in the order of the schema, with as many
  placeholders and arguments as columns.
\<close>

theorem ToKV_then_ToDB:
  assumes "ToKV t tz (Some r) (Some s) = Inr kv" and "find_column s (sch_PrimaryKey s) = Some pkcol"
  shows "\<exists>args cols. ToDB t tz (Some r) (Some s) =
      Inr (''INSERT INTO '' @ sch_TableName s @ '' ('' @ str_join '', '' cols @ '') VALUES ('' @
           str_join '', '' (replicate (length cols) ''?'') @ '')'', args) \<and>
    cols = map col_Name (filter (\<lambda>c. map_of r (col_Name c) \<noteq> None \<or> \<not> col_Nullable c) (sch_Columns s)) \<and>
    length args = length cols"
proof -
  have v: "ValidateRecord tz (Some s) (Some r) = None" and pk: "map_of r (sch_PrimaryKey s) \<noteq> None"
    using assms(1) by (auto simp: ToKV_def split: option.splits)
  obtain cs where cs: "insert_columns tz r (sch_Columns s) = Inr cs"
    "map fst cs = map col_Name (filter (\<lambda>c. map_of r (col_Name c) \<noteq> None \<or> \<not> col_Nullable c) (sch_Columns s))"
    using insert_columns_ok [of tz r "sch_Columns s"] v unfolding ValidateRecord_None by blast
  have "pkcol \<in> set (filter (\<lambda>c. map_of r (col_Name c) \<noteq> None \<or> \<not> col_Nullable c) (sch_Columns s))"
    using find_column_name [OF assms(2)] pk by auto
  then have "cs \<noteq> []" using cs(2) by (metis (no_types, lifting) list.map_disc_iff list.set(1) empty_iff)
  moreover have "map (\<lambda>_. ''?'') cs = replicate (length (map fst cs)) ''?''"
    by (simp add: map_replicate_const)
  ultimately show ?thesis
    using v cs(1) unfolding cs(2) [symmetric] by (simp add: ToDB_def)
qed

theorem ToKV_then_ToDB_witness:
  "\<exists>args. ToDB NewTranslator utc (Some ex_record) (Some ex_schema) =
     Inr (''INSERT INTO users (id, name, active) VALUES (?, ?, ?)'', args) \<and> length args = 3"
proof -
  have "\<not> is_err (ToKV NewTranslator utc (Some ex_record) (Some ex_schema))" by code_simp
  then obtain kv where kv: "ToKV NewTranslator utc (Some ex_record) (Some ex_schema) = Inr kv"
    unfolding not_err_iff by blast
  obtain c where c: "find_column ex_schema (sch_PrimaryKey ex_schema) = Some c"
    by (simp add: find_column_def ex_schema_def)
  have cols: "map col_Name (filter (\<lambda>c. map_of ex_record (col_Name c) \<noteq> None \<or> \<not> col_Nullable c) (sch_Columns ex_schema)) =
      [''id'', ''name'', ''active'']" by code_simp
  have "sch_TableName ex_schema = ''users''" by code_simp
  moreover have "str_join '', '' [''id'', ''name'', ''active''] = ''id, name, active''"
    "str_join '', '' (replicate (length [''id'', ''name'', ''active'']) ''?'') = ''?, ?, ?''" by code_simp+
  moreover obtain args where "ToDB NewTranslator utc (Some ex_record) (Some ex_schema) =
      Inr (''INSERT INTO '' @ sch_TableName ex_schema @ '' ('' @ str_join '', '' [''id'', ''name'', ''active''] @ '') VALUES ('' @
           str_join '', '' (replicate (length [''id'', ''name'', ''active'']) ''?'') @ '')'', args)"
    "length args = length [''id'', ''name'', ''active'']"
    using ToKV_then_ToDB [OF kv c] unfolding cols by metis
  ultimately show ?thesis by (simp only:) (simp add: eval_nat_numeral)
qed

text \<open>
  C33. \<^verbatim>\<open>ToDBUpdate\<close> never panics on \<^verbatim>\<open>schema.Columns[0]\<close>: a schema without columns is rejected by the
  check of the primary key before the index is evaluated. When it succeeds there is one argument
  per changed field and one more for the key, the key is not among the changes, and it succeeds on
  exactly the changes and keys the validators accept.
\<close>

theorem ToDBUpdate_outcome:
  "ToDBUpdate t tz key u s \<noteq> Inl (Panic ''runtime error: index out of range [0] with length 0'') \<and>
   (is_err (ToDBUpdate t tz key u s) \<longleftrightarrow> \<not> update_ok tz key u s) \<and>
   (case ToDBUpdate t tz key u s of Inr (q, args) \<Rightarrow> length args = length (the u) + 1 | Inl e \<Rightarrow> True)"
proof (cases "update_ok tz key u s")
  case False
  then show ?thesis
    by (auto simp: ToDBUpdate_def update_ok_def Let_def split: option.splits)
next
  case True
  then obtain u' s' where us: "u = Some u'" "s = Some s'" "u' \<noteq> []" by (auto simp: update_ok_def split: option.splits)
  have pk: "ValidatePrimaryKey tz (Some s') key = None" using True us by (simp add: update_ok_def)
  obtain ps where ps: "set_parts tz s' u' = Inr ps" "length ps = length u'"
    using set_parts_ok [of tz s' u'] set_parts_length True us
    by (fastforce simp: update_ok_def ValidatePartialRecord_def validate_fields_None)
  obtain c d where c: "find_column s' (sch_PrimaryKey s') = Some c" "ConvertToDBValue tz key (col_Type c) = Inr d"
    using pk by (auto simp: ValidatePrimaryKey_None not_err_iff)
  obtain c0 cs where "sch_Columns s' = c0 # cs" using find_column_exists [OF c(1)] by (cases "sch_Columns s'") auto
  then show ?thesis using True us ps c by (auto simp: ToDBUpdate_def update_ok_def)
qed

end
