(* ===== verification/Read_Cache.thy ===== *)
theory Read_Cache
  imports Schema_Translator KV_Redis
begin

text \<open>
  \<^verbatim>\<open>internal/read/cache_handler.go\<close>: reads from the key-value store behind a guard against cache
  stampedes. The state of the read path is the world \<open>'w\<close> of the store, the database and the clock,
  the map of pending reads, the clean-ups that \<^verbatim>\<open>MarkComplete\<close> has started (each a goroutine asleep
  until its moment) and the cache fills that \<^verbatim>\<open>ReadFromDB\<close> has started (see the theory on the
  fallback). Times are nanoseconds. The mutexes are not represented: each operation of the guard is
  one step.

  A wait for a read that is still in flight ends when that read completes or the context does. When
  the operations run one after the other every pending read has completed (lemma
  \<open>pending_done_Read\<close>), so in that case the model lets the wait end with the context's deadline.

  The encoding of \<^verbatim>\<open>CacheMetadata\<close>, which nothing uses, is left out.
\<close>

section \<open>State\<close>

record pendingRead =
  pr_result :: "grecord option"
  pr_err :: "gerror option"
  pr_done :: bool
  pr_waiters :: int
  pr_deadline :: int

record 'w rstate =
  r_world :: 'w
  r_pending :: "pendingRead gomap"
  r_cleanups :: "(string \<times> int) list"
  r_fills :: "grecord list"

text \<open>A call of the store, the database or the clock.\<close>

definition on_world :: "('w \<Rightarrow> 'a \<times> 'w) \<Rightarrow> 'w rstate \<Rightarrow> 'a \<times> 'w rstate" where
  "on_world f s = (let (x, w) = f (r_world s) in (x, s\<lparr>r_world := w\<rparr>))"

definition clock_ns :: "('w \<Rightarrow> gotime \<times> 'w) \<Rightarrow> 'w rstate \<Rightarrow> int \<times> 'w rstate" where
  "clock_ns now s = (let (t, s') = on_world now s in (UnixNano t, s'))"

section \<open>Operations\<close>

definition BuildKey :: "string \<Rightarrow> string \<Rightarrow> goval \<Rightarrow> string" where
  "BuildKey ns tableName key =
     (let keyStr = show_v key in
      if ns \<noteq> [] then ns @ '':'' @ tableName @ '':'' @ keyStr else tableName @ '':'' @ keyStr)"

definition IsInFlight :: "('w \<Rightarrow> gotime \<times> 'w) \<Rightarrow> string \<Rightarrow> 'w rstate \<Rightarrow> bool \<times> 'w rstate" where
  "IsInFlight now key s =
     (case map_of (r_pending s) key of
        None \<Rightarrow> (False, s)
      | Some p \<Rightarrow> (let (t, s') = clock_ns now s in (\<not> pr_deadline p < t, s')))"

definition second :: int where
  "second = 1000000000"

definition MarkInFlight :: "('w \<Rightarrow> gotime \<times> 'w) \<Rightarrow> string \<Rightarrow> 'w rstate \<Rightarrow> 'w rstate" where
  "MarkInFlight now key s =
     (let (p, s1) = (case map_of (r_pending s) key of
            Some p \<Rightarrow> (p, s)
          | None \<Rightarrow> (let (t, s') = clock_ns now s
                     in (\<lparr>pr_result = None, pr_err = None, pr_done = False, pr_waiters = 0, pr_deadline = t + 30 * second\<rparr>, s')))
      in s1\<lparr>r_pending := gomap_set (r_pending s1) key (p\<lparr>pr_waiters := pr_waiters p + 1\<rparr>)\<rparr>)"

text \<open>The clean-up goroutine starts its sleep of 100 ms at the present moment.\<close>

definition MarkComplete :: "('w \<Rightarrow> gotime \<times> 'w) \<Rightarrow> string \<Rightarrow> 'w rstate \<Rightarrow> 'w rstate" where
  "MarkComplete now key s =
     (case map_of (r_pending s) key of
        None \<Rightarrow> s
      | Some p \<Rightarrow>
          (let p1 = p\<lparr>pr_waiters := pr_waiters p - 1\<rparr>; s1 = s\<lparr>r_pending := gomap_set (r_pending s) key p1\<rparr>
           in if pr_waiters p1 \<le> 0
              then (let (t, s2) = clock_ns now s1 in s2\<lparr>r_cleanups := r_cleanups s2 @ [(key, t + 100 * 1000000)]\<rparr>)
              else s1))"

text \<open>The body of a clean-up goroutine after its sleep.\<close>

definition cleanup :: "string \<Rightarrow> 'w rstate \<Rightarrow> 'w rstate" where
  "cleanup key s =
     (case map_of (r_pending s) key of
        Some p \<Rightarrow> (if pr_waiters p \<le> 0 then s\<lparr>r_pending := gomap_delete (r_pending s) key\<rparr> else s)
      | None \<Rightarrow> s)"

text \<open>The clean-ups that are due at a moment run and are gone.\<close>

definition run_cleanups :: "int \<Rightarrow> 'w rstate \<Rightarrow> 'w rstate" where
  "run_cleanups t s =
     (let due = filter (\<lambda>(_, d). d \<le> t) (r_cleanups s)
      in fold (\<lambda>(k, _). cleanup k) due (s\<lparr>r_cleanups := filter (\<lambda>(_, d). \<not> d \<le> t) (r_cleanups s)\<rparr>))"

definition SetResult :: "string \<Rightarrow> grecord \<Rightarrow> 'w rstate \<Rightarrow> 'w rstate" where
  "SetResult key result s =
     (case map_of (r_pending s) key of
        None \<Rightarrow> s
      | Some p \<Rightarrow>
          (if pr_result p = None \<and> pr_err p = None
           then s\<lparr>r_pending := gomap_set (r_pending s) key (p\<lparr>pr_result := Some result, pr_done := True\<rparr>)\<rparr> else s))"

definition SetError :: "string \<Rightarrow> gerror \<Rightarrow> 'w rstate \<Rightarrow> 'w rstate" where
  "SetError key err s =
     (case map_of (r_pending s) key of
        None \<Rightarrow> s
      | Some p \<Rightarrow>
          (if pr_result p = None \<and> pr_err p = None
           then s\<lparr>r_pending := gomap_set (r_pending s) key (p\<lparr>pr_err := Some err, pr_done := True\<rparr>)\<rparr> else s))"

definition WaitForResult :: "string \<Rightarrow> 'w rstate \<Rightarrow> grecord res" where
  "WaitForResult key s =
     (case map_of (r_pending s) key of
        None \<Rightarrow> Inl (Errorf ''no pending read for key: %s'' [key])
      | Some p \<Rightarrow>
          (if pr_done p then (case pr_err p of Some err \<Rightarrow> Inl err
                              | None \<Rightarrow> Inr (case pr_result p of None \<Rightarrow> [] | Some r \<Rightarrow> r))
           else Inl ContextDeadlineExceeded))"

definition Cache_Read :: "'w kvstore \<Rightarrow> ('w \<Rightarrow> gotime \<times> 'w) \<Rightarrow> Translator \<Rightarrow> tzinfo \<Rightarrow> string \<Rightarrow> string \<Rightarrow> goval \<Rightarrow> schema option \<Rightarrow>
    'w rstate \<Rightarrow> grecord res \<times> 'w rstate" where
  "Cache_Read kv now t tz ns tableName key schema s0 =
     (let cacheKey = BuildKey ns tableName key; (inFlight, s1) = IsInFlight now cacheKey s0 in
      if inFlight then (WaitForResult cacheKey s1, s1)
      else let s2 = MarkInFlight now cacheKey s1; (value, s3) = on_world (kv_Get kv cacheKey) s2 in
        case value of
          Inl err \<Rightarrow> (Inl (Wrapf ''cache miss: %w'' [] err),
                      MarkComplete now cacheKey (SetError cacheKey (Wrapf ''cache miss: %w'' [] err) s3))
        | Inr val \<Rightarrow>
            (case FromKV t tz cacheKey (Some val) schema of
               Inl err \<Rightarrow> (Inl (Wrapf ''failed to deserialize cache value: %w'' [] err),
                      MarkComplete now cacheKey (SetError cacheKey (Wrapf ''failed to deserialize cache value: %w'' [] err) s3))
             | Inr record \<Rightarrow> (Inr record, MarkComplete now cacheKey (SetResult cacheKey record s3))))"

definition Cache_Exists :: "'w kvstore \<Rightarrow> string \<Rightarrow> string \<Rightarrow> goval \<Rightarrow> 'w rstate \<Rightarrow> bool res \<times> 'w rstate" where
  "Cache_Exists kv ns tableName key s = on_world (kv_Exists kv (BuildKey ns tableName key)) s"

section \<open>Lemmas\<close>

lemma on_world_frame [simp]:
  "on_world f s = (x, s') \<Longrightarrow> r_pending s' = r_pending s \<and> r_cleanups s' = r_cleanups s \<and> r_fills s' = r_fills s"
  by (auto simp: on_world_def Let_def split: prod.splits)

lemma clock_ns_frame:
  "clock_ns now s = (t, s') \<Longrightarrow> r_pending s' = r_pending s \<and> r_cleanups s' = r_cleanups s \<and> r_fills s' = r_fills s"
  by (auto simp: clock_ns_def Let_def split: prod.splits dest!: on_world_frame)

lemma IsInFlight_frame:
  "IsInFlight now key s = (b, s') \<Longrightarrow> r_pending s' = r_pending s \<and> r_cleanups s' = r_cleanups s \<and> r_fills s' = r_fills s"
  by (auto simp: IsInFlight_def Let_def split: prod.splits option.splits dest!: clock_ns_frame)

lemma IsInFlight_None: "map_of (r_pending s) key = None \<Longrightarrow> IsInFlight now key s = (False, s)"
  by (simp add: IsInFlight_def)

text \<open>The outcome of a read as the guard remembers it.\<close>

definition outcome_of :: "pendingRead \<Rightarrow> grecord res" where
  "outcome_of p = (case pr_err p of Some err \<Rightarrow> Inl err | None \<Rightarrow> Inr (case pr_result p of None \<Rightarrow> [] | Some r \<Rightarrow> r))"

lemma WaitForResult_done: "map_of (r_pending s) key = Some p \<Longrightarrow> pr_done p \<Longrightarrow> WaitForResult key s = outcome_of p"
  by (simp add: WaitForResult_def outcome_of_def)

definition all_done :: "'w rstate \<Rightarrow> bool" where
  "all_done s \<longleftrightarrow> (\<forall>k p. map_of (r_pending s) k = Some p \<longrightarrow> pr_done p \<and> (pr_result p \<noteq> None \<or> pr_err p \<noteq> None))"

lemma MarkInFlight_pending:
  "\<exists>p. map_of (r_pending (MarkInFlight now key s)) key = Some p \<and>
     (case map_of (r_pending s) key of
        Some q \<Rightarrow> p = q\<lparr>pr_waiters := pr_waiters q + 1\<rparr>
      | None \<Rightarrow> pr_result p = None \<and> pr_err p = None \<and> pr_waiters p = 1)"
  "k \<noteq> key \<Longrightarrow> map_of (r_pending (MarkInFlight now key s)) k = map_of (r_pending s) k"
proof -
  obtain t s' where c: "clock_ns now s = (t, s')" by (cases "clock_ns now s")
  have f: "r_pending s' = r_pending s" using clock_ns_frame [OF c] by simp
  show "\<exists>p. map_of (r_pending (MarkInFlight now key s)) key = Some p \<and>
     (case map_of (r_pending s) key of
        Some q \<Rightarrow> p = q\<lparr>pr_waiters := pr_waiters q + 1\<rparr>
      | None \<Rightarrow> pr_result p = None \<and> pr_err p = None \<and> pr_waiters p = 1)"
    using c by (auto simp: MarkInFlight_def split: option.splits)
  show "k \<noteq> key \<Longrightarrow> map_of (r_pending (MarkInFlight now key s)) k = map_of (r_pending s) k"
    using c f by (auto simp: MarkInFlight_def split: option.splits)
qed

lemma MarkComplete_pending:
  "map_of (r_pending (MarkComplete now key s)) k =
     (if k = key then map_option (\<lambda>p. p\<lparr>pr_waiters := pr_waiters p - 1\<rparr>) (map_of (r_pending s) key) else map_of (r_pending s) k)"
proof (cases "map_of (r_pending s) key")
  case (Some p)
  let ?s1 = "s\<lparr>r_pending := gomap_set (r_pending s) key (p\<lparr>pr_waiters := pr_waiters p - 1\<rparr>)\<rparr>"
  obtain t s' where c: "clock_ns now ?s1 = (t, s')" by (cases "clock_ns now ?s1")
  then show ?thesis using Some clock_ns_frame [OF c] by (simp add: MarkComplete_def Let_def)
qed (simp add: MarkComplete_def)

lemma Set_pending:
  assumes "map_of (r_pending s) key = Some p" and "pr_result p = None" and "pr_err p = None"
  shows "map_of (r_pending (SetResult key rec s)) = (map_of (r_pending s))(key \<mapsto> p\<lparr>pr_result := Some rec, pr_done := True\<rparr>)"
    and "map_of (r_pending (SetError key err s)) = (map_of (r_pending s))(key \<mapsto> p\<lparr>pr_err := Some err, pr_done := True\<rparr>)"
  using assms by (simp_all add: SetResult_def SetError_def)

text \<open>A read that finds no pending read leaves one behind that is done and holds its outcome.\<close>

lemma Cache_Read_fresh:
  assumes "map_of (r_pending s) (BuildKey ns tn key) = None"
    and "Cache_Read kv now t tz ns tn key sch s = (r, s')"
  shows "\<exists>p. map_of (r_pending s') = (map_of (r_pending s))(BuildKey ns tn key \<mapsto> p) \<and> pr_done p \<and>
    (pr_result p \<noteq> None \<or> pr_err p \<noteq> None) \<and> outcome_of p = r"
proof -
  let ?k = "BuildKey ns tn key" and ?s2 = "MarkInFlight now (BuildKey ns tn key) s"
  obtain v s3 where g: "on_world (kv_Get kv ?k) ?s2 = (v, s3)" by (cases "on_world (kv_Get kv ?k) ?s2")
  obtain p where p: "map_of (r_pending ?s2) ?k = Some p" "pr_result p = None" "pr_err p = None" "pr_waiters p = 1"
    using MarkInFlight_pending(1) [of now ?k s] assms(1) by auto
  have p3: "map_of (r_pending s3) ?k = Some p" using p(1) on_world_frame [OF g] by simp
  have fr: "map_of (r_pending s3) k = map_of (r_pending s) k" if "k \<noteq> ?k" for k
    using MarkInFlight_pending(2) [OF that] on_world_frame [OF g] by simp
  have res: "map_of (r_pending (MarkComplete now ?k (SetResult ?k rec s3))) =
      (map_of (r_pending s))(?k \<mapsto> p\<lparr>pr_result := Some rec, pr_done := True, pr_waiters := pr_waiters p - 1\<rparr>)" for rec
    using fr p by (intro ext) (simp add: MarkComplete_pending Set_pending(1) [OF p3 p(2,3)])
  have err: "map_of (r_pending (MarkComplete now ?k (SetError ?k er s3))) =
      (map_of (r_pending s))(?k \<mapsto> p\<lparr>pr_err := Some er, pr_done := True, pr_waiters := pr_waiters p - 1\<rparr>)" for er
    using fr p by (intro ext) (simp add: MarkComplete_pending Set_pending(2) [OF p3 p(2,3)])
  show ?thesis
    using assms(2) g res err p(2,3) IsInFlight_None [OF assms(1), of now]
    by (auto simp: Cache_Read_def Let_def outcome_of_def split: sum.splits)
qed

lemma Cache_Read_pending:
  assumes "map_of (r_pending s) (BuildKey ns tn key) = Some p" and "pr_done p"
    and "IsInFlight now (BuildKey ns tn key) s = (True, s')"
  shows "Cache_Read kv now t tz ns tn key sch s = (outcome_of p, s')"
  using assms WaitForResult_done [of s' "BuildKey ns tn key" p] IsInFlight_frame [OF assms(3)]
  by (simp add: Cache_Read_def)

text \<open>Reads that run one after the other find every pending read completed.\<close>

lemma pending_done_Read:
  assumes "all_done s" and "Cache_Read kv now t tz ns tn key sch s = (r, s')"
  shows "all_done s'"
proof (cases "map_of (r_pending s) (BuildKey ns tn key)")
  case None
  then obtain p where "map_of (r_pending s') = (map_of (r_pending s))(BuildKey ns tn key \<mapsto> p)" "pr_done p"
    "pr_result p \<noteq> None \<or> pr_err p \<noteq> None" using Cache_Read_fresh [OF _ assms(2)] by blast
  then show ?thesis using assms(1) by (auto simp: all_done_def)
next
  case (Some q)
  let ?k = "BuildKey ns tn key"
  have q: "pr_done q" "pr_result q \<noteq> None \<or> pr_err q \<noteq> None" using assms(1) Some by (auto simp: all_done_def)
  obtain b s1 where b: "IsInFlight now ?k s = (b, s1)" by (cases "IsInFlight now ?k s")
  have s1: "map_of (r_pending s1) ?k = Some q" "r_pending s1 = r_pending s" using IsInFlight_frame [OF b] Some by auto
  show ?thesis
  proof (cases b)
    case True
    then show ?thesis using Cache_Read_pending [OF Some q(1)] b assms s1 by (simp add: all_done_def)
  next
    case False
    let ?s2 = "MarkInFlight now ?k s1"
    obtain v s3 where g: "on_world (kv_Get kv ?k) ?s2 = (v, s3)" by (cases "on_world (kv_Get kv ?k) ?s2")
    have p3: "map_of (r_pending s3) ?k = Some (q\<lparr>pr_waiters := pr_waiters q + 1\<rparr>)"
      using MarkInFlight_pending(1) [of now ?k s1] s1(1) on_world_frame [OF g] by simp
    then have noop: "SetResult ?k rec s3 = s3" "SetError ?k er s3 = s3" for rec er
      using q(2) by (auto simp: SetResult_def SetError_def)
    have "s' = MarkComplete now ?k s3"
      using assms(2) b False g noop by (auto simp: Cache_Read_def Let_def split: sum.splits)
    moreover have "map_of (r_pending s3) k = map_of (r_pending s) k" if "k \<noteq> ?k" for k
      using MarkInFlight_pending(2) [OF that, of now s1] on_world_frame [OF g] s1(2) by simp
    ultimately show ?thesis using assms(1) p3 q unfolding all_done_def by (auto simp: MarkComplete_pending split: if_splits)
  qed
qed

section \<open>Properties\<close>

text \<open>
  C36. The guard against stampedes keeps answering after the read is over. For as long as the entry of
  a completed read is in the map of pending reads (at least the 100 ms until its clean-up runs),
  every further read of the key returns the outcome of that read without consulting the store,
  whatever has been written, changed or deleted in the meantime: a hit stays the old record, a miss
  stays a miss.
\<close>

theorem stampede_guard_serves_old_outcome:
  assumes "map_of (r_pending s) (BuildKey ns tn key) = None"
    and "Cache_Read kv now t tz ns tn key sch s = (r, s1)"
    and "map_of (r_pending s2) (BuildKey ns tn key) = map_of (r_pending s1) (BuildKey ns tn key)"
    and "IsInFlight now (BuildKey ns tn key) s2 = (True, s3)"
  shows "Cache_Read kv' now t tz ns tn key sch s2 = (r, s3)"
proof -
  obtain p where "map_of (r_pending s1) (BuildKey ns tn key) = Some p" "pr_done p" "outcome_of p = r"
    using Cache_Read_fresh [OF assms(1,2)] by auto
  then show ?thesis using Cache_Read_pending [OF _ _ assms(4)] assms(3) by simp
qed

definition ex_rstate :: "redis_ref redis_state rstate" where
  "ex_rstate = \<lparr>r_world = ex_redis, r_pending = [], r_cleanups = [], r_fills = []\<rparr>"

text \<open>A miss, then the key is stored, and the next read still reports the miss.\<close>

theorem stampede_guard_serves_old_outcome_witness:
  "\<exists>r s1 s3. Cache_Read (redis_kvstore ref_client) redis_clock NewTranslator utc [] ''users'' (VInt 7) (Some ex_schema) ex_rstate = (r, s1) \<and>
     is_err r \<and>
     Cache_Read (redis_kvstore ref_client) redis_clock NewTranslator utc [] ''users'' (VInt 7) (Some ex_schema)
       (s1\<lparr>r_world := snd (kv_Set (redis_kvstore ref_client) ''users:7'' ''{}'' 0 (r_world s1))\<rparr>) = (r, s3)"
proof -
  let ?kv = "redis_kvstore ref_client" and ?k = "BuildKey [] ''users'' (VInt 7)"
  obtain r s1 where c: "Cache_Read ?kv redis_clock NewTranslator utc [] ''users'' (VInt 7) (Some ex_schema) ex_rstate = (r, s1)"
    by (cases "Cache_Read ?kv redis_clock NewTranslator utc [] ''users'' (VInt 7) (Some ex_schema) ex_rstate")
  let ?s2 = "s1\<lparr>r_world := snd (kv_Set ?kv ''users:7'' ''{}'' 0 (r_world s1))\<rparr>"
  have e: "is_err (fst (Cache_Read ?kv redis_clock NewTranslator utc [] ''users'' (VInt 7) (Some ex_schema) ex_rstate))" by code_simp
  have i: "fst (IsInFlight redis_clock ?k (let s1 = snd (Cache_Read ?kv redis_clock NewTranslator utc [] ''users'' (VInt 7) (Some ex_schema) ex_rstate)
     in s1\<lparr>r_world := snd (kv_Set ?kv ''users:7'' ''{}'' 0 (r_world s1))\<rparr>))" by code_simp
  have i': "fst (IsInFlight redis_clock ?k ?s2)" using i unfolding c Let_def snd_conv .
  obtain s3 where s3: "IsInFlight redis_clock ?k ?s2 = (True, s3)"
    using i' by (cases "IsInFlight redis_clock ?k ?s2") (simp only: fst_conv)
  have n: "map_of (r_pending ex_rstate) ?k = None" by (simp add: ex_rstate_def)
  have "Cache_Read ?kv redis_clock NewTranslator utc [] ''users'' (VInt 7) (Some ex_schema) ?s2 = (r, s3)"
    by (rule stampede_guard_serves_old_outcome [OF n c _ s3]) simp
  then show ?thesis using c e by auto
qed

end
