(* ===== verification/Read_Fallback.thy ===== *)
theory Read_Fallback
  imports Read_Cache
begin

text \<open>
  \<^verbatim>\<open>internal/read/fallback.go\<close>: reads from the database on a cache miss. \<^verbatim>\<open>ReadFromDB\<close> starts a goroutine
  that fills the cache; the goroutine waits in the list of fills and runs as a step of its own
  (\<open>run_fill\<close>). A schema is not nil here: the code dereferences it at once.
\<close>

section \<open>Operations\<close>

definition joinColumns :: "string list \<Rightarrow> string" where
  "joinColumns columns = (case columns of [] \<Rightarrow> ''*'' | c # cs \<Rightarrow> foldl (\<lambda>result col. result @ '', '' @ col) c cs)"

definition buildSelectQuery :: "string \<Rightarrow> schema \<Rightarrow> string" where
  "buildSelectQuery tableName s =
     ''SELECT '' @ joinColumns (map col_Name (sch_Columns s)) @ '' FROM '' @ tableName @ '' WHERE '' @ sch_PrimaryKey s @ '' = ?''"

definition scanRow :: "goval list res \<Rightarrow> schema \<Rightarrow> grecord res" where
  "scanRow row s =
     (case scan_row row (length (sch_Columns s)) of
        Inl err \<Rightarrow> Inl (Wrapf ''scan failed: %w'' [] err)
      | Inr values \<Rightarrow> Inr (gomap_of (zip (map col_Name (sch_Columns s)) values)))"

definition ReadFromDB :: "'w database \<Rightarrow> string \<Rightarrow> goval \<Rightarrow> schema \<Rightarrow> 'w rstate \<Rightarrow> grecord res \<times> 'w rstate" where
  "ReadFromDB db tableName key schema s =
     (case on_world (db_Query db (buildSelectQuery tableName schema) [key]) s of
        (Inl err, s1) \<Rightarrow> (Inl (Wrapf ''database query failed: %w'' [] err), s1)
      | (Inr rows, s1) \<Rightarrow>
          (case rows_data rows of
             [] \<Rightarrow> (Inl (Errorf ''record not found: table=%s, key=%v'' [tableName, show_v key]), s1)
           | row # _ \<Rightarrow>
               (case scanRow row schema of
                  Inl err \<Rightarrow> (Inl (Wrapf ''failed to scan row: %w'' [] err), s1)
                | Inr record \<Rightarrow>
                    (case rows_Err rows of
                       Some err \<Rightarrow> (Inl (Wrapf ''row iteration error: %w'' [] err), s1)
                     | None \<Rightarrow> (Inr record, s1\<lparr>r_fills := r_fills s1 @ [record]\<rparr>)))))"

definition populateCache :: "'w kvstore \<Rightarrow> Translator \<Rightarrow> tzinfo \<Rightarrow> int \<Rightarrow> grecord \<Rightarrow> schema \<Rightarrow> 'w rstate \<Rightarrow> gerror option \<times> 'w rstate" where
  "populateCache kv t tz ttl record schema s =
     (case ToKV t tz (Some record) (Some schema) of
        Inl err \<Rightarrow> (Some (Wrapf ''failed to convert record to KV: %w'' [] err), s)
      | Inr (cacheKey, value) \<Rightarrow>
          (case on_world (kv_Set kv cacheKey value ttl) s of
             (Some err, s1) \<Rightarrow> (Some (Wrapf ''failed to populate cache: %w'' [] err), s1)
           | (None, s1) \<Rightarrow> (None, s1)))"

text \<open>The first fill that waits runs; its error is dropped.\<close>

definition run_fill :: "'w kvstore \<Rightarrow> Translator \<Rightarrow> tzinfo \<Rightarrow> int \<Rightarrow> schema \<Rightarrow> 'w rstate \<Rightarrow> 'w rstate" where
  "run_fill kv t tz ttl schema s =
     (case r_fills s of
        [] \<Rightarrow> s
      | record # rest \<Rightarrow> snd (populateCache kv t tz ttl record schema (s\<lparr>r_fills := rest\<rparr>)))"

section \<open>Lemmas\<close>

lemma joinColumns_eq: "columns \<noteq> [] \<Longrightarrow> joinColumns columns = str_join '', '' columns"
proof -
  have "foldl (\<lambda>result col. result @ '', '' @ col) c cs = str_join '', '' (c # cs)" for c cs
  proof (induction cs rule: rev_induct)
    case (snoc x xs)
    have "str_join '', '' ((c # xs) @ [x]) = str_join '', '' (c # xs) @ '', '' @ x"
    proof (induction xs arbitrary: c)
      case (Cons y ys)
      then show ?case by (cases ys) auto
    qed simp
    then show ?case using snoc by simp
  qed simp
  then show "columns \<noteq> [] \<Longrightarrow> joinColumns columns = str_join '', '' columns"
    by (cases columns) (simp_all add: joinColumns_def)
qed

lemma scanRow_get:
  assumes "scanRow (Inr vs) s = Inr rec" and "distinct (map col_Name (sch_Columns s))" and "i < length (sch_Columns s)"
  shows "map_of rec (col_Name (sch_Columns s ! i)) = Some (vs ! i)"
proof -
  have v: "length vs = length (sch_Columns s)" "rec = gomap_of (zip (map col_Name (sch_Columns s)) vs)"
    using assms(1) by (auto simp: scanRow_def scan_row_def split: if_splits)
  have "distinct (map fst (zip (map col_Name (sch_Columns s)) vs))" using assms(2) v(1) by simp
  then have "map_of rec = map_of (zip (map col_Name (sch_Columns s)) vs)"
    using v(2) by (simp add: gomap_of_distinct)
  then show ?thesis using assms(2,3) v(1) map_of_zip_nth [of "map col_Name (sch_Columns s)" vs i] by simp
qed

end
