(* ===== verification/Read_Consistency.thy ===== *)
theory Read_Consistency
  imports Read_Fallback
begin

text \<open>
  \<^verbatim>\<open>internal/read/consistency.go\<close>: the read handler that combines the cache with the fallback under a
  consistency level. The collaborators of the handler are gathered in one record.
\<close>

section \<open>Operations\<close>

record 'w ReadHandler =
  rh_kvStore :: "'w kvstore"
  rh_database :: "'w database"
  rh_translator :: Translator
  rh_namespace :: string
  rh_schema :: schema
  rh_tableName :: string
  rh_now :: "'w \<Rightarrow> gotime \<times> 'w"
  rh_tz :: tzinfo

definition ReadFromCache :: "'w ReadHandler \<Rightarrow> goval \<Rightarrow> 'w rstate \<Rightarrow> grecord res \<times> 'w rstate" where
  "ReadFromCache rh key s =
     Cache_Read (rh_kvStore rh) (rh_now rh) (rh_translator rh) (rh_tz rh) (rh_namespace rh) (rh_tableName rh) key (Some (rh_schema rh)) s"

definition ReadWithConsistency :: "'w ReadHandler \<Rightarrow> goval \<Rightarrow> bool \<Rightarrow> 'w rstate \<Rightarrow> grecord res \<times> 'w rstate" where
  "ReadWithConsistency rh key strongConsistency s =
     (case ReadFromCache rh key s of
        (Inr record, s1) \<Rightarrow> (Inr record, s1)
      | (Inl err, s1) \<Rightarrow>
          if strongConsistency
          then (Inl (Wrapf ''record not found in cache (strong consistency required): %w'' [] err), s1)
          else (case ReadFromDB (rh_database rh) (rh_tableName rh) key (rh_schema rh) s1 of
                  (Inl err, s2) \<Rightarrow> (Inl (Wrapf ''read failed (cache miss and DB fallback failed): %w'' [] err), s2)
                | (Inr record, s2) \<Rightarrow> (Inr record, s2)))"

definition InvalidateCache :: "'w ReadHandler \<Rightarrow> goval \<Rightarrow> 'w rstate \<Rightarrow> gerror option \<times> 'w rstate" where
  "InvalidateCache rh key s = on_world (kv_Delete (rh_kvStore rh) (BuildKey (rh_namespace rh) (rh_tableName rh) key)) s"

definition RefreshCache :: "'w ReadHandler \<Rightarrow> goval \<Rightarrow> 'w rstate \<Rightarrow> grecord res \<times> 'w rstate" where
  "RefreshCache rh key s =
     (case ReadFromDB (rh_database rh) (rh_tableName rh) key (rh_schema rh) s of
        (Inl err, s1) \<Rightarrow> (Inl (Wrapf ''failed to refresh cache from DB: %w'' [] err), s1)
      | (Inr record, s1) \<Rightarrow> (Inr record, s1))"

text \<open>The maximal age is not used by the code.\<close>

definition IsStale :: "'w ReadHandler \<Rightarrow> goval \<Rightarrow> int \<Rightarrow> 'w rstate \<Rightarrow> bool res \<times> 'w rstate" where
  "IsStale rh key maxAge s =
     (case on_world (kv_Exists (rh_kvStore rh) (BuildKey (rh_namespace rh) (rh_tableName rh) key)) s of
        (Inl err, s1) \<Rightarrow> (Inl (Wrapf ''failed to check cache existence: %w'' [] err), s1)
      | (Inr exists, s1) \<Rightarrow> (Inr (\<not> exists), s1))"

definition ReadHandler_Read :: "'w ReadHandler \<Rightarrow> goval \<Rightarrow> bool \<Rightarrow> 'w rstate \<Rightarrow> grecord res \<times> 'w rstate" where
  "ReadHandler_Read rh key strongConsistency s = ReadWithConsistency rh key strongConsistency s"

definition ReadHandler_ReadFromDB :: "'w ReadHandler \<Rightarrow> goval \<Rightarrow> 'w rstate \<Rightarrow> grecord res \<times> 'w rstate" where
  "ReadHandler_ReadFromDB rh key s = ReadFromDB (rh_database rh) (rh_tableName rh) key (rh_schema rh) s"

definition Invalidate :: "'w ReadHandler \<Rightarrow> goval \<Rightarrow> 'w rstate \<Rightarrow> gerror option \<times> 'w rstate" where
  "Invalidate rh key s = InvalidateCache rh key s"

definition Refresh :: "'w ReadHandler \<Rightarrow> goval \<Rightarrow> 'w rstate \<Rightarrow> grecord res \<times> 'w rstate" where
  "Refresh rh key s = RefreshCache rh key s"

section \<open>Properties\<close>

text \<open>
  Strong consistency never consults the database and starts no cache fill: its outcome and the
  state it leaves do not depend on the database, and it succeeds exactly when the cache read does;
  with eventual consistency a hit in the cache is answered from the cache alone.
\<close>

theorem strong_reads_stay_in_cache:
  "ReadHandler_Read rh key True s = ReadHandler_Read (rh\<lparr>rh_database := db\<rparr>) key True s \<and>
   (case ReadFromCache rh key s of
     (Inr record, s1) \<Rightarrow> ReadHandler_Read rh key strong s = (Inr record, s1)
   | (Inl err, s1) \<Rightarrow> is_err (fst (ReadHandler_Read rh key True s)) \<and> snd (ReadHandler_Read rh key True s) = s1)"
proof -
  have c: "ReadFromCache (rh\<lparr>rh_database := db\<rparr>) key s = ReadFromCache rh key s" by (simp add: ReadFromCache_def)
  show ?thesis
    unfolding ReadHandler_Read_def ReadWithConsistency_def c by (auto split: prod.splits sum.splits)
qed

end
