(* ===== verification/Queue_Memory.thy ===== *)
theory Queue_Memory
  imports Core_Types
begin

text \<open>
  \<^verbatim>\<open>internal/writeback/memory_queue.go\<close>: a queue on a buffered channel of pointers, so that an element
  may be nil. The channel is closed exactly when the flag \<^verbatim>\<open>closed\<close> is set, under the same lock. The
  context is the error it has been cancelled with, if any; when several cases of a select are ready
  the runtime picks one, which the argument \<open>sel\<close> stands for: whether it takes the case of the
  context (one pick per iteration in \<^verbatim>\<open>Dequeue\<close>).

  Called from several goroutines, \<^verbatim>\<open>Enqueue\<close> is two steps, the check of the flag and the send; the
  transition system at the end interleaves them with \<^verbatim>\<open>Close\<close>.
\<close>

section \<open>Operations\<close>

record MemoryQueue =
  mq_queue :: "write_op option list"
  mq_closed :: bool
  mq_size :: int

definition NewMemoryQueue :: "int \<Rightarrow> MemoryQueue" where
  "NewMemoryQueue bufferSize =
     \<lparr>mq_queue = [], mq_closed = False, mq_size = (if bufferSize \<le> 0 then 10000 else bufferSize)\<rparr>"

text \<open>The select of \<^verbatim>\<open>Enqueue\<close>: a send on a closed channel is ready, and panics when it is taken.\<close>

definition mq_send :: "gerror option \<Rightarrow> bool \<Rightarrow> write_op option \<Rightarrow> MemoryQueue \<Rightarrow> gerror option \<times> MemoryQueue" where
  "mq_send ctx sel operation q =
     (let ready = mq_closed q \<or> int (length (mq_queue q)) < mq_size q in
      if ctx \<noteq> None \<and> (sel \<or> \<not> ready) then (ctx, q)
      else if \<not> ready then (Some (Errorf ''memory queue is full'' []), q)
      else if mq_closed q then (Some (Panic ''send on closed channel''), q)
      else (None, q\<lparr>mq_queue := mq_queue q @ [operation]\<rparr>))"

definition mq_Enqueue :: "gerror option \<Rightarrow> bool \<Rightarrow> write_op option \<Rightarrow> MemoryQueue \<Rightarrow> gerror option \<times> MemoryQueue" where
  "mq_Enqueue ctx sel operation q =
     (if mq_closed q then (Some ErrMemoryQueueClosed, q) else mq_send ctx sel operation q)"

fun mq_receive :: "gerror option \<Rightarrow> (nat \<Rightarrow> bool) \<Rightarrow> bool \<Rightarrow> nat \<Rightarrow> nat \<Rightarrow> write_op option list \<Rightarrow> write_op list \<Rightarrow>
    (write_op list \<times> gerror option) \<times> write_op option list" where
  "mq_receive ctx sel cl i 0 ch operations = ((operations, None), ch)"
| "mq_receive ctx sel cl i (Suc n) ch operations =
     (let ready = (ch \<noteq> [] \<or> cl) in
      if ctx \<noteq> None \<and> (sel i \<or> \<not> ready) then ((operations, ctx), ch)
      else if \<not> ready then ((operations, None), ch)
      else case ch of
        [] \<Rightarrow> ((operations, None), ch)
      | None # ch' \<Rightarrow> ((operations, None), ch')
      | Some operation # ch' \<Rightarrow> mq_receive ctx sel cl (Suc i) n ch' (operations @ [operation]))"

definition mq_Dequeue :: "gerror option \<Rightarrow> (nat \<Rightarrow> bool) \<Rightarrow> int \<Rightarrow> MemoryQueue \<Rightarrow> (write_op list \<times> gerror option) \<times> MemoryQueue" where
  "mq_Dequeue ctx sel batchSize q =
     (let n = (if batchSize \<le> 0 then 100 else batchSize);
          (r, ch) = mq_receive ctx sel (mq_closed q) 0 (nat n) (mq_queue q) []
      in (r, q\<lparr>mq_queue := ch\<rparr>))"

definition mq_Size :: "MemoryQueue \<Rightarrow> int" where
  "mq_Size q = int (length (mq_queue q))"

definition mq_Close :: "MemoryQueue \<Rightarrow> gerror option \<times> MemoryQueue" where
  "mq_Close q = (None, if mq_closed q then q else q\<lparr>mq_closed := True\<rparr>)"

definition memory_queue :: "gerror option \<Rightarrow> (nat \<Rightarrow> bool) \<Rightarrow> MemoryQueue wbqueue" where
  "memory_queue ctx sel = \<lparr>q_Enqueue = mq_Enqueue ctx (sel 0), q_Dequeue = mq_Dequeue ctx sel,
     q_Size = (\<lambda>q. (mq_Size q, q)), q_Close = mq_Close\<rparr>"

section \<open>Enqueue and Close in several goroutines\<close>

text \<open>\<open>mc_checked\<close> counts the calls of \<^verbatim>\<open>Enqueue\<close> that have passed the check and not yet sent.\<close>

record mq_conc =
  mc_queue :: MemoryQueue
  mc_checked :: nat
  mc_panicked :: bool

inductive mq_step :: "mq_conc \<Rightarrow> mq_conc \<Rightarrow> bool" where
  check: "\<not> mq_closed (mc_queue s) \<Longrightarrow> mq_step s (s\<lparr>mc_checked := Suc (mc_checked s)\<rparr>)"
| send: "mc_checked s = Suc n \<Longrightarrow> mq_send None False (Some x) (mc_queue s) = (e, q) \<Longrightarrow>
     mq_step s (s\<lparr>mc_queue := q, mc_checked := n, mc_panicked := (mc_panicked s \<or> e = Some (Panic ''send on closed channel''))\<rparr>)"
| dequeue: "mq_Dequeue None (\<lambda>_. False) k (mc_queue s) = (r, q) \<Longrightarrow> mq_step s (s\<lparr>mc_queue := q\<rparr>)"
| close: "mq_step s (s\<lparr>mc_queue := snd (mq_Close (mc_queue s))\<rparr>)"

definition mq_init :: "int \<Rightarrow> mq_conc" where
  "mq_init n = \<lparr>mc_queue = NewMemoryQueue n, mc_checked = 0, mc_panicked = False\<rparr>"

section \<open>The contract\<close>

definition mq_ok :: "MemoryQueue \<Rightarrow> bool" where
  "mq_ok q \<longleftrightarrow> list_all (\<lambda>x. x \<noteq> None) (mq_queue q) \<and> int (length (mq_queue q)) \<le> mq_size q"

definition mq_pending :: "MemoryQueue \<Rightarrow> write_op list" where
  "mq_pending q = map the (mq_queue q)"

lemma mq_receive_prefix:
  assumes "mq_receive ctx sel cl i n ch ops = ((xs, e), ch')" and "list_all (\<lambda>x. x \<noteq> None) ch"
  shows "\<exists>ys. xs = ops @ map the ys \<and> ch = ys @ ch' \<and> length ys \<le> n"
  using assms
proof (induction ctx sel cl i n ch ops rule: mq_receive.induct)
  case (1 ctx sel cl i ch ops)
  then show ?case by simp
next
  case (2 ctx sel cl i n ch ops)
  show ?case
  proof (cases "\<exists>op ch2. ch = Some op # ch2 \<and> (ctx = None \<or> \<not> sel i)")
    case True
    then obtain op ch2 where c: "ch = Some op # ch2" "ctx = None \<or> \<not> sel i" by blast
    then have "mq_receive ctx sel cl (Suc i) n ch2 (ops @ [op]) = ((xs, e), ch')"
      using "2.prems"(1) by auto
    then obtain ys where "xs = ops @ op # map the ys" "ch2 = ys @ ch'" "length ys \<le> n"
      using "2.IH"[of "ch \<noteq> [] \<or> cl" "Some op" ch2 op] "2.prems"(2) c by auto
    then show ?thesis using c by (intro exI [of _ "Some op # ys"]) simp
  next
    case False
    then have "ch' = ch \<and> xs = ops" using "2.prems"
      by (auto simp: Let_def split: if_splits list.splits option.splits)
    then show ?thesis by simp
  qed
qed

text \<open>A run of calls, each with its own context and choices: what is accepted, what is delivered, and the queue left.\<close>

datatype mq_call =
  Call_Enqueue "gerror option" bool write_op
| Call_Dequeue "gerror option" "nat \<Rightarrow> bool" int
| Call_Close

fun mq_calls :: "mq_call list \<Rightarrow> MemoryQueue \<Rightarrow> (write_op list \<times> write_op list) \<times> MemoryQueue" where
  "mq_calls [] q = (([], []), q)"
| "mq_calls (Call_Enqueue ctx sel x # cs) q =
     (let (e, q1) = mq_Enqueue ctx sel (Some x) q; ((acc, del), q2) = mq_calls cs q1
      in ((if e = None then x # acc else acc, del), q2))"
| "mq_calls (Call_Dequeue ctx sel n # cs) q =
     (let ((ys, e), q1) = mq_Dequeue ctx sel n q; ((acc, del), q2) = mq_calls cs q1 in ((acc, ys @ del), q2))"
| "mq_calls (Call_Close # cs) q = mq_calls cs (snd (mq_Close q))"

lemma mq_Enqueue_spec:
  assumes "mq_ok q" and "mq_Enqueue ctx sel (Some x) q = (e, q')"
  shows "mq_ok q' \<and> mq_pending q' = mq_pending q @ (if e = None then [x] else [])"
  using assms by (auto simp: mq_Enqueue_def mq_send_def mq_ok_def mq_pending_def Let_def split: if_splits)

lemma mq_Dequeue_spec:
  assumes "mq_ok q" and "mq_Dequeue ctx sel n q = ((ys, e), q')"
  shows "mq_ok q' \<and> mq_pending q = ys @ mq_pending q' \<and> int (length ys) \<le> (if n \<le> 0 then 100 else n)"
proof -
  let ?n = "if n \<le> 0 then 100 else n"
  obtain ch where ch: "mq_receive ctx sel (mq_closed q) 0 (nat ?n) (mq_queue q) [] = ((ys, e), ch)" "q' = q\<lparr>mq_queue := ch\<rparr>"
    using assms(2) by (auto simp: mq_Dequeue_def Let_def split: prod.splits)
  obtain zs where "ys = map the zs" "mq_queue q = zs @ ch" "length zs \<le> nat ?n"
    using mq_receive_prefix [OF ch(1)] assms(1) by (auto simp: mq_ok_def)
  then show ?thesis using assms(1) ch(2) by (auto simp: mq_ok_def mq_pending_def)
qed

lemma mq_calls_spec:
  assumes "mq_ok q" and "mq_calls cs q = ((acc, del), q')"
  shows "mq_ok q' \<and> mq_pending q @ acc = del @ mq_pending q'"
  using assms
proof (induction cs arbitrary: q acc del)
  case (Cons c cs)
  show ?case
  proof (cases c)
    case (Call_Enqueue ctx sel x)
    obtain e q1 where e: "mq_Enqueue ctx sel (Some x) q = (e, q1)" by (metis surj_pair)
    obtain acc1 where r: "mq_calls cs q1 = ((acc1, del), q')" "acc = (if e = None then x # acc1 else acc1)"
      using Cons.prems(2) Call_Enqueue e by (auto simp: Let_def split: prod.splits)
    show ?thesis using mq_Enqueue_spec [OF Cons.prems(1) e] Cons.IH [OF _ r(1)] r(2) by (auto split: if_splits)
  next
    case (Call_Dequeue ctx sel n)
    obtain ys e q1 where e: "mq_Dequeue ctx sel n q = ((ys, e), q1)" by (metis surj_pair)
    obtain del1 where r: "mq_calls cs q1 = ((acc, del1), q')" "del = ys @ del1"
      using Cons.prems(2) Call_Dequeue e by (auto simp: Let_def split: prod.splits)
    show ?thesis using mq_Dequeue_spec [OF Cons.prems(1) e] Cons.IH [OF _ r(1)] r(2) by auto
  next
    case Call_Close
    have "mq_ok (snd (mq_Close q))" "mq_pending (snd (mq_Close q)) = mq_pending q"
      using Cons.prems(1) by (simp_all add: mq_Close_def mq_ok_def mq_pending_def)
    then show ?thesis using Cons.IH [of "snd (mq_Close q)" acc del] Cons.prems(2) Call_Close by simp
  qed
qed simp

lemma mq_receive_live:
  "list_all (\<lambda>x. x \<noteq> None) ch \<Longrightarrow> fst (mq_receive None sel cl i n ch ops) = (ops @ map the (take n ch), None)"
proof (induction n arbitrary: i ch ops)
  case (Suc n)
  then show ?case by (cases ch) auto
qed simp

interpretation mq: lossless_queue "memory_queue ctx sel" mq_pending mq_ok "\<lambda>x. x" "\<lambda>_. True"
proof (unfold_locales, goal_cases)
  case (1 w x e w')
  then show ?case using mq_Enqueue_spec [of w ctx "sel 0" x e w'] by (auto simp: memory_queue_def split: if_splits)
next
  case (2 w n xs e w')
  then show ?case using mq_Dequeue_spec [of w ctx sel n xs e w'] by (auto simp: memory_queue_def)
next
  case (3 w n xs e w')
  then show ?case using mq_Dequeue_spec [of w ctx sel n xs e w'] by (auto simp: memory_queue_def)
qed

section \<open>Properties\<close>

text \<open>
  C21. The in-memory queue is a bounded FIFO queue. Over any sequence of calls of \<^verbatim>\<open>Enqueue\<close>, \<^verbatim>\<open>Dequeue\<close> and
  \<^verbatim>\<open>Close\<close> (with operations that are not nil), each with a context that is done or not and whatever its
  select statements pick: what was accepted, after what was queued before, is what was delivered
  followed by what is still queued, in order, each once, and no more is queued than the buffer holds.
  With a context that is not done, \<^verbatim>\<open>Enqueue\<close> succeeds exactly when the queue is open and not full, and
  \<^verbatim>\<open>Dequeue\<close> returns as much as the batch size and the queue allow.
\<close>

theorem memory_queue_fifo:
  assumes "mq_ok q" and "mq_calls cs q = ((accepted, delivered), q')"
  shows "mq_pending q @ accepted = delivered @ mq_pending q' \<and> int (length (mq_queue q')) \<le> mq_size q' \<and>
    (\<forall>sel x. fst (mq_Enqueue None sel (Some x) q') = None \<longleftrightarrow> \<not> mq_closed q' \<and> int (length (mq_queue q')) < mq_size q') \<and>
    (\<forall>sel n. fst (mq_Dequeue None sel n q') = (take (if n \<le> 0 then 100 else nat n) (mq_pending q'), None))"
proof -
  have i: "mq_ok q'" "mq_pending q @ accepted = delivered @ mq_pending q'" using mq_calls_spec [OF assms] by simp_all
  have "fst (mq_Dequeue None sel n q') = (take (if n \<le> 0 then 100 else nat n) (mq_pending q'), None)" for sel n
    using mq_receive_live [of "mq_queue q'" sel "mq_closed q'" 0 "nat (if n \<le> 0 then 100 else n)" "[]"] i(1)
    by (simp add: mq_Dequeue_def mq_ok_def mq_pending_def take_map Let_def case_prod_unfold)
  then show ?thesis using i by (auto simp: mq_ok_def mq_Enqueue_def mq_send_def Let_def)
qed

definition ex_op :: "string \<Rightarrow> int \<Rightarrow> write_op" where
  "ex_op tbl k = \<lparr>op_Table = tbl, op_Operation = OperationCreate, op_Key = VInt64 (word_of_int k), op_Data = None,
     op_Timestamp = zero_time\<lparr>t_year := 2024\<rparr>, op_RetryCount = 0\<rparr>"

text \<open>A context that is done refuses the second operation and cuts the first batch short.\<close>

theorem memory_queue_fifo_witness:
  "\<exists>cs q'. mq_calls cs (NewMemoryQueue 2) = (([ex_op ''t'' 1, ex_op ''t'' 3], [ex_op ''t'' 1]), q') \<and>
     mq_pending q' = [ex_op ''t'' 3] \<and> fst (mq_Dequeue None (\<lambda>_. False) 5 q') = ([ex_op ''t'' 3], None)"
proof -
  let ?cs = "[Call_Enqueue None False (ex_op ''t'' 1), Call_Enqueue (Some ContextCanceled) True (ex_op ''t'' 2),
     Call_Enqueue (Some ContextCanceled) False (ex_op ''t'' 3), Call_Enqueue None False (ex_op ''t'' 4),
     Call_Dequeue (Some ContextCanceled) (\<lambda>i. i = 1) 5]"
  let ?q' = "(NewMemoryQueue 2)\<lparr>mq_queue := [Some (ex_op ''t'' 3)]\<rparr>"
  have "mq_calls ?cs (NewMemoryQueue 2) = (([ex_op ''t'' 1, ex_op ''t'' 3], [ex_op ''t'' 1]), ?q')"
    by (simp add: mq_Enqueue_def mq_send_def NewMemoryQueue_def mq_Dequeue_def Let_def eval_nat_numeral)
  moreover have "mq_ok (NewMemoryQueue 2)" by (simp add: NewMemoryQueue_def mq_ok_def)
  ultimately show ?thesis using memory_queue_fifo [of "NewMemoryQueue 2" ?cs]
    by (intro exI [of _ ?cs] exI [of _ ?q']) (simp add: mq_pending_def)
qed

text \<open>
  A nil operation is accepted and then taken for the end of the channel: \<^verbatim>\<open>Dequeue\<close> stops at it,
  drops it, and returns fewer operations than are queued.
\<close>

theorem nil_operation_stops_dequeue:
  "mq_Enqueue None sel None (NewMemoryQueue n) = (None, (NewMemoryQueue n)\<lparr>mq_queue := [None]\<rparr>) \<and>
   mq_Dequeue None s 10 \<lparr>mq_queue = [Some x, None, Some y], mq_closed = False, mq_size = 8\<rparr> =
     (([x], None), \<lparr>mq_queue = [Some y], mq_closed = False, mq_size = 8\<rparr>)"
  by (auto simp: mq_Enqueue_def mq_send_def NewMemoryQueue_def mq_Dequeue_def Let_def eval_nat_numeral)

text \<open>
  \<^verbatim>\<open>Close\<close> can make a concurrent \<^verbatim>\<open>Enqueue\<close> panic: the flag is checked under the lock, but the send
  happens after the lock is released, so the channel may be closed in between. A run with one
  enqueuer and one closer reaches the panic.
\<close>

theorem enqueue_close_race:
  "\<exists>s. mq_step\<^sup>*\<^sup>* (mq_init n) s \<and> mc_panicked s"
proof -
  let ?s0 = "mq_init n"
  let ?s1 = "?s0\<lparr>mc_checked := Suc (mc_checked ?s0)\<rparr>"
  let ?s2 = "?s1\<lparr>mc_queue := snd (mq_Close (mc_queue ?s1))\<rparr>"
  let ?s3 = "?s2\<lparr>mc_queue := mc_queue ?s2, mc_checked := 0,
      mc_panicked := (mc_panicked ?s2 \<or> Some (Panic ''send on closed channel'') = Some (Panic ''send on closed channel''))\<rparr>"
  note d = mq_init_def NewMemoryQueue_def mq_Close_def mq_send_def
  have "mq_step ?s0 ?s1" by (rule mq_step.check) (simp add: d)
  moreover have "mq_step ?s1 ?s2" by (rule mq_step.close)
  moreover have "mq_step ?s2 ?s3" by (rule mq_step.send) (simp_all add: d)
  ultimately have "mq_step\<^sup>*\<^sup>* ?s0 ?s3" by (meson converse_rtranclp_into_rtranclp rtranclp.rtrancl_refl)
  moreover have "mc_panicked ?s3" by simp
  ultimately show ?thesis by blast
qed

end
