(* ===== verification/Queue_Redis.thy ===== *)
theory Queue_Redis
  imports KV_Redis KV_Dynamo Queue_Memory
begin

text \<open>
  \<^verbatim>\<open>internal/writeback/queue.go\<close> and \<^verbatim>\<open>redis_queue_ops.go\<close>: a queue on Redis lists. The store behind the
  queue has the state \<open>'w\<close>; the list operations are present when the store implements them (the type
  assertion in the constructor). \<^verbatim>\<open>Enqueue\<close> writes the timestamp into the operation it is given when it
  has none; the caller's copy is not represented.
\<close>

section \<open>Operations\<close>

record 'w RedisQueueOperations =
  lo_ListPush :: "string \<Rightarrow> string \<Rightarrow> 'w \<Rightarrow> gerror option \<times> 'w"
  lo_ListPop :: "string \<Rightarrow> 'w \<Rightarrow> string option res \<times> 'w"
  lo_ListLength :: "string \<Rightarrow> 'w \<Rightarrow> int res \<times> 'w"
  lo_ListRange :: "string \<Rightarrow> int \<Rightarrow> int \<Rightarrow> 'w \<Rightarrow> string list res \<times> 'w"
  lo_ListTrim :: "string \<Rightarrow> int \<Rightarrow> int \<Rightarrow> 'w \<Rightarrow> gerror option \<times> 'w"

record 'w RedisQueue =
  rq_kvStore :: "'w kvstore"
  rq_ops :: "'w RedisQueueOperations option"
  rq_prefix :: string

record 'w rq_state =
  rq_world :: 'w
  rq_closed :: bool

definition NewRedisQueue :: "'w kvstore \<Rightarrow> 'w RedisQueueOperations option \<Rightarrow> string \<Rightarrow> 'w RedisQueue" where
  "NewRedisQueue kv ops prefix = \<lparr>rq_kvStore = kv, rq_ops = ops, rq_prefix = (if prefix = [] then ''wbq'' else prefix)\<rparr>"

definition getQueueKey :: "'w RedisQueue \<Rightarrow> string \<Rightarrow> string" where
  "getQueueKey q tbl = rq_prefix q @ '':'' @ tbl"

definition getGlobalQueueKey :: "'w RedisQueue \<Rightarrow> string" where
  "getGlobalQueueKey q = rq_prefix q @ '':global''"

definition rq_generateOperationID :: "write_op \<Rightarrow> gotime \<Rightarrow> string" where
  "rq_generateOperationID operation t = op_Table operation @ ''_'' @ show_v (op_Key operation) @ ''_'' @ show_int (UnixNano t)"

text \<open>The timestamp of an operation that has none.\<close>

definition stamp :: "('w \<Rightarrow> gotime \<times> 'w) \<Rightarrow> write_op \<Rightarrow> 'w \<Rightarrow> write_op \<times> 'w" where
  "stamp now op w = (if IsZero (op_Timestamp op) then (let (t, w') = now w in (op\<lparr>op_Timestamp := t\<rparr>, w')) else (op, w))"

definition week :: int where
  "week = 7 * 24 * 3600 * 1000000000"

text \<open>The push to both lists, and the fallback for a store without list operations.\<close>

definition push_both :: "'w RedisQueue \<Rightarrow> 'w RedisQueueOperations \<Rightarrow> write_op \<Rightarrow> string \<Rightarrow> 'w \<Rightarrow> gerror option \<times> 'w" where
  "push_both q ops op opData w =
     (case lo_ListPush ops (getQueueKey q (op_Table op)) opData w of
        (Some err, w1) \<Rightarrow> (Some (Wrapf ''failed to enqueue operation to table queue: %w'' [] err), w1)
      | (None, w1) \<Rightarrow>
          (case lo_ListPush ops (getGlobalQueueKey q) opData w1 of
             (Some err, w2) \<Rightarrow> (Some (Wrapf ''failed to enqueue operation to global queue: %w'' [] err), w2)
           | (None, w2) \<Rightarrow> (None, w2)))"

definition store_op :: "('w \<Rightarrow> gotime \<times> 'w) \<Rightarrow> 'w RedisQueue \<Rightarrow> write_op \<Rightarrow> string \<Rightarrow> 'w \<Rightarrow> gerror option \<times> 'w" where
  "store_op now q op opData w =
     (let (t, w1) = now w; opID = rq_generateOperationID op t;
          opKey = rq_prefix q @ '':op:'' @ op_Table op @ '':'' @ opID
      in case kv_Set (rq_kvStore q) opKey opData week w1 of
           (Some err, w2) \<Rightarrow> (Some (Wrapf ''failed to store operation: %w'' [] err), w2)
         | (None, w2) \<Rightarrow>
             (let queueIndexKey = rq_prefix q @ '':index:'' @ op_Table op @ '':'' @ show_int (UnixNano (op_Timestamp op)) @ '':'' @ opID
              in case kv_Set (rq_kvStore q) queueIndexKey opID week w2 of
                   (Some err, w3) \<Rightarrow> (Some (Wrapf ''failed to store queue index: %w'' [] err), w3)
                 | (None, w3) \<Rightarrow> (None, w3)))"

definition rq_Enqueue :: "('w \<Rightarrow> gotime \<times> 'w) \<Rightarrow> 'w RedisQueue \<Rightarrow> write_op option \<Rightarrow> 'w rq_state \<Rightarrow> gerror option \<times> 'w rq_state" where
  "rq_Enqueue now q operation s =
     (if rq_closed s then (Some ErrQueueClosed, s)
      else case operation of None \<Rightarrow> (Some ErrInvalidOperation, s)
      | Some op0 \<Rightarrow>
          if op_Table op0 = [] then (Some (Wrapf ''%w: table name is required'' [] ErrInvalidOperation), s)
          else let (op, w1) = stamp now op0 (rq_world s) in
            (case marshal_write_op op of
               Inl err \<Rightarrow> (Some (Wrapf ''failed to marshal write operation: %w'' [] err), s\<lparr>rq_world := w1\<rparr>)
             | Inr opData \<Rightarrow>
                 let (e, w2) = (case rq_ops q of Some ops \<Rightarrow> push_both q ops op opData w1 | None \<Rightarrow> store_op now q op opData w1)
                 in (e, s\<lparr>rq_world := w2\<rparr>)))"

text \<open>
  The loop of both dequeue operations: at most \<open>n\<close> elements are popped; an error or an empty list ends
  it, an element that does not decode is skipped, and the error is not reported.
\<close>

fun pop_loop :: "'w RedisQueueOperations \<Rightarrow> string \<Rightarrow> nat \<Rightarrow> write_op list \<Rightarrow> 'w \<Rightarrow> write_op list \<times> 'w" where
  "pop_loop ops key 0 operations w = (operations, w)"
| "pop_loop ops key (Suc n) operations w =
     (case lo_ListPop ops key w of
        (Inl err, w1) \<Rightarrow> (operations, w1)
      | (Inr None, w1) \<Rightarrow> (operations, w1)
      | (Inr (Some d), w1) \<Rightarrow>
          (case unmarshal_write_op d of
             Inl err \<Rightarrow> pop_loop ops key n operations w1
           | Inr op \<Rightarrow> pop_loop ops key n (operations @ [op]) w1))"

definition rq_dequeue_key :: "'w RedisQueue \<Rightarrow> string \<Rightarrow> int \<Rightarrow> 'w rq_state \<Rightarrow> (write_op list \<times> gerror option) \<times> 'w rq_state" where
  "rq_dequeue_key q key batchSize s =
     (if rq_closed s then (([], Some ErrQueueClosed), s)
      else let n = (if batchSize \<le> 0 then 100 else batchSize) in
        case rq_ops q of
          None \<Rightarrow> (([], Some ErrRedisOperationsNotSupported), s)
        | Some ops \<Rightarrow> (let (operations, w) = pop_loop ops key (nat n) [] (rq_world s) in ((operations, None), s\<lparr>rq_world := w\<rparr>)))"

definition rq_Dequeue :: "'w RedisQueue \<Rightarrow> int \<Rightarrow> 'w rq_state \<Rightarrow> (write_op list \<times> gerror option) \<times> 'w rq_state" where
  "rq_Dequeue q batchSize s = rq_dequeue_key q (getGlobalQueueKey q) batchSize s"

definition DequeueFromTable :: "'w RedisQueue \<Rightarrow> string \<Rightarrow> int \<Rightarrow> 'w rq_state \<Rightarrow> (write_op list \<times> gerror option) \<times> 'w rq_state" where
  "DequeueFromTable q tbl batchSize s = rq_dequeue_key q (getQueueKey q tbl) batchSize s"

definition rq_length :: "'w RedisQueue \<Rightarrow> string \<Rightarrow> 'w rq_state \<Rightarrow> int \<times> 'w rq_state" where
  "rq_length q key s =
     (if rq_closed s then (0, s)
      else case rq_ops q of
        None \<Rightarrow> (0, s)
      | Some ops \<Rightarrow> (case lo_ListLength ops key (rq_world s) of
                       (Inl err, w) \<Rightarrow> (0, s\<lparr>rq_world := w\<rparr>)
                     | (Inr len, w) \<Rightarrow> (len, s\<lparr>rq_world := w\<rparr>)))"

definition rq_Size :: "'w RedisQueue \<Rightarrow> 'w rq_state \<Rightarrow> int \<times> 'w rq_state" where
  "rq_Size q s = rq_length q (getGlobalQueueKey q) s"

definition SizeForTable :: "'w RedisQueue \<Rightarrow> string \<Rightarrow> 'w rq_state \<Rightarrow> int \<times> 'w rq_state" where
  "SizeForTable q tbl s = rq_length q (getQueueKey q tbl) s"

definition rq_Close :: "'w rq_state \<Rightarrow> gerror option \<times> 'w rq_state" where
  "rq_Close s = (None, s\<lparr>rq_closed := True\<rparr>)"

definition redis_queue :: "('w \<Rightarrow> gotime \<times> 'w) \<Rightarrow> 'w RedisQueue \<Rightarrow> 'w rq_state wbqueue" where
  "redis_queue now q = \<lparr>q_Enqueue = rq_Enqueue now q, q_Dequeue = rq_Dequeue q, q_Size = rq_Size q, q_Close = rq_Close\<rparr>"

text \<open>The list operations of the Redis store, and the queue the program builds on it.\<close>

definition redis_list_ops :: "'s redis_client \<Rightarrow> 's redis_state RedisQueueOperations" where
  "redis_list_ops c = \<lparr>lo_ListPush = ListPush c, lo_ListPop = ListPop c, lo_ListLength = ListLength c,
     lo_ListRange = ListRange c, lo_ListTrim = ListTrim c\<rparr>"

definition queue_on_redis :: "'s redis_client \<Rightarrow> string \<Rightarrow> 's redis_state RedisQueue" where
  "queue_on_redis c prefix = NewRedisQueue (redis_kvstore c) (Some (redis_list_ops c)) prefix"

section \<open>The contract\<close>

text \<open>
  The global list is a FIFO queue: an operation with a time of its own, of a table not called global,
  goes to its end as its JSON image, and the elements decode. A pop that fails may have taken an
  element all the same, when its answer was lost; \<^verbatim>\<open>Dequeue\<close> ends there and does not report it.
\<close>

definition rq_accepts :: "write_op \<Rightarrow> bool" where
  "rq_accepts op \<longleftrightarrow> op_plain op \<and> op_Table op \<noteq> [] \<and> op_Table op \<noteq> ''global'' \<and> \<not> IsZero (op_Timestamp op)"

definition decoded :: "string list \<Rightarrow> write_op list" where
  "decoded ds = List.map_filter (\<lambda>d. case unmarshal_write_op d of Inl _ \<Rightarrow> None | Inr op \<Rightarrow> Some op) ds"

definition failed_pops_unapplied :: "'s redis_client \<Rightarrow> ('s \<Rightarrow> string \<Rightarrow> redis_val option) \<Rightarrow> bool" where
  "failed_pops_unapplied c keys \<longleftrightarrow> (\<forall>k s e s'. rc_LPop c k s = (Inl e, s') \<longrightarrow> keys s' = keys s)"

locale redis_queue_on = redis_laws +
  fixes prefix :: string
    and now :: "'a redis_state \<Rightarrow> gotime \<times> 'a redis_state"
begin

abbreviation "Q \<equiv> queue_on_redis c prefix"

definition glist :: "'a redis_state rq_state \<Rightarrow> string list" where
  "glist s = list_at (keys (rs_server (rq_world s))) (getGlobalQueueKey Q)"

definition rq_ok :: "'a redis_state rq_state \<Rightarrow> bool" where
  "rq_ok s \<longleftrightarrow> list_all (\<lambda>d. \<not> is_err (unmarshal_write_op d)) (glist s)"

definition rq_pending :: "'a redis_state rq_state \<Rightarrow> write_op list" where
  "rq_pending s = decoded (glist s)"

lemma list_at_put: "list_at (put_list k xs m) k' = (if k' = k then xs else list_at m k')"
  by (auto simp: list_at_def put_list_def)

lemma push_list:
  assumes "ListPush c k v r = (e, r')"
  shows "list_at (keys (rs_server r')) k = list_at (keys (rs_server r)) k @ [v] \<or>
      e \<noteq> None \<and> list_at (keys (rs_server r')) k = list_at (keys (rs_server r)) k"
    and "k' \<noteq> k \<Longrightarrow> list_at (keys (rs_server r')) k' = list_at (keys (rs_server r)) k'"
  using assms RPush [of k v "rs_server r"]
  by (auto simp: ListPush_def on_server_def Let_def list_at_put split: prod.splits if_splits)

lemma pop_list:
  assumes "ListPop c k r = (x, r')"
  shows "case x of
      Inr (Some v) \<Rightarrow> list_at (keys (rs_server r)) k = v # list_at (keys (rs_server r')) k
    | Inr None \<Rightarrow> list_at (keys (rs_server r')) k = list_at (keys (rs_server r)) k
    | Inl _ \<Rightarrow> \<exists>lost. list_at (keys (rs_server r)) k = lost @ list_at (keys (rs_server r')) k \<and> length lost \<le> 1 \<and>
        (failed_pops_unapplied c keys \<longrightarrow> lost = [])"
proof (cases "rs_closed r")
  case True
  then show ?thesis using assms by (auto simp: ListPop_def)
next
  case False
  obtain y s' where y: "rc_LPop c k (rs_server r) = (y, s')" by (cases "rc_LPop c k (rs_server r)")
  show ?thesis
  proof (cases y)
    case (Inl e)
    let ?xs = "list_at (keys (rs_server r)) k" and ?xs' = "list_at (keys s') k"
    have l: "if e = RedisNil then ?xs' = ?xs else ?xs' = ?xs \<or> ?xs' = tl ?xs"
      using LPop [OF y] Inl by (auto simp: list_at_put split: if_splits)
    have u: "failed_pops_unapplied c keys \<longrightarrow> ?xs' = ?xs" using y Inl by (auto simp: failed_pops_unapplied_def)
    have "\<exists>lost. ?xs = lost @ ?xs' \<and> length lost \<le> 1 \<and> (failed_pops_unapplied c keys \<longrightarrow> lost = [])"
    proof (cases "?xs' = ?xs")
      case False
      then have "?xs = [hd ?xs] @ ?xs'" using l by (cases ?xs) (auto split: if_splits)
      then show ?thesis using False u by (intro exI [of _ "[hd ?xs]"]) simp
    qed simp
    then show ?thesis using assms \<open>\<not> rs_closed r\<close> y Inl l by (auto simp: ListPop_def on_server_def split: if_splits)
  next
    case (Inr v)
    then obtain xs where "list_at (keys (rs_server r)) k = v # xs" "keys s' = put_list k xs (keys (rs_server r))"
      using LPop [OF y] by auto
    then show ?thesis using assms False y Inr by (auto simp: ListPop_def on_server_def list_at_put)
  qed
qed

lemma decoded_simps [simp]:
  "decoded [] = []" "decoded (d # ds) = (case unmarshal_write_op d of Inl _ \<Rightarrow> decoded ds | Inr op \<Rightarrow> op # decoded ds)"
  "decoded (xs @ ys) = decoded xs @ decoded ys"
  by (auto simp: decoded_def map_filter_def split: sum.splits)

lemma pop_loop_prefix:
  assumes "pop_loop (redis_list_ops c) key n operations r = (xs, r')"
  shows "\<exists>ds lost. list_at (keys (rs_server r)) key = ds @ lost @ list_at (keys (rs_server r')) key \<and>
    xs = operations @ decoded ds \<and> length ds \<le> n \<and> length lost \<le> 1 \<and> (failed_pops_unapplied c keys \<longrightarrow> lost = []) \<and>
    (lost \<noteq> [] \<longrightarrow> length ds < n)"
  using assms
proof (induction n arbitrary: operations r)
  case (Suc n)
  obtain x r1 where x: "ListPop c key r = (x, r1)" by (cases "ListPop c key r")
  note p = pop_list [OF x]
  show ?case
  proof (cases "\<exists>d. x = Inr (Some d)")
    case False
    then have r: "xs = operations" "r' = r1" using Suc.prems x
      by (auto simp: redis_list_ops_def split: sum.splits option.splits)
    obtain lost where "list_at (keys (rs_server r)) key = lost @ list_at (keys (rs_server r1)) key" "length lost \<le> 1"
      "failed_pops_unapplied c keys \<longrightarrow> lost = []"
      using p False by (cases x) (auto split: option.splits)
    then show ?thesis using r by (intro exI [of _ "[]"] exI [of _ lost]) simp
  next
    case True
    then obtain d where d: "x = Inr (Some d)" by blast
    let ?ops = "case unmarshal_write_op d of Inl _ \<Rightarrow> operations | Inr op \<Rightarrow> operations @ [op]"
    have "pop_loop (redis_list_ops c) key n ?ops r1 = (xs, r')"
      using Suc.prems x d by (auto simp: redis_list_ops_def split: sum.splits)
    then obtain ds lost where "list_at (keys (rs_server r1)) key = ds @ lost @ list_at (keys (rs_server r')) key"
      "xs = ?ops @ decoded ds" "length ds \<le> n" "length lost \<le> 1" "failed_pops_unapplied c keys \<longrightarrow> lost = []"
      "lost \<noteq> [] \<longrightarrow> length ds < n" using Suc.IH by blast
    then show ?thesis using p d by (intro exI [of _ "d # ds"] exI [of _ lost]) (auto split: sum.splits)
  qed
qed simp

lemma decoded_length: "list_all (\<lambda>d. \<not> is_err (unmarshal_write_op d)) ds \<Longrightarrow> length (decoded ds) = length ds"
  by (induction ds) (auto split: sum.splits)

lemma global_key_neq: "t \<noteq> ''global'' \<Longrightarrow> getGlobalQueueKey Q \<noteq> getQueueKey Q t"
  by (auto simp: getGlobalQueueKey_def getQueueKey_def)

lemma decoded_length_le: "length (decoded ds) \<le> length ds"
  by (induction ds) (auto split: sum.splits)

lemma enqueue_glist:
  assumes "rq_accepts x" and "rq_Enqueue now Q (Some x) w = (e, w')" and "marshal_write_op x = Inr d"
  shows "glist w' = glist w @ [d] \<or> e \<noteq> None \<and> glist w' = glist w"
proof (cases "rq_closed w")
  case True
  then show ?thesis using assms by (auto simp: rq_Enqueue_def)
next
  case False
  have "stamp now x (rq_world w) = (x, rq_world w)" using assms(1) by (simp add: stamp_def rq_accepts_def)
  then obtain w2 where w2: "push_both Q (redis_list_ops c) x d (rq_world w) = (e, w2)" "w' = w\<lparr>rq_world := w2\<rparr>"
    using assms False by (auto simp: rq_Enqueue_def rq_accepts_def queue_on_redis_def NewRedisQueue_def split: prod.splits)
  obtain e1 w1 where p1: "ListPush c (getQueueKey Q (op_Table x)) d (rq_world w) = (e1, w1)"
    by (cases "ListPush c (getQueueKey Q (op_Table x)) d (rq_world w)")
  have g1: "list_at (keys (rs_server w1)) (getGlobalQueueKey Q) = glist w"
    using push_list(2) [OF p1 global_key_neq] assms(1) by (simp add: glist_def rq_accepts_def)
  obtain e2 w3 where p2: "ListPush c (getGlobalQueueKey Q) d w1 = (e2, w3)" by (cases "ListPush c (getGlobalQueueKey Q) d w1")
  show ?thesis using w2 p1 p2 g1 push_list(1) [OF p2]
    by (auto simp: push_both_def redis_list_ops_def glist_def split: option.splits)
qed

lemma dequeue_glist:
  assumes "rq_ok w" and "rq_Dequeue Q n w = ((xs, e), w')"
  shows "rq_ok w' \<and> (\<exists>lost. rq_pending w = xs @ lost @ rq_pending w' \<and> length lost \<le> 1 \<and> (failed_pops_unapplied c keys \<longrightarrow> lost = []) \<and>
    (lost \<noteq> [] \<longrightarrow> e = None \<and> int (length xs) < (if n \<le> 0 then 100 else n))) \<and> int (length xs) \<le> (if n \<le> 0 then 100 else n)"
proof (cases "rq_closed w")
  case True
  then show ?thesis using assms by (auto simp: rq_Dequeue_def rq_dequeue_key_def)
next
  case False
  let ?n = "if n \<le> 0 then 100 else n"
  obtain r where r: "pop_loop (redis_list_ops c) (getGlobalQueueKey Q) (nat ?n) [] (rq_world w) = (xs, r)"
    "w' = w\<lparr>rq_world := r\<rparr>" "e = None"
    using assms(2) False by (auto simp: rq_Dequeue_def rq_dequeue_key_def queue_on_redis_def NewRedisQueue_def Let_def split: prod.splits)
  obtain ds lost where l: "glist w = ds @ lost @ glist w'" "xs = decoded ds" "length ds \<le> nat ?n" "length lost \<le> 1"
    "failed_pops_unapplied c keys \<longrightarrow> lost = []" "lost \<noteq> [] \<longrightarrow> length ds < nat ?n"
    using pop_loop_prefix [OF r(1)] r(2) by (auto simp: glist_def)
  have "length (decoded lost) \<le> 1" "decoded lost \<noteq> [] \<longrightarrow> lost \<noteq> []" using decoded_length_le [of lost] l(4) by auto
  then show ?thesis using assms(1) l r(3) decoded_length_le [of ds]
    by (intro conjI exI [of _ "decoded lost"]) (auto simp: rq_ok_def rq_pending_def)
qed

lemma redis_queue_keeps_contract: "queue_contract (redis_queue now Q) rq_pending rq_ok op_image rq_accepts"
proof
  fix w x e w'
  assume ok: "rq_ok w" and x: "rq_accepts x" and q: "q_Enqueue (redis_queue now Q) (Some x) w = (e, w')"
  obtain d where d: "marshal_write_op x = Inr d" "unmarshal_write_op d = Inr (op_image x)"
    using unmarshal_marshal_write_op x by (auto simp: rq_accepts_def)
  have "glist w' = glist w @ [d] \<or> e \<noteq> None \<and> glist w' = glist w"
    using enqueue_glist [OF x _ d(1)] q by (simp add: redis_queue_def)
  then show "rq_ok w' \<and> (rq_pending w' = rq_pending w @ [op_image x] \<or> e \<noteq> None \<and> rq_pending w' = rq_pending w)"
    using ok d(2) by (auto simp: rq_ok_def rq_pending_def)
next
  fix w n xs e w'
  assume "rq_ok w" and "q_Dequeue (redis_queue now Q) n w = ((xs, e), w')"
  then show "rq_ok w' \<and> (\<exists>lost. rq_pending w = xs @ lost @ rq_pending w' \<and> length lost \<le> 1) \<and>
      int (length xs) \<le> (if n \<le> 0 then 100 else n)"
    using dequeue_glist [of w n xs e w'] by (auto simp: redis_queue_def)
qed

lemma redis_queue_lossless:
  assumes "failed_pops_unapplied c keys"
  shows "lossless_queue (redis_queue now Q) rq_pending rq_ok op_image rq_accepts"
proof (intro lossless_queue.intro redis_queue_keeps_contract lossless_queue_axioms.intro)
  fix w n xs e w'
  assume "rq_ok w" and "q_Dequeue (redis_queue now Q) n w = ((xs, e), w')"
  then show "rq_pending w = xs @ rq_pending w'" using dequeue_glist [of w n xs e w'] assms by (auto simp: redis_queue_def)
qed

end

sublocale redis_queue_on \<subseteq> rq: queue_contract "redis_queue now Q" rq_pending rq_ok op_image rq_accepts
  by (rule redis_queue_keeps_contract)

interpretation rref: redis_queue_on ref_client ref_keys "''wbq''" redis_clock
  by unfold_locales

text \<open>The reference server loses no answer.\<close>

lemma ref_pops: "failed_pops_unapplied ref_client ref_keys"
  by (auto simp: failed_pops_unapplied_def ref_client_def split: sum.splits list.splits)

interpretation rref_lossless: lossless_queue "redis_queue redis_clock rref.Q" rref.rq_pending rref.rq_ok op_image rq_accepts
  by (rule rref.redis_queue_lossless [OF ref_pops])

section \<open>Lemmas\<close>

context redis_laws
begin

lemma pop_frame:
  assumes "ListPop c k r = (x, r')" and "k' \<noteq> k"
  shows "list_at (keys (rs_server r')) k' = list_at (keys (rs_server r)) k'"
proof (cases "rs_closed r")
  case True
  then show ?thesis using assms by (auto simp: ListPop_def)
next
  case False
  obtain y s' where y: "rc_LPop c k (rs_server r) = (y, s')" by (cases "rc_LPop c k (rs_server r)")
  have "list_at (keys s') k' = list_at (keys (rs_server r)) k'"
    using LPop [OF y] assms(2) by (auto simp: put_list_def list_at_def split: sum.splits if_splits)
  then show ?thesis using assms(1) False y by (auto simp: ListPop_def on_server_def split: sum.splits if_splits)
qed

lemma pop_loop_frame:
  assumes "pop_loop (redis_list_ops c) key n operations r = (xs, r')" and "k' \<noteq> key"
  shows "list_at (keys (rs_server r')) k' = list_at (keys (rs_server r)) k'"
  using assms(1)
proof (induction n arbitrary: operations r)
  case (Suc n)
  obtain x r1 where x: "ListPop c key r = (x, r1)" by (cases "ListPop c key r")
  have "list_at (keys (rs_server r')) k' = list_at (keys (rs_server r1)) k'"
    using Suc.prems x Suc.IH by (auto simp: redis_list_ops_def split: sum.splits option.splits)
  then show ?case using pop_frame [OF x assms(2)] by simp
qed simp

end

text \<open>On the reference server pushes succeed as long as no key holds a string.\<close>

definition no_strings :: "redis_ref redis_state rq_state \<Rightarrow> bool" where
  "no_strings s \<longleftrightarrow> \<not> rq_closed s \<and> \<not> rs_closed (rq_world s) \<and> (\<forall>k x. ref_keys (rs_server (rq_world s)) k \<noteq> Some (RStr x))"

lemma ref_push_ok:
  assumes "\<not> rs_closed r" and "\<forall>k x. ref_keys (rs_server r) k \<noteq> Some (RStr x)"
  shows "\<exists>r'. ListPush ref_client k v r = (None, r') \<and> \<not> rs_closed r' \<and> (\<forall>k x. ref_keys (rs_server r') k \<noteq> Some (RStr x))"
proof -
  have "\<not> is_err (ref_list (rs_server r) k)"
    using spec [OF assms(2), of k] by (auto simp: ref_list_def ref_keys_def split: option.splits redis_val.splits if_splits)
  then obtain xs where "ref_list (rs_server r) k = Inr xs" unfolding not_err_iff by blast
  then show ?thesis using assms
    by (auto simp: ListPush_def on_server_def ref_client_def ref_keys_put_list put_list_def)
qed

lemma ref_Enqueue_ok:
  assumes "no_strings s" and "rq_accepts op"
  shows "\<exists>s'. rq_Enqueue redis_clock (queue_on_redis ref_client p) (Some op) s = (None, s') \<and> no_strings s'"
proof -
  let ?q = "queue_on_redis ref_client p"
  obtain d where d: "marshal_write_op op = Inr d" using unmarshal_marshal_write_op assms(2) by (auto simp: rq_accepts_def)
  obtain r1 where r1: "ListPush ref_client (getQueueKey ?q (op_Table op)) d (rq_world s) = (None, r1)" "\<not> rs_closed r1"
    "\<forall>k x. ref_keys (rs_server r1) k \<noteq> Some (RStr x)"
    using ref_push_ok assms(1) unfolding no_strings_def by meson
  obtain r2 where r2: "ListPush ref_client (getGlobalQueueKey ?q) d r1 = (None, r2)" "\<not> rs_closed r2"
    "\<forall>k x. ref_keys (rs_server r2) k \<noteq> Some (RStr x)"
    using ref_push_ok r1(2,3) by meson
  have "stamp redis_clock op (rq_world s) = (op, rq_world s)" using assms(2) by (simp add: stamp_def rq_accepts_def)
  then have "rq_Enqueue redis_clock ?q (Some op) s = (None, s\<lparr>rq_world := r2\<rparr>)"
    using assms d r1(1) r2(1)
    by (auto simp: rq_Enqueue_def no_strings_def rq_accepts_def push_both_def redis_list_ops_def queue_on_redis_def NewRedisQueue_def)
  then show ?thesis using r2 assms(1) by (auto simp: no_strings_def)
qed

lemma rq_Dequeue_open:
  "\<not> rq_closed s \<Longrightarrow> rq_ops q = Some ops \<Longrightarrow> \<exists>ys w. rq_Dequeue q n s = ((ys, None), w)"
  by (cases "pop_loop ops (getGlobalQueueKey q) (nat (if n \<le> 0 then 100 else n)) [] (rq_world s)")
    (simp add: rq_Dequeue_def rq_dequeue_key_def Let_def)

lemma fallback_Dequeue:
  "rq_ops q = None \<Longrightarrow> \<not> rq_closed s \<Longrightarrow> rq_Dequeue q n s = (([], Some ErrRedisOperationsNotSupported), s)"
  by (simp add: rq_Dequeue_def rq_dequeue_key_def)

section \<open>Properties\<close>



text \<open>
  The list of a table is never drained: \<^verbatim>\<open>Enqueue\<close> pushes every operation to the list of its table
  as well as to the global list, but \<^verbatim>\<open>Dequeue\<close>, the only consumer the drainers use, leaves the lists
  of the tables as they are, so these grow with every operation and are never trimmed.
\<close>

theorem table_lists_never_drained:
  assumes "redis_laws c keys" and "t \<noteq> ''global''"
    and "q_Dequeue (redis_queue now (queue_on_redis c p)) n s = (r, s')"
  shows "list_at (keys (rs_server (rq_world s'))) (getQueueKey (queue_on_redis c p) t) =
    list_at (keys (rs_server (rq_world s))) (getQueueKey (queue_on_redis c p) t)"
proof (cases "rq_closed s")
  case True
  then show ?thesis using assms(3) by (auto simp: redis_queue_def rq_Dequeue_def rq_dequeue_key_def)
next
  case False
  let ?q = "queue_on_redis c p"
  obtain xs w where w: "pop_loop (redis_list_ops c) (getGlobalQueueKey ?q) (nat (if n \<le> 0 then 100 else n)) [] (rq_world s) = (xs, w)"
    "s' = s\<lparr>rq_world := w\<rparr>"
    using assms(3) False
    by (auto simp: redis_queue_def rq_Dequeue_def rq_dequeue_key_def queue_on_redis_def NewRedisQueue_def Let_def split: prod.splits)
  have "getQueueKey ?q t \<noteq> getGlobalQueueKey ?q" using assms(2) by (auto simp: getGlobalQueueKey_def getQueueKey_def)
  from redis_laws.pop_loop_frame [OF assms(1) w(1) this] show ?thesis using w(2) by simp
qed

theorem table_lists_never_drained_witness:
  "list_at (ref_keys (rs_server (rq_world (snd (q_Dequeue (redis_queue redis_clock (queue_on_redis ref_client ''wbq'')) 5
     \<lparr>rq_world = ex_redis\<lparr>rs_server := \<lparr>rr_data = [(''wbq:a'', RList [''x''], None)], rr_now = 0\<rparr>\<rparr>, rq_closed = False\<rparr>)))))
     ''wbq:a'' = [''x'']"
proof -
  let ?s = "\<lparr>rq_world = ex_redis\<lparr>rs_server := \<lparr>rr_data = [(''wbq:a'', RList [''x''], None)], rr_now = 0\<rparr>\<rparr>, rq_closed = False\<rparr>"
  let ?q = "queue_on_redis ref_client ''wbq''"
  obtain r s' where d: "q_Dequeue (redis_queue redis_clock ?q) 5 ?s = (r, s')" by (cases "q_Dequeue (redis_queue redis_clock ?q) 5 ?s")
  have k: "getQueueKey ?q ''a'' = ''wbq:a''" by (simp add: getQueueKey_def queue_on_redis_def NewRedisQueue_def)
  have "list_at (ref_keys (rs_server (rq_world ?s))) ''wbq:a'' = [''x'']"
    by (simp add: list_at_def ref_keys_def ref_lookup_def)
  then show ?thesis using table_lists_never_drained [OF ref.redis_laws_axioms _ d, of "''a''"] d k by simp
qed

text \<open>
  On a store without list operations (DynamoDB) the queue accepts operations and never delivers
  one: \<^verbatim>\<open>Enqueue\<close> succeeds whenever the store accepts the two keys it writes, while \<^verbatim>\<open>Dequeue\<close> always
  fails and \<^verbatim>\<open>Size\<close> is always 0, so such writes never reach the database.
\<close>

theorem fallback_queue_never_delivers:
  assumes "\<not> rq_closed s" and "rq_Enqueue now (NewRedisQueue kv None p) (Some op) s = (None, s')"
  shows "rq_Dequeue (NewRedisQueue kv None p) n s' = (([], Some ErrRedisOperationsNotSupported), s') \<and>
    rq_Size (NewRedisQueue kv None p) s' = (0, s')"
proof -
  have q: "rq_ops (NewRedisQueue kv None p) = None" by (simp add: NewRedisQueue_def)
  have "\<not> rq_closed s'"
    using assms by (auto simp: rq_Enqueue_def Let_def split: prod.splits sum.splits if_splits)
  then show ?thesis using fallback_Dequeue [OF q] by (simp add: rq_Size_def rq_length_def q)
qed

theorem fallback_queue_never_delivers_witness:
  "\<exists>s'. rq_Enqueue (\<lambda>d. (dr_clock (ds_service d), d)) (NewRedisQueue (dynamo_kvstore dref_client dref_now) None [])
        (Some (ex_op ''a'' 1)) \<lparr>rq_world = ex_expired, rq_closed = False\<rparr> = (None, s') \<and>
     fst (rq_Dequeue (NewRedisQueue (dynamo_kvstore dref_client dref_now) None []) 10 s') = ([], Some ErrRedisOperationsNotSupported)"
proof -
  let ?q = "NewRedisQueue (dynamo_kvstore dref_client dref_now) None []" and ?now = "\<lambda>d. (dr_clock (ds_service d), d)"
  let ?s = "\<lparr>rq_world = ex_expired, rq_closed = False\<rparr>"
  have a: "rq_accepts (ex_op ''a'' 1)" by code_simp
  then obtain d where d: "marshal_write_op (ex_op ''a'' 1) = Inr d" using unmarshal_marshal_write_op by (auto simp: rq_accepts_def)
  have set: "fst (kv_Set (dynamo_kvstore dref_client dref_now) k v ttl w) = None \<and>
      \<not> ds_closed (snd (kv_Set (dynamo_kvstore dref_client dref_now) k v ttl w))" if "\<not> ds_closed w" for k v ttl w
    using that by (auto simp: dynamo_kvstore_def Dynamo_Set_def make_item_def on_service_def dref_client_def dref_now_def Let_def)
  have "\<not> ds_closed ex_expired" by (simp add: ex_expired_def)
  then have "fst (store_op ?now ?q (ex_op ''a'' 1) d ex_expired) = None"
    using set by (simp add: store_op_def NewRedisQueue_def Let_def case_prod_unfold)
  moreover have "stamp ?now (ex_op ''a'' 1) ex_expired = (ex_op ''a'' 1, ex_expired)" using a by (simp add: stamp_def rq_accepts_def)
  ultimately obtain s' where e: "rq_Enqueue ?now ?q (Some (ex_op ''a'' 1)) ?s = (None, s')"
    using a d by (cases "store_op ?now ?q (ex_op ''a'' 1) d ex_expired")
      (auto simp: rq_Enqueue_def rq_accepts_def NewRedisQueue_def)
  have "\<not> rq_closed ?s" by simp
  from fallback_queue_never_delivers [OF this e] show ?thesis using e by auto
qed

end
