(* ===== verification/Table_Impl.thy ===== *)
theory Table_Impl
  imports Read_Consistency Write_WAL Queue_Redis
begin

text \<open>
  \<^verbatim>\<open>internal/table/table_impl.go\<close>: the table a client works with. A table's collaborators are gathered in
  one record; its state is the state of the read path and the flag \<^verbatim>\<open>enabled\<close>. The operations run one
  after the other; the goroutines they start (cache fills, clean-ups of the stampede guard) wait in
  the state and run as steps of their own.

  Go maps are shared by reference. The record that \<^verbatim>\<open>Read\<close> returns is the very map that the stampede
  guard remembers, or the one a started cache fill will store, and \<^verbatim>\<open>Update\<close> writes its changes into
  it, so the model tracks where the map is shared and writes the changes there too.
\<close>

section \<open>State\<close>

record 'w TableImpl =
  tb_tableName :: string
  tb_schema :: schema
  tb_kvStore :: "'w kvstore"
  tb_database :: "'w database"
  tb_translator :: Translator
  tb_walManager :: WALManager
  tb_writeQueue :: "'w wbqueue"
  tb_ttl :: int
  tb_namespace :: string
  tb_now :: "'w \<Rightarrow> gotime \<times> 'w"
  tb_tz :: tzinfo

record 'w tstate =
  ts_read :: "'w rstate"
  ts_enabled :: bool

definition NewTableImpl :: "string \<Rightarrow> schema \<Rightarrow> 'w kvstore \<Rightarrow> 'w database \<Rightarrow> 'w wbqueue \<Rightarrow> int \<Rightarrow> string \<Rightarrow>
    ('w \<Rightarrow> gotime \<times> 'w) \<Rightarrow> tzinfo \<Rightarrow> 'w \<Rightarrow> 'w TableImpl \<times> 'w tstate" where
  "NewTableImpl tableName schema kvStore database writeQueue ttl namespace now tz w =
     (\<lparr>tb_tableName = tableName, tb_schema = schema, tb_kvStore = kvStore, tb_database = database,
       tb_translator = NewTranslator, tb_walManager = NewWALManager ''wal'', tb_writeQueue = writeQueue,
       tb_ttl = ttl, tb_namespace = namespace, tb_now = now, tb_tz = tz\<rparr>,
      \<lparr>ts_read = \<lparr>r_world = w, r_pending = [], r_cleanups = [], r_fills = []\<rparr>, ts_enabled = False\<rparr>)"

text \<open>A step of the read path, and a call of a collaborator.\<close>

definition on_read :: "('w rstate \<Rightarrow> 'a \<times> 'w rstate) \<Rightarrow> 'w tstate \<Rightarrow> 'a \<times> 'w tstate" where
  "on_read f s = (let (x, r) = f (ts_read s) in (x, s\<lparr>ts_read := r\<rparr>))"

definition on_env :: "('w \<Rightarrow> 'a \<times> 'w) \<Rightarrow> 'w tstate \<Rightarrow> 'a \<times> 'w tstate" where
  "on_env f s = on_read (on_world f) s"

definition env :: "'w tstate \<Rightarrow> 'w" where
  "env s = r_world (ts_read s)"

section \<open>Operations\<close>

definition EnableKV :: "'w tstate \<Rightarrow> gerror option \<times> 'w tstate" where
  "EnableKV s = (None, s\<lparr>ts_enabled := True\<rparr>)"

definition DisableKV :: "'w tstate \<Rightarrow> gerror option \<times> 'w tstate" where
  "DisableKV s = (None, s\<lparr>ts_enabled := False\<rparr>)"

text \<open>The statement of a write, before it is executed.\<close>

definition write_statement :: "'w TableImpl \<Rightarrow> string \<Rightarrow> goval \<Rightarrow> grecord option \<Rightarrow> (string \<times> goval list) res" where
  "write_statement t opType key dat =
     (if opType = OperationCreate then ToDB (tb_translator t) (tb_tz t) dat (Some (tb_schema t))
      else if opType = OperationUpdate then ToDBUpdate (tb_translator t) (tb_tz t) key dat (Some (tb_schema t))
      else if opType = OperationDelete
      then Inr (''DELETE FROM '' @ tb_tableName t @ '' WHERE '' @ sch_PrimaryKey (tb_schema t) @ '' = ?'', [key])
      else Inl (Errorf ''unsupported operation type: %s'' [opType]))"

definition writeToDatabase :: "'w TableImpl \<Rightarrow> string \<Rightarrow> goval \<Rightarrow> grecord option \<Rightarrow> 'w tstate \<Rightarrow> gerror option \<times> 'w tstate" where
  "writeToDatabase t opType key dat s =
     (case write_statement t opType key dat of
        Inl err \<Rightarrow> (Some err, s)
      | Inr (query, args) \<Rightarrow>
          (case on_env (db_Exec (tb_database t) query args) s of
             (Inl err, s1) \<Rightarrow> (Some err, s1)
           | (Inr result, s1) \<Rightarrow> (None, s1)))"

definition readFromDatabase :: "'w TableImpl \<Rightarrow> goval \<Rightarrow> 'w tstate \<Rightarrow> grecord res \<times> 'w tstate" where
  "readFromDatabase t key s =
     (let query = ''SELECT * FROM '' @ tb_tableName t @ '' WHERE '' @ sch_PrimaryKey (tb_schema t) @ '' = ?'' in
      case on_env (db_Query (tb_database t) query [key]) s of
        (Inl err, s1) \<Rightarrow> (Inl err, s1)
      | (Inr rows, s1) \<Rightarrow>
          (case rows_data rows of
             [] \<Rightarrow> (Inl (Errorf ''record not found'' []), s1)
           | row # _ \<Rightarrow> (FromDB (tb_translator t) (tb_tz t) (Some row) (Some (tb_schema t)), s1)))"

text \<open>The entry of the write-ahead log and the operation for the queue.\<close>

definition append_wal :: "'w TableImpl \<Rightarrow> string \<Rightarrow> goval \<Rightarrow> grecord option \<Rightarrow> string \<Rightarrow> string option \<Rightarrow> 'w tstate \<Rightarrow> gerror option \<times> 'w tstate" where
  "append_wal t opType key dat kvKey val s =
     (let (ts, s1) = on_env (tb_now t) s;
          walOp = \<lparr>wal_OperationID = [], wal_Table = tb_tableName t, wal_Operation = opType, wal_Key = key, wal_Data = dat,
                   wal_Timestamp = ts, wal_KeyValue = kvKey, wal_Value = val\<rparr>
      in case on_env (Append (tb_kvStore t) (tb_now t) (tb_walManager t) walOp) s1 of
           ((Some err, _), s2) \<Rightarrow> (Some (Wrapf ''failed to append to WAL: %w'' [] err), s2)
         | ((None, _), s2) \<Rightarrow> (None, s2))"

definition table_op :: "'w TableImpl \<Rightarrow> string \<Rightarrow> goval \<Rightarrow> grecord option \<Rightarrow> gotime \<Rightarrow> write_op" where
  "table_op t opType key dat ts = \<lparr>op_Table = tb_tableName t, op_Operation = opType, op_Key = key, op_Data = dat,
     op_Timestamp = ts, op_RetryCount = 0\<rparr>"

definition enqueue_op :: "'w TableImpl \<Rightarrow> string \<Rightarrow> goval \<Rightarrow> grecord option \<Rightarrow> 'w tstate \<Rightarrow> gerror option \<times> 'w tstate" where
  "enqueue_op t opType key dat s =
     (let (ts, s1) = on_env (tb_now t) s
      in case on_env (q_Enqueue (tb_writeQueue t) (Some (table_op t opType key dat ts))) s1 of
           (Some err, s2) \<Rightarrow> (Some (Wrapf ''failed to enqueue write operation: %w'' [] err), s2)
         | (None, s2) \<Rightarrow> (None, s2))"

definition log_and_enqueue :: "'w TableImpl \<Rightarrow> string \<Rightarrow> goval \<Rightarrow> grecord option \<Rightarrow> string \<Rightarrow> string option \<Rightarrow> 'w tstate \<Rightarrow> gerror option \<times> 'w tstate" where
  "log_and_enqueue t opType key dat kvKey val s =
     (case append_wal t opType key dat kvKey val s of
        (Some err, s1) \<Rightarrow> (Some err, s1)
      | (None, s1) \<Rightarrow> enqueue_op t opType key dat s1)"

text \<open>The value of a field that a map may not have: nil in that case.\<close>

definition field :: "grecord option \<Rightarrow> string \<Rightarrow> goval" where
  "field record name = (case record of None \<Rightarrow> VNil | Some r \<Rightarrow> (case map_of r name of None \<Rightarrow> VNil | Some v \<Rightarrow> v))"

text \<open>\<^verbatim>\<open>Create\<close> asks for the size of the queue at the end, for its log.\<close>

definition Create :: "'w TableImpl \<Rightarrow> grecord option \<Rightarrow> 'w tstate \<Rightarrow> gerror option \<times> 'w tstate" where
  "Create t record s =
     (if \<not> ts_enabled s then writeToDatabase t OperationCreate VNil record s
      else case ToKV (tb_translator t) (tb_tz t) record (Some (tb_schema t)) of
        Inl err \<Rightarrow> (Some (Wrapf ''failed to convert record to KV: %w'' [] err), s)
      | Inr (key, val) \<Rightarrow>
          (case on_env (kv_Set (tb_kvStore t) key val (tb_ttl t)) s of
             (Some err, s1) \<Rightarrow> (Some (Wrapf ''failed to write to KV store: %w'' [] err), s1)
           | (None, s1) \<Rightarrow>
               (case log_and_enqueue t OperationCreate (field record (sch_PrimaryKey (tb_schema t))) record key (Some val) s1 of
                  (Some err, s2) \<Rightarrow> (Some err, s2)
                | (None, s2) \<Rightarrow> (let (size, s3) = on_env (q_Size (tb_writeQueue t)) s2 in (None, s3)))))"

text \<open>Where the map of a record that \<^verbatim>\<open>Read\<close> returns is shared.\<close>

datatype sharing = Private | InPending string | InFill

text \<open>The map of a cache read is the one \<^verbatim>\<open>SetResult\<close> stores, when it stores it.\<close>

definition stores_result :: "('w \<Rightarrow> gotime \<times> 'w) \<Rightarrow> string \<Rightarrow> 'w rstate \<Rightarrow> bool" where
  "stores_result now key r \<longleftrightarrow> \<not> fst (IsInFlight now key r) \<and>
     (case map_of (r_pending r) key of None \<Rightarrow> True | Some p \<Rightarrow> pr_result p = None \<and> pr_err p = None)"

definition Read_shared :: "'w TableImpl \<Rightarrow> goval \<Rightarrow> 'w tstate \<Rightarrow> (grecord res \<times> sharing) \<times> 'w tstate" where
  "Read_shared t key s =
     (if \<not> ts_enabled s then (let (r, s1) = readFromDatabase t key s in ((r, Private), s1))
      else
       (let cacheKey = BuildKey (tb_namespace t) (tb_tableName t) key in
        case on_read (Cache_Read (tb_kvStore t) (tb_now t) (tb_translator t) (tb_tz t) (tb_namespace t) (tb_tableName t) key
                        (Some (tb_schema t))) s of
          (Inr record, s1) \<Rightarrow>
            ((Inr record, if stores_result (tb_now t) cacheKey (ts_read s) then InPending cacheKey else Private), s1)
        | (Inl err, s1) \<Rightarrow>
            (case on_read (ReadFromDB (tb_database t) (tb_tableName t) key (tb_schema t)) s1 of
               (Inl err, s2) \<Rightarrow> ((Inl err, Private), s2)
             | (Inr record, s2) \<Rightarrow> ((Inr record, InFill), s2))))"

definition Read :: "'w TableImpl \<Rightarrow> goval \<Rightarrow> 'w tstate \<Rightarrow> grecord res \<times> 'w tstate" where
  "Read t key s = (let ((r, _), s1) = Read_shared t key s in (r, s1))"

definition merge :: "grecord \<Rightarrow> grecord option \<Rightarrow> grecord" where
  "merge record updates = fold (\<lambda>(k, v) m. gomap_set m k v) (case updates of None \<Rightarrow> [] | Some u \<Rightarrow> u) record"

definition share :: "sharing \<Rightarrow> grecord \<Rightarrow> 'w rstate \<Rightarrow> 'w rstate" where
  "share sh record r =
     (case sh of
        Private \<Rightarrow> r
      | InPending key \<Rightarrow>
          (case map_of (r_pending r) key of
             None \<Rightarrow> r
           | Some p \<Rightarrow> r\<lparr>r_pending := gomap_set (r_pending r) key (p\<lparr>pr_result := Some record\<rparr>)\<rparr>)
      | InFill \<Rightarrow> r\<lparr>r_fills := butlast (r_fills r) @ [record]\<rparr>)"

definition Update :: "'w TableImpl \<Rightarrow> goval \<Rightarrow> grecord option \<Rightarrow> 'w tstate \<Rightarrow> gerror option \<times> 'w tstate" where
  "Update t key updates s =
     (if \<not> ts_enabled s then writeToDatabase t OperationUpdate key updates s
      else case Read_shared t key s of
        ((Inl err, _), s1) \<Rightarrow> (Some (Wrapf ''failed to read record for update: %w'' [] err), s1)
      | ((Inr record, sh), s1) \<Rightarrow>
          (let merged = merge record updates; s2 = s1\<lparr>ts_read := share sh merged (ts_read s1)\<rparr> in
           case ToKV (tb_translator t) (tb_tz t) (Some merged) (Some (tb_schema t)) of
             Inl err \<Rightarrow> (Some (Wrapf ''failed to convert record to KV: %w'' [] err), s2)
           | Inr (kvKey, val) \<Rightarrow>
               (case on_env (kv_Set (tb_kvStore t) kvKey val (tb_ttl t)) s2 of
                  (Some err, s3) \<Rightarrow> (Some (Wrapf ''failed to write to KV store: %w'' [] err), s3)
                | (None, s3) \<Rightarrow> log_and_enqueue t OperationUpdate key updates kvKey (Some val) s3)))"

definition Delete :: "'w TableImpl \<Rightarrow> goval \<Rightarrow> 'w tstate \<Rightarrow> gerror option \<times> 'w tstate" where
  "Delete t key s =
     (if \<not> ts_enabled s then writeToDatabase t OperationDelete key None s
      else let cacheKey = BuildKey (tb_namespace t) (tb_tableName t) key in
        case on_env (kv_Delete (tb_kvStore t) cacheKey) s of
          (Some err, s1) \<Rightarrow> (Some (Wrapf ''failed to delete from KV store: %w'' [] err), s1)
        | (None, s1) \<Rightarrow> log_and_enqueue t OperationDelete key None cacheKey None s1)"

definition FindByField :: "'w TableImpl \<Rightarrow> string \<Rightarrow> goval \<Rightarrow> 'w tstate \<Rightarrow> grecord res \<times> 'w tstate" where
  "FindByField t fieldName fieldValue s =
     (let query = ''SELECT '' @ sch_PrimaryKey (tb_schema t) @ '' FROM '' @ tb_tableName t @ '' WHERE '' @ fieldName @ '' = ? LIMIT 1'' in
      case on_env (db_Query (tb_database t) query [fieldValue]) s of
        (Inl err, s1) \<Rightarrow> (Inl (Wrapf ''failed to query database: %w'' [] err), s1)
      | (Inr rows, s1) \<Rightarrow>
          (case rows_data rows of
             [] \<Rightarrow> (Inl (Errorf ''record not found with %s = %v'' [fieldName, show_v fieldValue]), s1)
           | row # _ \<Rightarrow>
               (case scan_row row 1 of
                  Inl err \<Rightarrow> (Inl (Wrapf ''failed to scan primary key: %w'' [] err), s1)
                | Inr values \<Rightarrow> Read t (hd values) s1)))"

definition ExecuteWriteOperation :: "'w TableImpl \<Rightarrow> write_op \<Rightarrow> 'w tstate \<Rightarrow> gerror option \<times> 'w tstate" where
  "ExecuteWriteOperation t operation s = writeToDatabase t (op_Operation operation) (op_Key operation) (op_Data operation) s"

definition GetWriteBackQueue :: "'w TableImpl \<Rightarrow> 'w wbqueue" where
  "GetWriteBackQueue t = tb_writeQueue t"

text \<open>A cache fill that \<^verbatim>\<open>Read\<close> has started runs.\<close>

definition table_fill :: "'w TableImpl \<Rightarrow> 'w tstate \<Rightarrow> 'w tstate" where
  "table_fill t s = s\<lparr>ts_read := run_fill (tb_kvStore t) (tb_translator t) (tb_tz t) (tb_ttl t) (tb_schema t) (ts_read s)\<rparr>"

section \<open>Lemmas\<close>

lemma on_read_simps [simp]:
  "on_read f s = (x, s') \<Longrightarrow> ts_enabled s' = ts_enabled s"
  by (auto simp: on_read_def Let_def split: prod.splits)

lemma on_env_eq: "on_env f s = (x, s') \<longleftrightarrow> (\<exists>w'. f (env s) = (x, w') \<and> s' = s\<lparr>ts_read := (ts_read s)\<lparr>r_world := w'\<rparr>\<rparr>)"
  by (auto simp: on_env_def on_read_def on_world_def env_def Let_def split: prod.splits)

lemma env_simps [simp]: "env (s\<lparr>ts_read := r\<rparr>) = r_world r" "env (s\<lparr>ts_enabled := b\<rparr>) = env s"
  by (simp_all add: env_def)

lemma share_world [simp]: "r_world (share sh m r) = r_world r"
  by (auto simp: share_def split: sharing.split option.split)

text \<open>A change of the world alone.\<close>

definition with_env :: "'w \<Rightarrow> 'w tstate \<Rightarrow> 'w tstate" where
  "with_env w s = s\<lparr>ts_read := (ts_read s)\<lparr>r_world := w\<rparr>\<rparr>"

lemma with_env_simps [simp]:
  "env (with_env w s) = w" "ts_enabled (with_env w s) = ts_enabled s" "with_env w (with_env w' s) = with_env w s"
  "r_pending (ts_read (with_env w s)) = r_pending (ts_read s)" "r_fills (ts_read (with_env w s)) = r_fills (ts_read s)"
  "r_world (ts_read (with_env w s)) = w"
  by (simp_all add: with_env_def env_def)

lemma with_env_inject [simp]: "with_env w s = with_env w' s \<longleftrightarrow> w = w'"
  by (metis with_env_simps(1))

lemma on_env_iff: "on_env f s = (x, s') \<longleftrightarrow> (\<exists>w'. f (env s) = (x, w') \<and> s' = with_env w' s)"
  by (simp add: on_env_eq with_env_def)

lemma on_env_fst: "fst (on_env f s) = fst (f (env s))"
  by (simp add: on_env_def on_read_def on_world_def env_def Let_def split: prod.splits)

definition wal_key :: "string \<Rightarrow> bool" where
  "wal_key k \<longleftrightarrow> take 4 k = ''wal:''"

lemma wal_keys [simp]:
  "wal_prefix wm = ''wal'' \<Longrightarrow> wal_key (walEntryKey wm tn i)" "wal_prefix wm = ''wal'' \<Longrightarrow> wal_key (timestampKey wm tn ts i)"
  by (simp_all add: wal_key_def walEntryKey_def timestampKey_def)

text \<open>A property of the world that every call of the log and the queue keeps is kept by them.\<close>

lemma append_inv:
  assumes "Append kv now wm op w = (x, w')" and "P w" and "\<And>w ts w'. P w \<Longrightarrow> now w = (ts, w') \<Longrightarrow> P w'"
    and "\<And>w k v ttl e w'. P w \<Longrightarrow> kv_Set kv k v ttl w = (e, w') \<Longrightarrow> P w'"
  shows "P w'"
proof -
  obtain op1 w1 where f: "fill_fields now op w = (op1, w1)" by (cases "fill_fields now op w")
  have "P w1" using f assms(2) by (auto simp: fill_fields_def Let_def split: prod.splits if_splits dest: assms(3))
  then show ?thesis using assms(1) f
    by (auto simp: Append_def Let_def split: prod.splits sum.splits option.splits dest: assms(4))
qed

lemma append_wal_inv:
  assumes "append_wal t opType key dat kvKey val s = (e, s')" and "P (env s)"
    and "\<And>w ts w'. P w \<Longrightarrow> tb_now t w = (ts, w') \<Longrightarrow> P w'"
    and "\<And>w k v ttl e w'. P w \<Longrightarrow> kv_Set (tb_kvStore t) k v ttl w = (e, w') \<Longrightarrow> P w'"
  shows "P (env s')"
proof -
  obtain ts w1 where c: "tb_now t (env s) = (ts, w1)" by (cases "tb_now t (env s)")
  obtain op x w2 where a: "Append (tb_kvStore t) (tb_now t) (tb_walManager t) op w1 = (x, w2)" "s' = with_env w2 s"
    using assms(1) c by (auto simp: append_wal_def on_env_iff split: prod.splits option.splits)
  have "P w1" using assms(2) c by (rule assms(3))
  from append_inv [where P = P, OF a(1) this assms(3,4)] show ?thesis by (simp add: a(2))
qed

lemma log_and_enqueue_inv:
  assumes "log_and_enqueue t opType key dat kvKey val s = (e, s')" and "P (env s)"
    and "\<And>w ts w'. P w \<Longrightarrow> tb_now t w = (ts, w') \<Longrightarrow> P w'"
    and "\<And>w k v ttl e w'. P w \<Longrightarrow> kv_Set (tb_kvStore t) k v ttl w = (e, w') \<Longrightarrow> P w'"
    and "\<And>w x e w'. P w \<Longrightarrow> q_Enqueue (tb_writeQueue t) x w = (e, w') \<Longrightarrow> P w'"
  shows "P (env s')"
proof -
  obtain e1 s1 where a: "append_wal t opType key dat kvKey val s = (e1, s1)" by (cases "append_wal t opType key dat kvKey val s")
  have p1: "P (env s1)" using append_wal_inv [where P = P, OF a assms(2-4)] .
  obtain ts w1 where c: "tb_now t (env s1) = (ts, w1)" by (cases "tb_now t (env s1)")
  have p2: "P w1" using p1 c by (rule assms(3))
  obtain e2 w2 where q: "q_Enqueue (tb_writeQueue t) (Some (table_op t opType key dat ts)) w1 = (e2, w2)"
    by (cases "q_Enqueue (tb_writeQueue t) (Some (table_op t opType key dat ts)) w1")
  have p3: "P w2" using p2 q by (rule assms(5))
  show ?thesis using assms(1) a c q p1 p3
    by (auto simp: log_and_enqueue_def enqueue_op_def on_env_iff split: option.splits prod.splits)
qed

lemma Create_inv:
  assumes "Create t r s = (e, s')" and "ts_enabled s" and "P (env s)"
    and "\<And>w ts w'. P w \<Longrightarrow> tb_now t w = (ts, w') \<Longrightarrow> P w'"
    and "\<And>w k v ttl e w'. P w \<Longrightarrow> kv_Set (tb_kvStore t) k v ttl w = (e, w') \<Longrightarrow> P w'"
    and "\<And>w x e w'. P w \<Longrightarrow> q_Enqueue (tb_writeQueue t) x w = (e, w') \<Longrightarrow> P w'"
    and "\<And>w n w'. P w \<Longrightarrow> q_Size (tb_writeQueue t) w = (n, w') \<Longrightarrow> P w'"
  shows "P (env s')"
proof (cases "ToKV (tb_translator t) (tb_tz t) r (Some (tb_schema t))")
  case (Inl err)
  then show ?thesis using assms(1-3) by (auto simp: Create_def)
next
  case (Inr kv)
  obtain key val where kv: "kv = (key, val)" by (cases kv)
  let ?pk = "field r (sch_PrimaryKey (tb_schema t))"
  obtain e1 w1 where a: "kv_Set (tb_kvStore t) key val (tb_ttl t) (env s) = (e1, w1)" by (metis surj_pair)
  have p1: "P w1" using assms(3) a by (rule assms(5))
  obtain e2 s2 where l: "log_and_enqueue t OperationCreate ?pk r key (Some val) (with_env w1 s) = (e2, s2)" by (metis surj_pair)
  have p2: "P (env s2)" using log_and_enqueue_inv [where P = P, OF l _ assms(4-6)] p1 by simp
  obtain n w3 where z: "q_Size (tb_writeQueue t) (env s2) = (n, w3)" by (metis surj_pair)
  have p3: "P w3" using p2 z by (rule assms(7))
  have sa: "on_env (kv_Set (tb_kvStore t) key val (tb_ttl t)) s = (e1, with_env w1 s)" using a by (simp only: on_env_iff) blast
  have sz: "on_env (q_Size (tb_writeQueue t)) s2 = (n, with_env w3 s2)" using z by (simp only: on_env_iff) blast
  show ?thesis using assms(1,2) Inr kv sa l sz p1 p2 p3 by (auto simp: Create_def split: option.splits)
qed

text \<open>What an operation has to be for the queues to keep it.\<close>

definition queueable :: "'w TableImpl \<Rightarrow> goval \<Rightarrow> grecord option \<Rightarrow> bool" where
  "queueable t key dat \<longleftrightarrow> utf8_valid (tb_tableName t) \<and> tb_tableName t \<noteq> [] \<and> tb_tableName t \<noteq> ''global'' \<and>
     json_plain key \<and> (case dat of None \<Rightarrow> True | Some m \<Rightarrow> json_plain (VMap m))"

lemma utf8_op_names [simp]: "utf8_valid OperationCreate" "utf8_valid OperationUpdate" "utf8_valid OperationDelete"
  by code_simp+

lemma queueable_accepts:
  assumes "queueable t key dat" and "opType \<in> {OperationCreate, OperationUpdate, OperationDelete}" and "time_ok ts" and "\<not> IsZero ts"
  shows "rq_accepts (table_op t opType key dat ts)"
  using assms by (auto simp: queueable_def rq_accepts_def table_op_def op_plain_def split: option.splits)

text \<open>A table as \<^verbatim>\<open>NewTableImpl\<close> builds it from these collaborators.\<close>

definition built_on :: "'w kvstore \<Rightarrow> 'w wbqueue \<Rightarrow> 'w database \<Rightarrow> ('w \<Rightarrow> gotime \<times> 'w) \<Rightarrow> 'w TableImpl \<Rightarrow> bool" where
  "built_on kv q db now t \<longleftrightarrow> tb_kvStore t = kv \<and> tb_writeQueue t = q \<and> tb_database t = db \<and> tb_now t = now \<and>
     tb_translator t = NewTranslator \<and> wal_prefix (tb_walManager t) = ''wal''"

lemma NewTableImpl_built: "built_on kv q db now (fst (NewTableImpl tn sch kv db q ttl ns now tz w))"
  by (simp add: built_on_def NewTableImpl_def NewWALManager_def)

section \<open>The environment of a table\<close>

text \<open>
  What a table relies on: the contracts of the store and of the queue, and that the two do not get in
  each other's way, although both may live on the same server. Keys the queue keeps its own data
  under are reserved. The database and the clock touch neither.
\<close>

locale table_env = kv_contract kv content ok + queue_contract q pending ok image accepts
  for kv :: "'w kvstore" and content :: "'w \<Rightarrow> string \<Rightarrow> string option" and ok :: "'w \<Rightarrow> bool"
    and q :: "'w wbqueue" and pending :: "'w \<Rightarrow> write_op list" and image :: "write_op \<Rightarrow> write_op"
    and accepts :: "write_op \<Rightarrow> bool" +
  fixes db :: "'w database" and now :: "'w \<Rightarrow> gotime \<times> 'w" and reserved :: "string \<Rightarrow> bool"
  assumes clock: "ok w \<Longrightarrow> now w = (ts, w') \<Longrightarrow>
      ok w' \<and> content w' = content w \<and> pending w' = pending w \<and> time_ok ts \<and> \<not> IsZero ts"
    and get_pending: "ok w \<Longrightarrow> kv_Get kv k w = (r, w') \<Longrightarrow> pending w' = pending w"
    and set_pending: "ok w \<Longrightarrow> \<not> reserved k \<Longrightarrow> kv_Set kv k v ttl w = (e, w') \<Longrightarrow> pending w' = pending w"
    and delete_pending: "ok w \<Longrightarrow> \<not> reserved k \<Longrightarrow> kv_Delete kv k w = (e, w') \<Longrightarrow> pending w' = pending w"
    and enqueue_content: "ok w \<Longrightarrow> q_Enqueue q x w = (e, w') \<Longrightarrow> content w' = content w"
    and size: "ok w \<Longrightarrow> q_Size q w = (n, w') \<Longrightarrow> ok w' \<and> content w' = content w \<and> pending w' = pending w"
    and query: "ok w \<Longrightarrow> db_Query db sql args w = (rr, w') \<Longrightarrow> ok w' \<and> content w' = content w \<and> pending w' = pending w"
    and exec: "ok w \<Longrightarrow> db_Exec db sql args w = (er, w') \<Longrightarrow> ok w' \<and> content w' = content w \<and> pending w' = pending w"
    and accepts_op: "rq_accepts op \<Longrightarrow> accepts op"
    and wal_unreserved: "wal_key k \<Longrightarrow> \<not> reserved k"
begin

definition quiet :: "'w \<Rightarrow> 'w \<Rightarrow> bool" where
  "quiet w w' \<longleftrightarrow> ok w' \<and> content w' = content w \<and> pending w' = pending w"

abbreviation built :: "'w TableImpl \<Rightarrow> bool" where
  "built \<equiv> built_on kv q db now"

lemma clock_quiet: "ok w \<Longrightarrow> now w = (ts, w') \<Longrightarrow> quiet w w'"
  using clock by (auto simp: quiet_def)

lemma fill_quiet: "ok w \<Longrightarrow> fill_fields now op w = (op', w') \<Longrightarrow> quiet w w'"
  by (auto simp: fill_fields_def Let_def quiet_def split: prod.splits if_splits dest: clock) (metis clock)+

text \<open>The effect of a write to a key that is not reserved.\<close>

lemma set_effect:
  "ok w \<Longrightarrow> \<not> reserved k \<Longrightarrow> kv_Set kv k v ttl w = (e, w') \<Longrightarrow>
     ok w' \<and> pending w' = pending w \<and> (\<forall>k'. k' \<noteq> k \<longrightarrow> content w' k' = content w k') \<and> (e = None \<longrightarrow> content w' k = Some v)"
  using set set_pending by fastforce

lemma append_effect:
  assumes "ok w" and "wal_prefix wm = ''wal''" and "Append kv now wm op w = ((e, op'), w')"
  shows "ok w' \<and> pending w' = pending w \<and> (\<forall>k. \<not> wal_key k \<longrightarrow> content w' k = content w k)"
proof -
  obtain op1 w1 where f: "fill_fields now op w = (op1, w1)" by (cases "fill_fields now op w")
  have q1: "ok w1" "content w1 = content w" "pending w1 = pending w" using fill_quiet [OF assms(1) f] by (auto simp: quiet_def)
  let ?ek = "walEntryKey wm (wal_Table op1) (wal_OperationID op1)"
  let ?tk = "timestampKey wm (wal_Table op1) (wal_Timestamp op1) (wal_OperationID op1)"
  have k: "wal_key ?ek" "wal_key ?tk" using assms(2) by simp_all
  show ?thesis
  proof (cases "marshal_wal_op op1")
    case (Inl err)
    then show ?thesis using assms(3) f q1 by (auto simp: Append_def)
  next
    case (Inr d)
    obtain e1 w2 where s1: "kv_Set kv ?ek d (24 * hour) w1 = (e1, w2)" by (cases "kv_Set kv ?ek d (24 * hour) w1")
    note p1 = set_effect [OF q1(1) wal_unreserved [OF k(1)] s1]
    obtain e2 w3 where s2: "kv_Set kv ?tk (wal_OperationID op1) (24 * hour) w2 = (e2, w3)"
      by (cases "kv_Set kv ?tk (wal_OperationID op1) (24 * hour) w2")
    note p2 = set_effect [OF _ wal_unreserved [OF k(2)] s2]
    have "w' = (if e1 = None then w3 else w2)"
      using assms(3) f Inr s1 s2 by (auto simp: Append_def split: option.splits)
    then show ?thesis using p1 p2 q1 k by (cases "e1 = None") (auto, metis+)
  qed
qed

lemma append_wal_effect:
  assumes "ok (env s)" and "built t" and "append_wal t opType key dat kvKey val s = (e, s')"
  shows "\<exists>w'. s' = with_env w' s \<and> ok w' \<and> pending w' = pending (env s) \<and>
    (\<forall>k. \<not> wal_key k \<longrightarrow> content w' k = content (env s) k)"
proof -
  obtain ts w1 where c: "now (env s) = (ts, w1)" by (cases "now (env s)")
  have q1: "ok w1" "content w1 = content (env s)" "pending w1 = pending (env s)" using clock_quiet [OF assms(1) c] by (auto simp: quiet_def)
  obtain op e1 op' w2 where a: "Append kv now (tb_walManager t) op w1 = ((e1, op'), w2)" "s' = with_env w2 s"
    using assms(2,3) c by (auto simp: append_wal_def built_on_def on_env_iff split: prod.splits option.splits)
  show ?thesis using append_effect [OF q1(1) _ a(1)] a(2) q1 assms(2) by (auto simp: built_on_def)
qed

lemma enqueue_op_effect:
  assumes "ok (env s)" and "built t" and "enqueue_op t opType key dat s = (e, s')"
    and "queueable t key dat" and "opType \<in> {OperationCreate, OperationUpdate, OperationDelete}"
  shows "\<exists>w' ts. s' = with_env w' s \<and> ok w' \<and> content w' = content (env s) \<and> time_ok ts \<and>
    (pending w' = pending (env s) @ [image (table_op t opType key dat ts)] \<or> e \<noteq> None \<and> pending w' = pending (env s))"
proof -
  obtain ts w1 where c: "now (env s) = (ts, w1)" by (cases "now (env s)")
  have q1: "ok w1" "content w1 = content (env s)" "pending w1 = pending (env s)" "time_ok ts" "\<not> IsZero ts"
    using clock [OF assms(1) c] by auto
  have acc: "accepts (table_op t opType key dat ts)"
    by (rule accepts_op [OF queueable_accepts [OF assms(4,5) q1(4,5)]])
  obtain e1 w2 where a: "q_Enqueue q (Some (table_op t opType key dat ts)) w1 = (e1, w2)" "s' = with_env w2 s" "e1 = None \<longleftrightarrow> e = None"
    using assms(2,3) c by (auto simp: enqueue_op_def built_on_def on_env_iff split: prod.splits option.splits)
  show ?thesis using enqueue [OF q1(1) acc a(1)] enqueue_content [OF q1(1) a(1)] a q1 by auto
qed

text \<open>What the log and the queue are left with, whether or not the call succeeds.\<close>

lemma log_and_enqueue_effect:
  assumes "ok (env s)" and "built t" and "log_and_enqueue t opType key dat kvKey val s = (e, s')"
    and "queueable t key dat" and "opType \<in> {OperationCreate, OperationUpdate, OperationDelete}"
  shows "\<exists>w' ts. s' = with_env w' s \<and> ok w' \<and> (\<forall>k. \<not> wal_key k \<longrightarrow> content w' k = content (env s) k) \<and> time_ok ts \<and>
    (pending w' = pending (env s) @ [image (table_op t opType key dat ts)] \<or> e \<noteq> None \<and> pending w' = pending (env s))"
proof -
  obtain e1 s1 where a: "append_wal t opType key dat kvKey val s = (e1, s1)" by (cases "append_wal t opType key dat kvKey val s")
  obtain w1 where w1: "s1 = with_env w1 s" "ok w1" "pending w1 = pending (env s)"
    "\<forall>k. \<not> wal_key k \<longrightarrow> content w1 k = content (env s) k" using append_wal_effect [OF assms(1,2) a] by blast
  show ?thesis
  proof (cases e1)
    case None
    then have "enqueue_op t opType key dat s1 = (e, s')" using assms(3) a by (simp add: log_and_enqueue_def)
    from enqueue_op_effect [OF _ assms(2) this assms(4,5)] obtain w' ts where "s' = with_env w' s1" "ok w'"
      "content w' = content (env s1)" "time_ok ts"
      "pending w' = pending (env s1) @ [image (table_op t opType key dat ts)] \<or> e \<noteq> None \<and> pending w' = pending (env s1)"
      using w1 by auto
    then show ?thesis using w1 by (intro exI [of _ w'] exI [of _ ts]) auto
  next
    case (Some err)
    have "\<exists>ts. time_ok ts" using clock [OF assms(1)] by (metis surj_pair)
    then show ?thesis using Some assms(3) a w1 by (auto simp: log_and_enqueue_def)
  qed
qed

end

section \<open>What the operations do to the store and the queue\<close>

lemma on_world_iff: "on_world f s = (x, s') \<longleftrightarrow> (\<exists>w'. f (r_world s) = (x, w') \<and> s' = s\<lparr>r_world := w'\<rparr>)"
  by (auto simp: on_world_def Let_def split: prod.splits)

lemma Set_world [simp]: "r_world (SetResult key rec s) = r_world s" "r_world (SetError key err s) = r_world s"
  by (auto simp: SetResult_def SetError_def split: option.split)

text \<open>What a read of the cache does to the world: it looks at the clock and gets keys.\<close>

definition read_step :: "'w kvstore \<Rightarrow> ('w \<Rightarrow> gotime \<times> 'w) \<Rightarrow> 'w \<Rightarrow> 'w \<Rightarrow> bool" where
  "read_step kv now w w' \<longleftrightarrow> (\<exists>ts. now w = (ts, w')) \<or> (\<exists>k r. kv_Get kv k w = (r, w'))"

definition reads :: "'w kvstore \<Rightarrow> ('w \<Rightarrow> gotime \<times> 'w) \<Rightarrow> 'w \<Rightarrow> 'w \<Rightarrow> bool" where
  "reads kv now = (read_step kv now)\<^sup>*\<^sup>*"

lemma reads_refl [simp]: "reads kv now w w"
  by (simp add: reads_def)

lemma reads_trans: "reads kv now w w1 \<Longrightarrow> reads kv now w1 w2 \<Longrightarrow> reads kv now w w2"
  by (simp add: reads_def)

lemma reads_clock: "now w = (ts, w') \<Longrightarrow> reads kv now w w'"
  by (auto simp: reads_def read_step_def)

lemma reads_get: "kv_Get kv k w = (r, w') \<Longrightarrow> reads kv now w w'"
  unfolding reads_def by (rule r_into_rtranclp) (auto simp: read_step_def)

lemma reads_inv:
  assumes "reads kv now w w'" and "P w" and "\<And>w ts w'. P w \<Longrightarrow> now w = (ts, w') \<Longrightarrow> P w'"
    and "\<And>w k r w'. P w \<Longrightarrow> kv_Get kv k w = (r, w') \<Longrightarrow> P w'"
  shows "P w'"
  using assms(1,2) unfolding reads_def
  by (induction rule: rtranclp_induct) (auto simp: read_step_def dest: assms(3,4))

lemma clock_ns_reads: "clock_ns now s = (ns, s') \<Longrightarrow> reads kv now (r_world s) (r_world s')"
  by (auto simp: clock_ns_def on_world_iff Let_def reads_clock split: prod.splits)

lemma IsInFlight_reads: "IsInFlight now key s = (b, s') \<Longrightarrow> reads kv now (r_world s) (r_world s')"
  by (auto simp: IsInFlight_def Let_def split: option.splits prod.splits dest: clock_ns_reads)

lemma MarkInFlight_reads: "reads kv now (r_world s) (r_world (MarkInFlight now key s))"
  by (auto simp: MarkInFlight_def Let_def split: option.splits prod.splits dest: clock_ns_reads)

lemma MarkComplete_reads: "reads kv now (r_world s) (r_world (MarkComplete now key s))"
proof (cases "map_of (r_pending s) key")
  case (Some p)
  let ?s1 = "s\<lparr>r_pending := gomap_set (r_pending s) key (p\<lparr>pr_waiters := pr_waiters p - 1\<rparr>)\<rparr>"
  obtain ns s2 where c: "clock_ns now ?s1 = (ns, s2)" by (cases "clock_ns now ?s1")
  have "reads kv now (r_world s) (r_world s2)" using clock_ns_reads [OF c] by simp
  then show ?thesis using Some c by (simp add: MarkComplete_def Let_def)
qed (simp add: MarkComplete_def)

lemma Cache_Read_reads:
  assumes "Cache_Read kv now tr tz ns tn key sch s = (r, s')"
  shows "reads kv now (r_world s) (r_world s')"
proof -
  let ?k = "BuildKey ns tn key" and ?R = "reads kv now"
  obtain b s1 where b: "IsInFlight now ?k s = (b, s1)" by (cases "IsInFlight now ?k s")
  obtain v s3 where g: "on_world (kv_Get kv ?k) (MarkInFlight now ?k s1) = (v, s3)"
    by (cases "on_world (kv_Get kv ?k) (MarkInFlight now ?k s1)")
  have "?R (r_world s) (r_world s1)" by (rule IsInFlight_reads [OF b])
  moreover have "?R (r_world s1) (r_world (MarkInFlight now ?k s1))" by (rule MarkInFlight_reads)
  moreover have "?R (r_world (MarkInFlight now ?k s1)) (r_world s3)" using g by (auto simp: on_world_iff reads_get)
  ultimately have r3: "?R (r_world s) (r_world s1)" "?R (r_world s) (r_world s3)" by (blast intro: reads_trans)+
  show ?thesis
  proof (cases b)
    case True
    then show ?thesis using assms b r3 by (simp add: Cache_Read_def Let_def)
  next
    case False
    then obtain s4 where "s' = MarkComplete now ?k s4" "r_world s4 = r_world s3"
      using assms b g by (auto simp: Cache_Read_def Let_def split: sum.splits)
    then show ?thesis using reads_trans [OF r3(2)] MarkComplete_reads [of kv now s4] by simp
  qed
qed

context table_env
begin

lemma quiet_refl: "ok w \<Longrightarrow> quiet w w"
  by (simp add: quiet_def)

lemma quiet_trans: "quiet w w1 \<Longrightarrow> quiet w1 w2 \<Longrightarrow> quiet w w2"
  by (simp add: quiet_def)

lemma get_quiet: "ok w \<Longrightarrow> kv_Get kv k w = (r, w') \<Longrightarrow> quiet w w'"
  using get get_pending by (auto simp: quiet_def)

lemma reads_quiet: "reads kv now w w' \<Longrightarrow> ok w \<Longrightarrow> quiet w w'"
  unfolding reads_def
proof (induction rule: rtranclp_induct)
  case (step w1 w2)
  then have "ok w1" by (simp add: quiet_def)
  then have "quiet w1 w2" using step(2) clock_quiet get_quiet by (auto simp: read_step_def)
  then show ?case using step quiet_trans by blast
qed (rule quiet_refl)

lemma MarkInFlight_quiet: "ok (r_world s) \<Longrightarrow> quiet (r_world s) (r_world (MarkInFlight now key s))"
  by (rule reads_quiet [OF MarkInFlight_reads])

lemma Cache_Read_quiet:
  "ok (r_world s) \<Longrightarrow> Cache_Read kv now tr tz ns tn key sch s = (r, s') \<Longrightarrow> quiet (r_world s) (r_world s')"
  by (rule reads_quiet [OF Cache_Read_reads])

lemma ReadFromDB_quiet:
  "ok (r_world s) \<Longrightarrow> ReadFromDB db tn key sch s = (r, s') \<Longrightarrow> quiet (r_world s) (r_world s')"
  by (auto simp: ReadFromDB_def quiet_def on_world_iff split: prod.splits sum.splits list.splits option.splits dest: query)

lemma readFromDatabase_quiet:
  "ok (env s) \<Longrightarrow> built t \<Longrightarrow> readFromDatabase t key s = (r, s') \<Longrightarrow> quiet (env s) (env s') \<and> ts_enabled s' = ts_enabled s"
  by (auto simp: readFromDatabase_def built_on_def quiet_def on_env_iff Let_def split: prod.splits sum.splits list.splits dest: query)

text \<open>Reading changes neither the store nor the queue.\<close>

lemma Read_shared_quiet:
  assumes "ok (env s)" and "built t" and "Read_shared t key s = (r, s')"
  shows "quiet (env s) (env s') \<and> ts_enabled s' = ts_enabled s"
proof (cases "ts_enabled s")
  case False
  then show ?thesis using assms(3) readFromDatabase_quiet [OF assms(1,2)] by (auto simp: Read_shared_def split: prod.splits)
next
  case True
  let ?c = "Cache_Read kv now NewTranslator (tb_tz t) (tb_namespace t) (tb_tableName t) key (Some (tb_schema t))"
  obtain x r1 where c: "?c (ts_read s) = (x, r1)" by (cases "?c (ts_read s)")
  have q1: "quiet (env s) (r_world r1)" using Cache_Read_quiet [OF _ c] assms(1) by (simp add: env_def)
  obtain y r2 where d: "ReadFromDB db (tb_tableName t) key (tb_schema t) r1 = (y, r2)" by (cases "ReadFromDB db (tb_tableName t) key (tb_schema t) r1")
  have q2: "quiet (env s) (r_world r2)" using quiet_trans [OF q1 ReadFromDB_quiet [OF _ d]] q1 by (simp add: quiet_def)
  show ?thesis using assms(2,3) True c d q1 q2
    by (auto simp: Read_shared_def on_read_def built_on_def Let_def split: sum.splits)
qed

text \<open>
  \<^verbatim>\<open>Create\<close>: whatever the outcome, only the key of the record and the keys of the log may change, and the
  queue gets at most the one operation; a call that succeeds has cached the record and queued it.
\<close>

lemma Create_effect:
  assumes "ok (env s)" and "built t" and "ts_enabled s"
    and "ToKV NewTranslator (tb_tz t) (Some r) (Some (tb_schema t)) = Inr (key, val)" and "\<not> reserved key" and "\<not> wal_key key"
    and "queueable t (field (Some r) (sch_PrimaryKey (tb_schema t))) (Some r)"
    and "Create t (Some r) s = (e, s')"
  shows "\<exists>w' op. s' = with_env w' s \<and> ok w' \<and> (\<forall>k. k \<noteq> key \<longrightarrow> \<not> wal_key k \<longrightarrow> content w' k = content (env s) k) \<and>
    op_Operation op = OperationCreate \<and> op_Key op = field (Some r) (sch_PrimaryKey (tb_schema t)) \<and> op_Data op = Some r \<and>
    op_Table op = tb_tableName t \<and>
    (pending w' = pending (env s) @ [image op] \<or> e \<noteq> None \<and> pending w' = pending (env s)) \<and>
    (e = None \<longrightarrow> content w' key = Some val)"
proof -
  let ?pk = "field (Some r) (sch_PrimaryKey (tb_schema t))"
  obtain e1 w1 where a: "kv_Set kv key val (tb_ttl t) (env s) = (e1, w1)" by (cases "kv_Set kv key val (tb_ttl t) (env s)")
  note p1 = set_effect [OF assms(1,5) a]
  show ?thesis
  proof (cases e1)
    case (Some err)
    then show ?thesis using assms(2-4,8) a p1
      by (intro exI [of _ w1] exI [of _ "table_op t OperationCreate ?pk (Some r) zero_time"])
        (auto simp: Create_def built_on_def on_env_def on_read_def on_world_def env_def with_env_def Let_def table_op_def)
  next
    case None
    obtain e2 s2 where l: "log_and_enqueue t OperationCreate ?pk (Some r) key (Some val) (with_env w1 s) = (e2, s2)"
      by (cases "log_and_enqueue t OperationCreate ?pk (Some r) key (Some val) (with_env w1 s)")
    have "ok (env (with_env w1 s))" using p1 by simp
    from log_and_enqueue_effect [OF this assms(2) l assms(7)] obtain w2 ts where w2: "s2 = with_env w2 s" "ok w2"
      "\<forall>k. \<not> wal_key k \<longrightarrow> content w2 k = content w1 k"
      "pending w2 = pending w1 @ [image (table_op t OperationCreate ?pk (Some r) ts)] \<or> e2 \<noteq> None \<and> pending w2 = pending w1"
      by auto
    obtain n w3 where z: "q_Size q w2 = (n, w3)" by (cases "q_Size q w2")
    note p3 = size [OF w2(2) z]
    have "e = e2 \<and> s' = (if e2 = None then with_env w3 s else with_env w2 s)"
      using assms(2-4,8) a None l w2(1) z
      by (auto simp: Create_def built_on_def on_env_def on_read_def on_world_def env_def with_env_def Let_def split: option.splits)
    moreover define w' where "w' = (if e2 = None then w3 else w2)"
    ultimately have f: "e = e2" "s' = with_env w' s" by auto
    have w': "ok w'" "content w' = content w2" "pending w' = pending w2" using p3 w2(2) by (auto simp: w'_def)
    have c: "content w' k = content (env s) k" if "k \<noteq> key" "\<not> wal_key k" for k
      using that w'(2) w2(3) p1 by simp
    have v: "content w' key = Some val" using w'(2) w2(3) assms(6) p1 None by simp
    show ?thesis using f w' c v w2(4) p1
      by (intro exI [of _ w'] exI [of _ "table_op t OperationCreate ?pk (Some r) ts"]) (simp add: table_op_def)
  qed
qed

lemma Delete_effect:
  assumes "ok (env s)" and "built t" and "ts_enabled s" and "queueable t key None"
    and "\<not> reserved (BuildKey (tb_namespace t) (tb_tableName t) key)"
    and "Delete t key s = (e, s')"
  shows "\<exists>w' op. s' = with_env w' s \<and> ok w' \<and>
    (\<forall>k. k \<noteq> BuildKey (tb_namespace t) (tb_tableName t) key \<longrightarrow> \<not> wal_key k \<longrightarrow> content w' k = content (env s) k) \<and>
    op_Operation op = OperationDelete \<and> op_Key op = key \<and> op_Data op = None \<and> op_Table op = tb_tableName t \<and>
    (pending w' = pending (env s) @ [image op] \<or> e \<noteq> None \<and> pending w' = pending (env s)) \<and>
    (e = None \<longrightarrow> wal_key (BuildKey (tb_namespace t) (tb_tableName t) key) \<or> content w' (BuildKey (tb_namespace t) (tb_tableName t) key) = None)"
proof -
  let ?k = "BuildKey (tb_namespace t) (tb_tableName t) key"
  obtain e1 w1 where a: "kv_Delete kv ?k (env s) = (e1, w1)" by (cases "kv_Delete kv ?k (env s)")
  have p1: "ok w1" "pending w1 = pending (env s)" "\<forall>k. k \<noteq> ?k \<longrightarrow> content w1 k = content (env s) k" "e1 = None \<longrightarrow> content w1 ?k = None"
    using delete [OF assms(1) a] delete_pending [OF assms(1,5) a] by auto
  show ?thesis
  proof (cases e1)
    case (Some err)
    then show ?thesis using assms(2,3,6) a p1
      by (intro exI [of _ w1] exI [of _ "table_op t OperationDelete key None zero_time"])
        (auto simp: Delete_def built_on_def on_env_def on_read_def on_world_def env_def with_env_def Let_def table_op_def)
  next
    case None
    then have l: "log_and_enqueue t OperationDelete key None ?k None (with_env w1 s) = (e, s')"
      using assms(2,3,6) a by (simp add: Delete_def built_on_def on_env_def on_read_def on_world_def env_def with_env_def Let_def)
    have "ok (env (with_env w1 s))" using p1 by simp
    from log_and_enqueue_effect [OF this assms(2) l assms(4)] obtain w2 ts where w2: "s' = with_env w2 s" "ok w2"
      "\<forall>k. \<not> wal_key k \<longrightarrow> content w2 k = content w1 k"
      "pending w2 = pending w1 @ [image (table_op t OperationDelete key None ts)] \<or> e \<noteq> None \<and> pending w2 = pending w1"
      by auto
    then show ?thesis using p1 None
      by (intro exI [of _ w2] exI [of _ "table_op t OperationDelete key None ts"]) (auto simp: table_op_def)
  qed
qed

end

context table_env
begin

text \<open>\<^verbatim>\<open>Update\<close> stores the whole merged record but queues the changes only.\<close>

lemma Update_effect:
  assumes "ok (env s)" and "built t" and "ts_enabled s" and "queueable t key u"
    and "Read_shared t key s = ((Inr rec, sh), s1)"
    and "ToKV NewTranslator (tb_tz t) (Some (merge rec u)) (Some (tb_schema t)) = Inr (kvKey, val)"
    and "\<not> reserved kvKey" and "\<not> wal_key kvKey" and "Update t key u s = (e, s')"
  shows "\<exists>op. ok (env s') \<and> (\<forall>k. k \<noteq> kvKey \<longrightarrow> \<not> wal_key k \<longrightarrow> content (env s') k = content (env s) k) \<and>
    op_Operation op = OperationUpdate \<and> op_Key op = key \<and> op_Data op = u \<and> op_Table op = tb_tableName t \<and>
    (pending (env s') = pending (env s) @ [image op] \<or> e \<noteq> None \<and> pending (env s') = pending (env s)) \<and>
    (e = None \<longrightarrow> content (env s') kvKey = Some val)"
proof -
  let ?s2 = "s1\<lparr>ts_read := share sh (merge rec u) (ts_read s1)\<rparr>"
  have q0: "ok (env ?s2)" "content (env ?s2) = content (env s)" "pending (env ?s2) = pending (env s)"
    using Read_shared_quiet [OF assms(1,2,5)] by (simp_all add: quiet_def env_def)
  obtain e1 w1 where a: "kv_Set kv kvKey val (tb_ttl t) (env ?s2) = (e1, w1)" by (cases "kv_Set kv kvKey val (tb_ttl t) (env ?s2)")
  note p1 = set_effect [OF q0(1) assms(7) a]
  have on: "on_env (kv_Set kv kvKey val (tb_ttl t)) ?s2 = (e1, with_env w1 ?s2)" using a by (simp only: on_env_iff) blast
  show ?thesis
  proof (cases e1)
    case (Some err)
    then have "env s' = w1 \<and> e \<noteq> None" using assms(2,3,5,6,9) on by (auto simp: Update_def built_on_def Let_def)
    then show ?thesis using p1 q0
      by (intro exI [of _ "table_op t OperationUpdate key u zero_time"]) (auto simp: table_op_def)
  next
    case None
    then have l: "log_and_enqueue t OperationUpdate key u kvKey (Some val) (with_env w1 ?s2) = (e, s')"
      using assms(2,3,5,6,9) on by (auto simp: Update_def built_on_def Let_def)
    have "ok (env (with_env w1 ?s2))" using p1 by simp
    from log_and_enqueue_effect [OF this assms(2) l assms(4)] obtain w2 ts where w2: "s' = with_env w2 ?s2" "ok w2"
      "\<forall>k. \<not> wal_key k \<longrightarrow> content w2 k = content w1 k"
      "pending w2 = pending w1 @ [image (table_op t OperationUpdate key u ts)] \<or> e \<noteq> None \<and> pending w2 = pending w1"
      by auto
    then show ?thesis using p1 q0 None assms(8)
      by (intro exI [of _ "table_op t OperationUpdate key u ts"]) (auto simp: table_op_def)
  qed
qed

end

section \<open>An environment in which calls succeed\<close>

text \<open>
  The store answers for every key it holds and takes every write, and the queue takes what it accepts
  as long as it is ready. With these the operations of a table return.
\<close>

locale live_table_env = table_env +
  fixes ready :: "'a \<Rightarrow> bool"
  assumes get_live: "ok w \<Longrightarrow> content w k = Some v \<Longrightarrow> \<exists>w'. kv_Get kv k w = (Inr v, w')"
    and set_live: "ok w \<Longrightarrow> \<exists>w'. kv_Set kv k v ttl w = (None, w')"
    and delete_live: "ok w \<Longrightarrow> \<exists>w'. kv_Delete kv k w = (None, w')"
    and enqueue_live: "ok w \<Longrightarrow> ready w \<Longrightarrow> rq_accepts x \<Longrightarrow> \<exists>w'. q_Enqueue q (Some x) w = (None, w')"
    and ready_clock: "ready w \<Longrightarrow> now w = (ts, w') \<Longrightarrow> ready w'"
    and ready_set: "ok w \<Longrightarrow> ready w \<Longrightarrow> \<not> reserved k \<Longrightarrow> kv_Set kv k v ttl w = (e, w') \<Longrightarrow> ready w'"
    and ready_delete: "ok w \<Longrightarrow> ready w \<Longrightarrow> kv_Delete kv k w = (e, w') \<Longrightarrow> ready w'"
begin

lemma ready_fill: "ready w \<Longrightarrow> fill_fields now op w = (op', w') \<Longrightarrow> ready w'"
  by (auto simp: fill_fields_def Let_def split: prod.splits if_splits dest: ready_clock)

lemma append_ready:
  assumes "ok w" and "ready w" and "wal_prefix wm = ''wal''" and "Append kv now wm op w = (x, w')"
  shows "ready w'"
proof -
  obtain op1 w1 where f: "fill_fields now op w = (op1, w1)" by (cases "fill_fields now op w")
  have w1: "ok w1" "ready w1" using fill_quiet [OF assms(1) f] ready_fill [OF assms(2) f] by (auto simp: quiet_def)
  have k: "\<not> reserved (walEntryKey wm tn i)" "\<not> reserved (timestampKey wm tn ts i)" for tn ts i
    using wal_unreserved assms(3) by simp_all
  show ?thesis using assms(4) f w1
    by (auto simp: Append_def Let_def split: sum.splits prod.splits option.splits)
      (metis k set_effect ready_set)+
qed

lemma append_live:
  assumes "ok w" and "wal_prefix wm = ''wal''" and "fill_fields now op w = (op1, w1)" and "wal_plain op1"
  shows "\<exists>w'. Append kv now wm op w = ((None, op1), w')"
proof -
  obtain d where d: "marshal_wal_op op1 = Inr d" using unmarshal_marshal_wal_op [OF assms(4)] by blast
  have w1: "ok w1" using fill_quiet [OF assms(1,3)] by (simp add: quiet_def)
  let ?ek = "walEntryKey wm (wal_Table op1) (wal_OperationID op1)"
  let ?tk = "timestampKey wm (wal_Table op1) (wal_Timestamp op1) (wal_OperationID op1)"
  obtain w2 where s1: "kv_Set kv ?ek d (24 * hour) w1 = (None, w2)" using set_live [OF w1] by blast
  have w2: "ok w2" using set_effect [OF w1 _ s1] wal_unreserved assms(2) by simp
  obtain w3 where "kv_Set kv ?tk (wal_OperationID op1) (24 * hour) w2 = (None, w3)" using set_live [OF w2] by blast
  then show ?thesis using assms(3) d s1 by (simp add: Append_def Let_def)
qed

end

lemma utf8_show_int: "utf8_valid (show_int i)"
  using ascii_show_nat by (intro utf8_valid_ascii) (simp add: show_int_def)

text \<open>What the log prints besides the operation itself: the key in the identifier, and the cache key.\<close>

definition loggable :: "goval \<Rightarrow> string \<Rightarrow> bool" where
  "loggable key kvKey \<longleftrightarrow> utf8_valid (show_v key) \<and> utf8_valid kvKey"

context live_table_env
begin

lemma append_wal_live:
  assumes "ok (env s)" and "built t" and "queueable t key dat" and "loggable key kvKey"
    and "opType \<in> {OperationCreate, OperationUpdate, OperationDelete}"
  shows "\<exists>w'. append_wal t opType key dat kvKey val s = (None, with_env w' s) \<and> (ready (env s) \<longrightarrow> ready w')"
proof -
  obtain ts w1 where c: "now (env s) = (ts, w1)" by (cases "now (env s)")
  have w1: "ok w1" "ready (env s) \<longrightarrow> ready w1" "time_ok ts" "\<not> IsZero ts" using clock [OF assms(1) c] ready_clock [OF _ c] by auto
  let ?op = "\<lparr>wal_OperationID = [], wal_Table = tb_tableName t, wal_Operation = opType, wal_Key = key, wal_Data = dat,
                   wal_Timestamp = ts, wal_KeyValue = kvKey, wal_Value = val\<rparr>"
  obtain ts2 w2 where c2: "now w1 = (ts2, w2)" by (cases "now w1")
  let ?op1 = "?op\<lparr>wal_OperationID := generateOperationID (tb_tableName t) key ts2\<rparr>"
  have f: "fill_fields now ?op w1 = (?op1, w2)" using c2 w1(4) by (simp add: fill_fields_def)
  have "utf8_valid (generateOperationID (tb_tableName t) key ts2)"
    using assms(3,4) by (auto simp: generateOperationID_def queueable_def loggable_def utf8_show_int intro!: utf8_valid_append)
  then have "wal_plain ?op1" using assms(3-5) w1(3) by (auto simp: wal_plain_def queueable_def loggable_def split: option.splits)
  then obtain w3 where a: "Append kv now (tb_walManager t) ?op w1 = ((None, ?op1), w3)"
    using append_live [OF w1(1) _ f] assms(2) by (auto simp: built_on_def)
  moreover have "ready (env s) \<longrightarrow> ready w3" using append_ready [OF w1(1) _ _ a] w1(2) assms(2) by (simp add: built_on_def)
  ultimately show ?thesis
    using c assms(2) by (auto simp: append_wal_def built_on_def on_env_def on_read_def on_world_def env_def with_env_def Let_def)
qed

lemma log_and_enqueue_live:
  assumes "ok (env s)" and "ready (env s)" and "built t" and "queueable t key dat" and "loggable key kvKey"
    and "opType \<in> {OperationCreate, OperationUpdate, OperationDelete}"
  shows "\<exists>s'. log_and_enqueue t opType key dat kvKey val s = (None, s')"
proof -
  obtain w3 where al: "append_wal t opType key dat kvKey val s = (None, with_env w3 s)" "ready w3"
    using append_wal_live [OF assms(1,3-6)] assms(2) by blast
  have w3: "ok w3" using append_wal_effect [OF assms(1,3) al(1)] by (metis with_env_simps(1))
  obtain ts3 w4 where c3: "now w3 = (ts3, w4)" by (cases "now w3")
  have w4: "ok w4" "ready w4" "time_ok ts3" "\<not> IsZero ts3" using clock [OF w3 c3] ready_clock [OF al(2) c3] by auto
  obtain w5 where "q_Enqueue q (Some (table_op t opType key dat ts3)) w4 = (None, w5)"
    using enqueue_live [OF w4(1,2) queueable_accepts [OF assms(4,6) w4(3,4)]] by blast
  then have "enqueue_op t opType key dat (with_env w3 s) = (None, with_env w5 s)"
    using c3 assms(3) by (simp add: enqueue_op_def built_on_def on_env_def on_read_def on_world_def env_def with_env_def Let_def)
  then show ?thesis using al(1) by (simp add: log_and_enqueue_def)
qed

lemma Create_live:
  assumes "ok (env s)" and "ready (env s)" and "built t" and "ts_enabled s"
    and "ToKV NewTranslator (tb_tz t) (Some r) (Some (tb_schema t)) = Inr (key, val)" and "\<not> reserved key"
    and "queueable t (field (Some r) (sch_PrimaryKey (tb_schema t))) (Some r)"
    and "loggable (field (Some r) (sch_PrimaryKey (tb_schema t))) key"
  shows "\<exists>s'. Create t (Some r) s = (None, s')"
proof -
  let ?pk = "field (Some r) (sch_PrimaryKey (tb_schema t))"
  obtain w1 where a: "kv_Set kv key val (tb_ttl t) (env s) = (None, w1)" using set_live [OF assms(1)] by blast
  have "ok (env (with_env w1 s))" "ready (env (with_env w1 s))"
    using set_effect [OF assms(1,6) a] ready_set [OF assms(1,2,6) a] by simp_all
  then obtain s2 where l: "log_and_enqueue t OperationCreate ?pk (Some r) key (Some val) (with_env w1 s) = (None, s2)"
    using log_and_enqueue_live [OF _ _ assms(3,7,8)] by blast
  have "on_env (kv_Set kv key val (tb_ttl t)) s = (None, with_env w1 s)" using a by (simp only: on_env_iff) blast
  then show ?thesis using assms(3-5) l by (auto simp: Create_def built_on_def split: prod.splits)
qed

text \<open>A cached record is read from the cache, when no earlier read of the key is remembered.\<close>

lemma Read_hit:
  assumes "ok (env s)" and "built t" and "ts_enabled s"
    and "map_of (r_pending (ts_read s)) (BuildKey (tb_namespace t) (tb_tableName t) key) = None"
    and "content (env s) (BuildKey (tb_namespace t) (tb_tableName t) key) = Some val"
    and "FromKV NewTranslator (tb_tz t) (BuildKey (tb_namespace t) (tb_tableName t) key) (Some val) (Some (tb_schema t)) = Inr rec"
  shows "\<exists>s'. Read t key s = (Inr rec, s')"
proof -
  let ?k = "BuildKey (tb_namespace t) (tb_tableName t) key" and ?s = "ts_read s"
  obtain b s1 where b: "IsInFlight now ?k ?s = (b, s1)" by (cases "IsInFlight now ?k ?s")
  have i: "IsInFlight now ?k ?s = (False, ?s)" using IsInFlight_None [OF assms(4)] by simp
  have q: "quiet (r_world ?s) (r_world (MarkInFlight now ?k ?s))" using MarkInFlight_quiet assms(1) by (simp add: env_def)
  then obtain w' where g: "kv_Get kv ?k (r_world (MarkInFlight now ?k ?s)) = (Inr val, w')"
    using get_live assms(5) by (metis quiet_def env_def)
  have "on_world (kv_Get kv ?k) (MarkInFlight now ?k ?s) = (Inr val, (MarkInFlight now ?k ?s)\<lparr>r_world := w'\<rparr>)"
    using g by (simp add: on_world_def)
  then have "\<exists>r'. Cache_Read kv now NewTranslator (tb_tz t) (tb_namespace t) (tb_tableName t) key (Some (tb_schema t)) ?s = (Inr rec, r')"
    using i assms(6) by (simp add: Cache_Read_def Let_def)
  then show ?thesis using assms(2,3) by (auto simp: Read_def Read_shared_def on_read_def built_on_def Let_def)
qed

end

context table_env
begin

text \<open>A key the store does not hold is a miss, and the database is asked.\<close>

lemma Cache_Read_miss:
  assumes "ok (r_world s)" and "map_of (r_pending s) (BuildKey ns tn key) = None" and "content (r_world s) (BuildKey ns tn key) = None"
    and "Cache_Read kv now tr tz ns tn key sch s = (r, s')"
  shows "is_err r"
proof -
  let ?k = "BuildKey ns tn key"
  have i: "IsInFlight now ?k s = (False, s)" using IsInFlight_None [OF assms(2)] .
  obtain v s3 where g: "on_world (kv_Get kv ?k) (MarkInFlight now ?k s) = (v, s3)"
    by (cases "on_world (kv_Get kv ?k) (MarkInFlight now ?k s)")
  have q: "quiet (r_world s) (r_world (MarkInFlight now ?k s))" using MarkInFlight_quiet [OF assms(1)] .
  then have "content (r_world (MarkInFlight now ?k s)) ?k = None" "ok (r_world (MarkInFlight now ?k s))"
    using assms(3) by (simp_all add: quiet_def)
  then have "is_err v" using g get by (cases v) (fastforce simp: on_world_iff)+
  then show ?thesis using assms(4) i g by (auto simp: Cache_Read_def Let_def is_err_iff)
qed

lemma Cache_Read_fills:
  assumes "Cache_Read kv now tr tz ns tn key sch s = (r, s')"
  shows "r_fills s' = r_fills s"
proof -
  have m: "r_fills (MarkInFlight now k s) = r_fills s" for k s
    by (auto simp: MarkInFlight_def Let_def split: option.splits prod.splits dest: clock_ns_frame)
  have c: "r_fills (MarkComplete now k s) = r_fills s" for k s
    by (auto simp: MarkComplete_def Let_def split: option.splits prod.splits dest!: clock_ns_frame)
  have t: "r_fills (SetResult k rec s) = r_fills s" "r_fills (SetError k er s) = r_fills s" for k rec er s
    by (auto simp: SetResult_def SetError_def split: option.split)
  show ?thesis using assms
    by (auto simp: Cache_Read_def Let_def m c t on_world_iff split: prod.splits if_splits sum.splits dest: IsInFlight_frame)
qed

lemma Read_miss:
  assumes "ok (env s)" and "built t" and "ts_enabled s"
    and "map_of (r_pending (ts_read s)) (BuildKey (tb_namespace t) (tb_tableName t) key) = None"
    and "content (env s) (BuildKey (tb_namespace t) (tb_tableName t) key) = None"
    and "\<And>w. reads kv now (env s) w \<Longrightarrow> \<exists>w'. db_Query db (buildSelectQuery (tb_tableName t) (tb_schema t)) [key] w = (Inr \<lparr>rows_data = Inr vs # rest, rows_Err = None\<rparr>, w')"
    and "length vs = length (sch_Columns (tb_schema t))"
  shows "\<exists>s'. Read t key s = (Inr (gomap_of (zip (map col_Name (sch_Columns (tb_schema t))) vs)), s') \<and> ok (env s') \<and>
    content (env s') = content (env s) \<and>
    r_fills (ts_read s') = r_fills (ts_read s) @ [gomap_of (zip (map col_Name (sch_Columns (tb_schema t))) vs)]"
proof -
  let ?c = "Cache_Read kv now NewTranslator (tb_tz t) (tb_namespace t) (tb_tableName t) key (Some (tb_schema t))"
  let ?rec = "gomap_of (zip (map col_Name (sch_Columns (tb_schema t))) vs)"
  obtain x r1 where c: "?c (ts_read s) = (x, r1)" by (cases "?c (ts_read s)")
  have "is_err x" using Cache_Read_miss [OF _ assms(4) _ c] assms(1,5) by (simp add: env_def)
  then obtain e where x: "x = Inl e" by (auto simp: is_err_iff)
  have q1: "ok (r_world r1)" "content (r_world r1) = content (env s)"
    using Cache_Read_quiet [OF _ c] assms(1) by (auto simp: env_def quiet_def)
  obtain w' where w': "db_Query db (buildSelectQuery (tb_tableName t) (tb_schema t)) [key] (r_world r1) =
      (Inr \<lparr>rows_data = Inr vs # rest, rows_Err = None\<rparr>, w')"
    using assms(6) Cache_Read_reads [OF c] by (auto simp: env_def)
  let ?r2 = "r1\<lparr>r_world := w', r_fills := r_fills r1 @ [?rec]\<rparr>"
  have d: "ReadFromDB db (tb_tableName t) key (tb_schema t) r1 = (Inr ?rec, ?r2)"
    using w' assms(7) by (simp add: ReadFromDB_def on_world_def scanRow_def scan_row_def)
  have "Read t key s = (Inr ?rec, s\<lparr>ts_read := ?r2\<rparr>)"
    using assms(2,3) c x d by (simp add: Read_def Read_shared_def on_read_def built_on_def Let_def)
  then show ?thesis using query [OF q1(1) w'] q1 Cache_Read_fills [OF c] by simp
qed

end

end
