(* ===== verification/Table_World.thy ===== *)
theory Table_World
  imports Table_Impl
begin

text \<open>
  A world for tables: the Redis store and the Redis queue on one server, the database as the list of
  the statements it has executed and a fixed answer to every query, and the server's clock. The
  contract of a table's environment is discharged on it for the program's store and queue.
\<close>

section \<open>Calls on a part of the world\<close>

definition via :: "('v \<Rightarrow> 'w) \<Rightarrow> ('w \<Rightarrow> 'v \<Rightarrow> 'v) \<Rightarrow> ('w \<Rightarrow> 'a \<times> 'w) \<Rightarrow> 'v \<Rightarrow> 'a \<times> 'v" where
  "via part put f v = (let (x, w) = f (part v) in (x, put w v))"

definition kv_via :: "('v \<Rightarrow> 'w) \<Rightarrow> ('w \<Rightarrow> 'v \<Rightarrow> 'v) \<Rightarrow> 'w kvstore \<Rightarrow> 'v kvstore" where
  "kv_via part put kv = \<lparr>kv_Get = (\<lambda>k. via part put (kv_Get kv k)), kv_Set = (\<lambda>k v ttl. via part put (kv_Set kv k v ttl)),
     kv_Delete = (\<lambda>k. via part put (kv_Delete kv k)), kv_Exists = (\<lambda>k. via part put (kv_Exists kv k)),
     kv_BatchSet = (\<lambda>items ttl. via part put (kv_BatchSet kv items ttl)), kv_Close = via part put (kv_Close kv)\<rparr>"

definition q_via :: "('v \<Rightarrow> 'w) \<Rightarrow> ('w \<Rightarrow> 'v \<Rightarrow> 'v) \<Rightarrow> 'w wbqueue \<Rightarrow> 'v wbqueue" where
  "q_via part put q = \<lparr>q_Enqueue = (\<lambda>x. via part put (q_Enqueue q x)), q_Dequeue = (\<lambda>n. via part put (q_Dequeue q n)),
     q_Size = via part put (q_Size q), q_Close = via part put (q_Close q)\<rparr>"

lemma via_iff: "via part put f v = (x, v') \<longleftrightarrow> (\<exists>w. f (part v) = (x, w) \<and> v' = put w v)"
  by (auto simp: via_def Let_def split: prod.splits)

section \<open>The world\<close>

record world =
  w_queue :: "redis_ref redis_state rq_state"
  w_log :: "(string \<times> goval list) list"
  w_rows :: "(string \<times> goval list) \<Rightarrow> rows"
  w_down :: bool

abbreviation "w_redis w \<equiv> rq_world (w_queue w)"

definition put_redis :: "redis_ref redis_state \<Rightarrow> world \<Rightarrow> world" where
  "put_redis r w = w\<lparr>w_queue := (w_queue w)\<lparr>rq_world := r\<rparr>\<rparr>"

definition put_queue :: "redis_ref redis_state rq_state \<Rightarrow> world \<Rightarrow> world" where
  "put_queue s w = w\<lparr>w_queue := s\<rparr>"

definition world_kv :: "world kvstore" where
  "world_kv = kv_via w_redis put_redis (redis_kvstore ref_client)"

definition world_queue :: "world wbqueue" where
  "world_queue = q_via w_queue put_queue (redis_queue redis_clock (queue_on_redis ref_client ''wbq''))"

definition world_clock :: "world \<Rightarrow> gotime \<times> world" where
  "world_clock = via w_redis put_redis redis_clock"

text \<open>A database that is down refuses every statement.\<close>

definition db_down :: gerror where
  "db_down = Errorf ''dial tcp: connection refused'' []"

definition world_db :: "world database" where
  "world_db = \<lparr>db_Query = (\<lambda>sql args w. (if w_down w then Inl db_down else Inr (w_rows w (sql, args)), w)),
     db_Exec = (\<lambda>sql args w. if w_down w then (Inl db_down, w)
        else (Inr \<lparr>res_LastInsertId = Inr 0, res_RowsAffected = Inr 1\<rparr>, w\<lparr>w_log := w_log w @ [(sql, args)]\<rparr>)),
     db_GetSchema = (\<lambda>_ w. (Inr None, w)), db_GetTables = (\<lambda>w. (Inr [], w)), db_Close = (\<lambda>w. (None, w))\<rparr>"

definition world_content :: "world \<Rightarrow> string \<Rightarrow> string option" where
  "world_content w = ref.redis_content (w_redis w)"

definition world_pending :: "world \<Rightarrow> write_op list" where
  "world_pending w = rref.rq_pending (w_queue w)"

definition world_ok :: "world \<Rightarrow> bool" where
  "world_ok w \<longleftrightarrow> \<not> rs_closed (w_redis w) \<and> rref.rq_ok (w_queue w) \<and>
     time_ok (fst (redis_clock (w_redis w))) \<and> \<not> IsZero (fst (redis_clock (w_redis w)))"

text \<open>The keys of the queue start with its prefix.\<close>

definition world_reserved :: "string \<Rightarrow> bool" where
  "world_reserved k \<longleftrightarrow> take 4 k = ''wbq:''"

definition world_ready :: "world \<Rightarrow> bool" where
  "world_ready w \<longleftrightarrow> \<not> rq_closed (w_queue w) \<and> \<not> rs_closed (w_redis w) \<and>
     (\<forall>k x. world_reserved k \<longrightarrow> ref_keys (rs_server (w_redis w)) k \<noteq> Some (RStr x))"

section \<open>Lemmas on the reference server\<close>

lemma ref_kv_calls:
  assumes "\<not> rs_closed r"
  shows "kv_Set (redis_kvstore ref_client) k v ttl r = (None, r\<lparr>rs_server := ref_set k v (if 0 < ttl then ttl else 0) (rs_server r)\<rparr>)"
    and "kv_Delete (redis_kvstore ref_client) k r = (None, r\<lparr>rs_server := ref_del k (rs_server r)\<rparr>)"
    and "snd (kv_Get (redis_kvstore ref_client) k r) = r"
    and "ref_lookup (rs_server r) k = Some (RStr x) \<Longrightarrow> kv_Get (redis_kvstore ref_client) k r = (Inr x, r)"
  using assms
  by (auto simp: redis_kvstore_def Redis_Set_def Redis_Delete_def Redis_Get_def on_server_def ref_client_def Let_def
      split: option.split redis_val.split)

lemma ref_keys_updates:
  "ref_keys (ref_set k v ttl s) = (ref_keys s)(k \<mapsto> RStr v)" "ref_keys (ref_del k s) = (ref_keys s)(k := None)"
  by (auto simp: ref_keys_def ref_lookup_set ref_lookup_del)

lemma ref_now_updates [simp]:
  "rr_now (ref_set k v ttl s) = rr_now s" "rr_now (ref_del k s) = rr_now s" "rr_now (ref_put_list k xs s) = rr_now s"
  by (simp_all add: ref_set_def ref_put_def ref_del_def ref_put_list_def)

lemma redis_clock_now: "rr_now (rs_server r') = rr_now (rs_server r) \<Longrightarrow> fst (redis_clock r') = fst (redis_clock r)"
  by (simp add: redis_clock_def)

text \<open>A push changes the list at its key, unless a string is there.\<close>

lemma ref_push:
  assumes "ListPush ref_client k v r = (e, r')"
  shows "rs_closed r' = rs_closed r \<and> rr_now (rs_server r') = rr_now (rs_server r) \<and>
    ref.redis_content r' = ref.redis_content r \<and> (\<forall>k' x. ref_keys (rs_server r') k' = Some (RStr x) \<longrightarrow> ref_keys (rs_server r) k' = Some (RStr x)) \<and>
    (\<not> rs_closed r \<longrightarrow> (\<forall>x. ref_keys (rs_server r) k \<noteq> Some (RStr x)) \<longrightarrow> e = None)"
proof (cases "rs_closed r")
  case True
  then show ?thesis using assms by (auto simp: ListPush_def)
next
  case False
  show ?thesis
  proof (cases "ref_list (rs_server r) k")
    case (Inl err)
    then have "\<exists>x. ref_keys (rs_server r) k = Some (RStr x)"
      by (auto simp: ref_list_def ref_keys_def split: option.splits redis_val.splits)
    then show ?thesis using assms False Inl by (auto simp: ListPush_def on_server_def ref_client_def)
  next
    case (Inr xs)
    then have n: "ref_keys (rs_server r) k \<noteq> Some (RStr x)" for x
      by (auto simp: ref_list_def ref_keys_def split: option.splits redis_val.splits if_splits)
    have "r' = r\<lparr>rs_server := ref_put_list k (xs @ [v]) (rs_server r)\<rparr> \<and> e = None"
      using assms False Inr by (auto simp: ListPush_def on_server_def ref_client_def)
    then show ?thesis using n
      by (auto simp: ref.redis_content_def ref_keys_put_list put_list_def fun_eq_iff split: option.splits redis_val.splits if_splits)
  qed
qed

lemma list_at_upd: "list_at (m(k := x)) k' = (if k' = k then (case x of Some (RList xs) \<Rightarrow> xs | _ \<Rightarrow> []) else list_at m k')"
  by (auto simp: list_at_def)

lemma world_global: "getGlobalQueueKey (queue_on_redis c ''wbq'') = ''wbq:global''"
  by (simp add: getGlobalQueueKey_def queue_on_redis_def NewRedisQueue_def)

text \<open>What the operations of the queue keep of the server.\<close>

definition server_frame :: "redis_ref redis_state \<Rightarrow> redis_ref redis_state \<Rightarrow> bool" where
  "server_frame r r' \<longleftrightarrow> rs_closed r' = rs_closed r \<and> rr_now (rs_server r') = rr_now (rs_server r) \<and>
    ref.redis_content r' = ref.redis_content r \<and>
    (\<forall>k x. ref_keys (rs_server r') k = Some (RStr x) \<longrightarrow> ref_keys (rs_server r) k = Some (RStr x))"

lemma server_frame_refl [simp]: "server_frame r r"
  by (simp add: server_frame_def)

lemma server_frame_trans: "server_frame r r1 \<Longrightarrow> server_frame r1 r2 \<Longrightarrow> server_frame r r2"
  by (auto simp: server_frame_def)

lemma push_frame: "ListPush ref_client k v r = (e, r') \<Longrightarrow> server_frame r r'"
  using ref_push unfolding server_frame_def by blast

lemma pop_server_frame:
  assumes "ListPop ref_client k r = (x, r')"
  shows "server_frame r r'"
proof (cases "rs_closed r \<or> is_err (ref_list (rs_server r) k) \<or> ref_list (rs_server r) k = Inr []")
  case True
  then have "r' = r" using assms
    by (auto simp: ListPop_def on_server_def ref_client_def is_err_iff split: if_splits)
  then show ?thesis by simp
next
  case False
  then obtain v xs where l: "ref_list (rs_server r) k = Inr (v # xs)" by (metis not_err_iff list.exhaust)
  then have n: "ref_keys (rs_server r) k \<noteq> Some (RStr y)" for y
    by (auto simp: ref_list_def ref_keys_def split: option.splits redis_val.splits if_splits)
  have "r' = r\<lparr>rs_server := ref_put_list k xs (rs_server r)\<rparr>"
    using assms False l by (auto simp: ListPop_def on_server_def ref_client_def)
  then show ?thesis using n
    by (auto simp: server_frame_def ref.redis_content_def ref_keys_put_list put_list_def fun_eq_iff
        split: option.splits redis_val.splits if_splits)
qed

lemma pop_loop_server_frame: "pop_loop (redis_list_ops ref_client) key n ops r = (xs, r') \<Longrightarrow> server_frame r r'"
proof (induction n arbitrary: ops r)
  case (Suc n)
  obtain x r1 where x: "ListPop ref_client key r = (x, r1)" by (cases "ListPop ref_client key r")
  have "server_frame r1 r'" using Suc x by (auto simp: redis_list_ops_def split: sum.splits option.splits)
  then show ?case using server_frame_trans pop_server_frame [OF x] by blast
qed simp

lemma ref_Enqueue_frame:
  assumes "rq_Enqueue redis_clock (queue_on_redis ref_client p) x s = (e, s')"
  shows "server_frame (rq_world s) (rq_world s') \<and> rq_closed s' = rq_closed s"
proof (cases "rq_closed s \<or> x = None \<or> op_Table (the x) = []")
  case True
  then show ?thesis using assms by (auto simp: rq_Enqueue_def split: option.splits if_splits)
next
  case False
  then obtain op0 where op0: "x = Some op0" by auto
  obtain op r1 where st: "stamp redis_clock op0 (rq_world s) = (op, r1)" by (cases "stamp redis_clock op0 (rq_world s)")
  have r1: "r1 = rq_world s" using st by (auto simp: stamp_def redis_clock_def split: if_splits)
  have "server_frame r r'" if pb: "push_both q (redis_list_ops ref_client) op d r = (e, r')" for q d r e r'
  proof -
    obtain e1 r2 where a: "ListPush ref_client (getQueueKey q (op_Table op)) d r = (e1, r2)"
      by (cases "ListPush ref_client (getQueueKey q (op_Table op)) d r")
    obtain e2 r3 where b: "ListPush ref_client (getGlobalQueueKey q) d r2 = (e2, r3)"
      by (cases "ListPush ref_client (getGlobalQueueKey q) d r2")
    show ?thesis using pb a b push_frame [OF a] server_frame_trans [OF push_frame [OF a] push_frame [OF b]]
      by (auto simp: push_both_def redis_list_ops_def split: option.splits)
  qed
  then show ?thesis using assms False op0 st r1
    by (auto simp: rq_Enqueue_def queue_on_redis_def NewRedisQueue_def split: sum.splits prod.splits)
qed

lemma ref_Enqueue_ready:
  assumes "\<not> rq_closed s" and "\<not> rs_closed (rq_world s)" and "rq_accepts op"
    and "\<forall>k x. world_reserved k \<longrightarrow> ref_keys (rs_server (rq_world s)) k \<noteq> Some (RStr x)"
  shows "\<exists>s'. rq_Enqueue redis_clock (queue_on_redis ref_client ''wbq'') (Some op) s = (None, s')"
proof -
  let ?q = "queue_on_redis ref_client ''wbq''"
  have res: "world_reserved (getQueueKey ?q t)" "world_reserved (getGlobalQueueKey ?q)" for t
    by (simp_all add: world_reserved_def getQueueKey_def getGlobalQueueKey_def queue_on_redis_def NewRedisQueue_def)
  obtain d where d: "marshal_write_op op = Inr d" using unmarshal_marshal_write_op assms(3) by (auto simp: rq_accepts_def)
  obtain e1 r1 where a: "ListPush ref_client (getQueueKey ?q (op_Table op)) d (rq_world s) = (e1, r1)"
    by (cases "ListPush ref_client (getQueueKey ?q (op_Table op)) d (rq_world s)")
  have e1: "e1 = None" using ref_push [OF a] assms(2,4) res(1) by blast
  have r1: "\<not> rs_closed r1" "\<forall>k x. world_reserved k \<longrightarrow> ref_keys (rs_server r1) k \<noteq> Some (RStr x)"
    using push_frame [OF a] assms(2,4) unfolding server_frame_def by blast+
  obtain e2 r2 where b: "ListPush ref_client (getGlobalQueueKey ?q) d r1 = (e2, r2)" by (cases "ListPush ref_client (getGlobalQueueKey ?q) d r1")
  have e2: "e2 = None" using ref_push [OF b] r1 res(2) by blast
  have "stamp redis_clock op (rq_world s) = (op, rq_world s)" using assms(3) by (simp add: stamp_def rq_accepts_def)
  then show ?thesis using assms d a b e1 e2
    by (auto simp: rq_Enqueue_def rq_accepts_def push_both_def redis_list_ops_def queue_on_redis_def NewRedisQueue_def)
qed

section \<open>The contract on the world\<close>

lemmas world_calls = world_kv_def kv_via_def world_queue_def q_via_def redis_queue_def world_clock_def world_db_def via_iff
lemmas world_views = world_ok_def world_content_def world_pending_def put_redis_def put_queue_def

lemma world_set:
  assumes "world_ok w" and "kv_Set world_kv k v ttl w = (e, w')"
  shows "e = None \<and> world_ok w' \<and> world_content w' = (world_content w)(k \<mapsto> v) \<and>
    (\<not> world_reserved k \<longrightarrow> world_pending w' = world_pending w \<and> (world_ready w \<longrightarrow> world_ready w'))"
proof -
  let ?r = "(w_redis w)\<lparr>rs_server := ref_set k v (if 0 < ttl then ttl else 0) (rs_server (w_redis w))\<rparr>"
  have op: "\<not> rs_closed (w_redis w)" using assms(1) by (simp add: world_ok_def)
  have w': "e = None" "w' = put_redis ?r w" using assms(2) ref_kv_calls(1) [OF op] by (auto simp: world_calls)
  have c: "ref.redis_content ?r = (ref.redis_content (w_redis w))(k \<mapsto> v)"
    by (auto simp: ref.redis_content_def ref_keys_updates fun_eq_iff)
  have g: "rref.glist ((w_queue w)\<lparr>rq_world := ?r\<rparr>) = (if k = ''wbq:global'' then [] else rref.glist (w_queue w))"
    by (simp add: rref.glist_def world_global ref_keys_updates list_at_upd)
  have t: "fst (redis_clock ?r) = fst (redis_clock (w_redis w))" by (rule redis_clock_now) simp
  show ?thesis using assms(1) w' c g t
    by (auto simp: world_views world_reserved_def world_ready_def rref.rq_ok_def rref.rq_pending_def ref_keys_updates split: if_splits)
qed

lemma world_delete:
  assumes "world_ok w" and "kv_Delete world_kv k w = (e, w')"
  shows "e = None \<and> world_ok w' \<and> world_content w' = (world_content w)(k := None) \<and> (world_ready w \<longrightarrow> world_ready w') \<and>
    (\<not> world_reserved k \<longrightarrow> world_pending w' = world_pending w)"
proof -
  let ?r = "(w_redis w)\<lparr>rs_server := ref_del k (rs_server (w_redis w))\<rparr>"
  have op: "\<not> rs_closed (w_redis w)" using assms(1) by (simp add: world_ok_def)
  have w': "e = None" "w' = put_redis ?r w" using assms(2) ref_kv_calls(2) [OF op] by (auto simp: world_calls)
  have c: "ref.redis_content ?r = (ref.redis_content (w_redis w))(k := None)"
    by (auto simp: ref.redis_content_def ref_keys_updates fun_eq_iff)
  have g: "rref.glist ((w_queue w)\<lparr>rq_world := ?r\<rparr>) = (if k = ''wbq:global'' then [] else rref.glist (w_queue w))"
    by (simp add: rref.glist_def world_global ref_keys_updates list_at_upd)
  have t: "fst (redis_clock ?r) = fst (redis_clock (w_redis w))" by (rule redis_clock_now) simp
  show ?thesis using assms(1) w' c g t
    by (auto simp: world_views world_reserved_def world_ready_def rref.rq_ok_def rref.rq_pending_def ref_keys_updates split: if_splits)
qed

lemma world_get:
  assumes "world_ok w" and "kv_Get world_kv k w = (r, w')"
  shows "w' = w \<and> (\<forall>v. r = Inr v \<longleftrightarrow> world_content w k = Some v)"
proof -
  have op: "\<not> rs_closed (w_redis w)" using assms(1) by (simp add: world_ok_def)
  obtain r1 where g: "kv_Get (redis_kvstore ref_client) k (w_redis w) = (r, r1)" "w' = put_redis r1 w"
    using assms(2) by (auto simp: world_calls)
  have r1: "r1 = w_redis w" using ref_kv_calls(3) [OF op, of k] g(1) by simp
  have a: "r = Inr v \<Longrightarrow> ref.redis_content (w_redis w) k = Some v" for v
    using ref.rkv.get [OF op g(1)] by blast
  have b: "r = Inr v" if "ref.redis_content (w_redis w) k = Some v" for v
    using ref_kv_calls(4) [OF op, of k v] g(1) that
    by (auto simp: ref.redis_content_def ref_keys_def split: option.splits redis_val.splits if_splits)
  have "w' = w" unfolding g(2) r1 by (simp add: put_redis_def)
  then show ?thesis using a b unfolding world_content_def by (intro conjI allI iffI)
qed

lemma world_queue_frame:
  assumes "world_ok w" and "server_frame (w_redis w) r" and "rq_world s = r" and "rq_closed s = rq_closed (w_queue w)"
    and "rref.rq_ok s"
  shows "world_ok (put_queue s w) \<and> world_content (put_queue s w) = world_content w \<and> (world_ready w \<longrightarrow> world_ready (put_queue s w))"
  using assms redis_clock_now [of r "w_redis w"] by (auto simp: world_views world_ready_def server_frame_def)

lemma world_enqueue:
  assumes "world_ok w" and "q_Enqueue world_queue x w = (e, w')"
  shows "world_content w' = world_content w \<and>
    (rref.rq_ok (w_queue w') \<longrightarrow> world_ok w' \<and> (world_ready w \<longrightarrow> world_ready w'))"
proof -
  obtain s' where s': "rq_Enqueue redis_clock (queue_on_redis ref_client ''wbq'') x (w_queue w) = (e, s')" "w' = put_queue s' w"
    using assms(2) by (auto simp: world_calls)
  note f = ref_Enqueue_frame [OF s'(1)]
  then have "world_content w' = world_content w" using s'(2) by (simp add: world_views server_frame_def)
  then show ?thesis using world_queue_frame [OF assms(1) conjunct1 [OF f] refl conjunct2 [OF f]] s'(2)
    by (auto simp: put_queue_def)
qed

lemma world_size:
  assumes "q_Size world_queue w = (n, w')"
  shows "w' = w"
  using assms
  by (auto simp: world_calls rq_Size_def rq_length_def queue_on_redis_def NewRedisQueue_def redis_list_ops_def ListLength_def
      on_server_def ref_client_def put_queue_def split: if_splits sum.splits prod.splits)

interpretation tw: live_table_env world_kv world_content world_ok world_queue world_pending op_image rq_accepts
  world_db world_clock world_reserved world_ready
proof (unfold_locales, goal_cases)
  case (1 w k r w')
  then show ?case using world_get [of w k r w'] by auto
next
  case (2 w k v ttl e w')
  then show ?case using world_set [of w k v ttl e w'] by auto
next
  case (3 w k e w')
  then show ?case using world_delete [of w k e w'] by auto
next
  case (4 w x e w')
  then obtain s' where s': "q_Enqueue (redis_queue redis_clock (queue_on_redis ref_client ''wbq'')) (Some x) (w_queue w) = (e, s')" "w' = put_queue s' w"
    by (auto simp: world_calls)
  have "rref.rq_ok (w_queue w)" using 4(1) by (simp add: world_ok_def)
  from rref.rq.enqueue [OF this 4(2) s'(1)] show ?case using world_enqueue [OF 4(1,3)] s'(2)
    by (auto simp: world_pending_def put_queue_def)
next
  case (5 w n xs e w')
  obtain s' where s': "q_Dequeue (redis_queue redis_clock (queue_on_redis ref_client ''wbq'')) n (w_queue w) = ((xs, e), s')" "w' = put_queue s' w"
    using 5(2) by (auto simp: world_calls)
  have ok: "rref.rq_ok (w_queue w)" using 5(1) by (simp add: world_ok_def)
  note d = rref.rq.dequeue [OF ok s'(1)]
  have "server_frame (w_redis w) (rq_world s') \<and> rq_closed s' = rq_closed (w_queue w)"
    using s'(1) pop_loop_server_frame
    by (auto simp: redis_queue_def rq_Dequeue_def rq_dequeue_key_def queue_on_redis_def NewRedisQueue_def Let_def split: if_splits prod.splits)
  then have "world_ok w'" using world_queue_frame [OF 5(1) _ refl] d s'(2) by auto
  then show ?case using d s'(2) by (auto simp: world_pending_def put_queue_def)
next
  case (6 w ts w')
  then show ?case by (auto simp: world_calls redis_clock_def world_views)
next
  case (7 w k r w')
  then show ?case using world_get by auto
next
  case (8 w k v ttl e w')
  then show ?case using world_set [of w k v ttl e w'] by auto
next
  case (9 w k e w')
  then show ?case using world_delete by auto
next
  case (10 w x e w')
  then show ?case using world_enqueue by auto
next
  case (11 w n w')
  then show ?case using world_size [of w n w'] by auto
next
  case (12 w sql args rr w')
  then show ?case by (auto simp: world_db_def)
next
  case (13 w sql args er w')
  then show ?case by (auto simp: world_db_def world_views split: if_splits)
next
  case (14 op)
  then show ?case .
next
  case (15 k)
  then show ?case by (auto simp: wal_key_def world_reserved_def)
next
  case (16 w k v)
  then show ?case using world_get [OF 16(1), of k] by (metis surj_pair)
next
  case (17 w k v ttl)
  then show ?case using world_set [OF 17] by (metis surj_pair)
next
  case (18 w k)
  then show ?case using world_delete [OF 18] by (metis surj_pair)
next
  case (19 w x)
  then show ?case using ref_Enqueue_ready [of "w_queue w" x] by (auto simp: world_calls world_ready_def)
next
  case (20 w ts w')
  then show ?case by (auto simp: world_calls redis_clock_def put_redis_def)
next
  case (21 w k v ttl e w')
  then show ?case using world_set by auto
next
  case (22 w k e w')
  then show ?case using world_delete by auto
qed

end
