(* ===== verification/Table_Registry.thy ===== *)
theory Table_Registry
  imports Lifecycle Config_Manager Table_World "HOL-Library.Multiset"
begin

text \<open>
  \<^verbatim>\<open>internal/registry/table_registry.go\<close>: the tables a client has, with their metadata, and the operations
  that enable and disable them. A table is the method table of the interface \<^verbatim>\<open>core.Table\<close> over a state
  \<open>'s\<close> that holds all table objects; \<open>ct_id\<close> is the identity of the object behind it. Every operation runs
  under the registry's mutex and is one step; hooks run under it too and must not call the registry.
  Iteration over the map of tables takes the order that \<open>iter\<close> gives.
\<close>

section \<open>The interface of a table\<close>

record 's core_table =
  ct_id :: nat
  ct_Create :: "grecord option \<Rightarrow> 's \<Rightarrow> gerror option \<times> 's"
  ct_Read :: "goval \<Rightarrow> 's \<Rightarrow> grecord res \<times> 's"
  ct_Update :: "goval \<Rightarrow> grecord option \<Rightarrow> 's \<Rightarrow> gerror option \<times> 's"
  ct_Delete :: "goval \<Rightarrow> 's \<Rightarrow> gerror option \<times> 's"
  ct_EnableKV :: "'s \<Rightarrow> gerror option \<times> 's"
  ct_DisableKV :: "'s \<Rightarrow> gerror option \<times> 's"
  ct_FindByField :: "string \<Rightarrow> goval \<Rightarrow> 's \<Rightarrow> grecord res \<times> 's"
  ct_ExecuteWriteOperation :: "write_op \<Rightarrow> 's \<Rightarrow> gerror option \<times> 's"
  ct_GetWriteBackQueue :: "'s wbqueue"

text \<open>A table implementation as such an interface, its state being a part of the whole.\<close>

definition core_table_of :: "nat \<Rightarrow> ('s \<Rightarrow> 'w tstate) \<Rightarrow> ('w tstate \<Rightarrow> 's \<Rightarrow> 's) \<Rightarrow> 'w TableImpl \<Rightarrow> 's core_table" where
  "core_table_of i get put t = \<lparr>ct_id = i,
     ct_Create = (\<lambda>r. via get put (Create t r)), ct_Read = (\<lambda>k. via get put (Read t k)),
     ct_Update = (\<lambda>k u. via get put (Update t k u)), ct_Delete = (\<lambda>k. via get put (Delete t k)),
     ct_EnableKV = via get put EnableKV, ct_DisableKV = via get put DisableKV,
     ct_FindByField = (\<lambda>f v. via get put (FindByField t f v)),
     ct_ExecuteWriteOperation = (\<lambda>op. via get put (ExecuteWriteOperation t op)),
     ct_GetWriteBackQueue = q_via (\<lambda>s. env (get s)) (\<lambda>w s. put (with_env w (get s)) s) (GetWriteBackQueue t)\<rparr>"

section \<open>Operations\<close>

record 's TableMetadata =
  tm_TableName :: string
  tm_Table :: "'s core_table"
  tm_Schema :: schema
  tm_Config :: InternalTableConfig
  tm_Enabled :: bool
  tm_EnabledAt :: "gotime option"
  tm_DisabledAt :: "gotime option"
  tm_CreatedAt :: gotime
  tm_UpdatedAt :: gotime

record 's TableRegistry =
  tr_tables :: "'s TableMetadata gomap"
  tr_configMgr :: ConfigManager
  tr_lifecycle :: "'s LifecycleManager"

definition NewTableRegistry :: "ConfigManager \<Rightarrow> 's LifecycleManager option \<Rightarrow> 's TableRegistry" where
  "NewTableRegistry configMgr lifecycle = \<lparr>tr_tables = [], tr_configMgr = configMgr,
     tr_lifecycle = (case lifecycle of None \<Rightarrow> NewLifecycleManager | Some l \<Rightarrow> l)\<rparr>"

definition not_registered :: "string \<Rightarrow> gerror" where
  "not_registered tableName = Errorf ''table %q is not registered'' [tableName]"

definition new_metadata :: "string \<Rightarrow> 's core_table \<Rightarrow> schema \<Rightarrow> InternalTableConfig \<Rightarrow> gotime \<Rightarrow> 's TableMetadata option \<Rightarrow> 's TableMetadata" where
  "new_metadata tableName table schema config ts existing =
     (let metadata = \<lparr>tm_TableName = tableName, tm_Table = table, tm_Schema = schema, tm_Config = config, tm_Enabled = False,
            tm_EnabledAt = None, tm_DisabledAt = None, tm_CreatedAt = ts, tm_UpdatedAt = ts\<rparr>
      in case existing of
           None \<Rightarrow> metadata
         | Some m \<Rightarrow> metadata\<lparr>tm_Enabled := tm_Enabled m, tm_EnabledAt := tm_EnabledAt m, tm_DisabledAt := tm_DisabledAt m,
                      tm_CreatedAt := tm_CreatedAt m\<rparr>)"

definition tr_Register :: "('s \<Rightarrow> gotime \<times> 's) \<Rightarrow> string \<Rightarrow> 's core_table option \<Rightarrow> schema option \<Rightarrow> 's TableRegistry \<Rightarrow> 's \<Rightarrow>
    gerror option \<times> 's TableRegistry \<times> 's" where
  "tr_Register now tableName table schema tr s =
     (if tableName = [] then (Some (Errorf ''table name cannot be empty'' []), tr, s)
      else case table of None \<Rightarrow> (Some (Errorf ''table cannot be nil'' []), tr, s) | Some tab \<Rightarrow>
       (case schema of None \<Rightarrow> (Some (Errorf ''schema cannot be nil'' []), tr, s) | Some sch \<Rightarrow>
        if sch_TableName sch \<noteq> tableName
        then (Some (Errorf ''schema table name %q does not match provided table name %q'' [sch_TableName sch, tableName]), tr, s)
        else let (ts, s1) = now s; config = GetTableConfig tableName (tr_configMgr tr);
                 metadata = new_metadata tableName tab sch config ts (map_of (tr_tables tr) tableName)
             in (None, tr\<lparr>tr_tables := gomap_set (tr_tables tr) tableName metadata\<rparr>, s1)))"

definition tr_Get :: "string \<Rightarrow> 's TableRegistry \<Rightarrow> 's core_table res" where
  "tr_Get tableName tr = (case map_of (tr_tables tr) tableName of None \<Rightarrow> Inl (not_registered tableName) | Some m \<Rightarrow> Inr (tm_Table m))"

definition GetMetadata :: "string \<Rightarrow> 's TableRegistry \<Rightarrow> 's TableMetadata res" where
  "GetMetadata tableName tr = (case map_of (tr_tables tr) tableName of None \<Rightarrow> Inl (not_registered tableName) | Some m \<Rightarrow> Inr m)"

definition tr_EnableKV :: "('s \<Rightarrow> gotime \<times> 's) \<Rightarrow> string \<Rightarrow> 's TableRegistry \<Rightarrow> 's \<Rightarrow> gerror option \<times> 's TableRegistry \<times> 's" where
  "tr_EnableKV now tableName tr s =
     (case map_of (tr_tables tr) tableName of
        None \<Rightarrow> (Some (not_registered tableName), tr, s)
      | Some metadata \<Rightarrow>
          if tm_Enabled metadata then (None, tr, s)
          else case ExecuteEnableHooks tableName (tm_Schema metadata) (tr_lifecycle tr) s of
            (Some err, s1) \<Rightarrow> (Some (Wrapf ''enable hook failed for table %q: %w'' [tableName] err), tr, s1)
          | (None, s1) \<Rightarrow>
              (case ct_EnableKV (tm_Table metadata) s1 of
                 (Some err, s2) \<Rightarrow> (Some (Wrapf ''failed to enable KV for table %q: %w'' [tableName] err), tr, s2)
               | (None, s2) \<Rightarrow>
                   (let (ts, s3) = now s2 in
                    (None, tr\<lparr>tr_tables := gomap_set (tr_tables tr) tableName
                       (metadata\<lparr>tm_Enabled := True, tm_EnabledAt := Some ts, tm_DisabledAt := None, tm_UpdatedAt := ts\<rparr>)\<rparr>, s3))))"

definition tr_DisableKV :: "('s \<Rightarrow> gotime \<times> 's) \<Rightarrow> string \<Rightarrow> 's TableRegistry \<Rightarrow> 's \<Rightarrow> gerror option \<times> 's TableRegistry \<times> 's" where
  "tr_DisableKV now tableName tr s =
     (case map_of (tr_tables tr) tableName of
        None \<Rightarrow> (Some (not_registered tableName), tr, s)
      | Some metadata \<Rightarrow>
          if \<not> tm_Enabled metadata then (None, tr, s)
          else case ExecuteDisableHooks tableName (tm_Schema metadata) (tr_lifecycle tr) s of
            (Some err, s1) \<Rightarrow> (Some (Wrapf ''disable hook failed for table %q: %w'' [tableName] err), tr, s1)
          | (None, s1) \<Rightarrow>
              (case ct_DisableKV (tm_Table metadata) s1 of
                 (Some err, s2) \<Rightarrow> (Some (Wrapf ''failed to disable KV for table %q: %w'' [tableName] err), tr, s2)
               | (None, s2) \<Rightarrow>
                   (let (ts, s3) = now s2 in
                    (None, tr\<lparr>tr_tables := gomap_set (tr_tables tr) tableName
                       (metadata\<lparr>tm_Enabled := False, tm_DisabledAt := Some ts, tm_EnabledAt := None, tm_UpdatedAt := ts\<rparr>)\<rparr>, s3))))"

definition Unregister :: "string \<Rightarrow> 's TableRegistry \<Rightarrow> 's \<Rightarrow> gerror option \<times> 's TableRegistry \<times> 's" where
  "Unregister tableName tr s =
     (case map_of (tr_tables tr) tableName of
        None \<Rightarrow> (Some (not_registered tableName), tr, s)
      | Some metadata \<Rightarrow>
          (let remove = tr\<lparr>tr_tables := gomap_delete (tr_tables tr) tableName\<rparr> in
           if \<not> tm_Enabled metadata then (None, remove, s)
           else case ExecuteDisableHooks tableName (tm_Schema metadata) (tr_lifecycle tr) s of
             (Some err, s1) \<Rightarrow> (Some (Wrapf ''disable hook failed during unregister for table %q: %w'' [tableName] err), tr, s1)
           | (None, s1) \<Rightarrow>
               (case ct_DisableKV (tm_Table metadata) s1 of
                  (Some err, s2) \<Rightarrow> (Some (Wrapf ''failed to disable KV during unregister for table %q: %w'' [tableName] err), tr, s2)
                | (None, s2) \<Rightarrow> (None, remove, s2))))"

type_synonym 's map_order = "'s TableMetadata gomap \<Rightarrow> (string \<times> 's TableMetadata) list"

definition ListTables :: "'s map_order \<Rightarrow> 's TableRegistry \<Rightarrow> string list" where
  "ListTables iter tr = map fst (iter (tr_tables tr))"

definition ListEnabled :: "'s map_order \<Rightarrow> 's TableRegistry \<Rightarrow> string list" where
  "ListEnabled iter tr = map fst (filter (\<lambda>(name, m). tm_Enabled m) (iter (tr_tables tr)))"

definition ListDisabled :: "'s map_order \<Rightarrow> 's TableRegistry \<Rightarrow> string list" where
  "ListDisabled iter tr = map fst (filter (\<lambda>(name, m). \<not> tm_Enabled m) (iter (tr_tables tr)))"

definition IsEnabled :: "string \<Rightarrow> 's TableRegistry \<Rightarrow> bool res" where
  "IsEnabled tableName tr = (case map_of (tr_tables tr) tableName of None \<Rightarrow> Inl (not_registered tableName) | Some m \<Rightarrow> Inr (tm_Enabled m))"

definition UpdateConfig :: "('s \<Rightarrow> gotime \<times> 's) \<Rightarrow> string \<Rightarrow> 's TableRegistry \<Rightarrow> 's \<Rightarrow> gerror option \<times> 's TableRegistry \<times> 's" where
  "UpdateConfig now tableName tr s =
     (case map_of (tr_tables tr) tableName of
        None \<Rightarrow> (Some (not_registered tableName), tr, s)
      | Some metadata \<Rightarrow>
          (let (ts, s1) = now s in
           (None, tr\<lparr>tr_tables := gomap_set (tr_tables tr) tableName
              (metadata\<lparr>tm_Config := GetTableConfig tableName (tr_configMgr tr), tm_UpdatedAt := ts\<rparr>)\<rparr>, s1)))"

definition RefreshConfig :: "('s \<Rightarrow> gotime \<times> 's) \<Rightarrow> 's TableRegistry \<Rightarrow> 's \<Rightarrow> 's TableRegistry \<times> 's" where
  "RefreshConfig now tr s =
     (let (ts, s1) = now s in
      (tr\<lparr>tr_tables := map (\<lambda>(name, m). (name, m\<lparr>tm_Config := GetTableConfig (tm_TableName m) (tr_configMgr tr), tm_UpdatedAt := ts\<rparr>))
         (tr_tables tr)\<rparr>, s1))"

definition GetLifecycleManager :: "'s TableRegistry \<Rightarrow> 's LifecycleManager" where
  "GetLifecycleManager tr = tr_lifecycle tr"

definition tr_Count :: "'s TableRegistry \<Rightarrow> int" where
  "tr_Count tr = int (length (tr_tables tr))"

fun clear_tables :: "'s LifecycleManager \<Rightarrow> (string \<times> 's TableMetadata) list \<Rightarrow> 's \<Rightarrow> gerror option \<times> 's" where
  "clear_tables lm [] s = (None, s)"
| "clear_tables lm ((tableName, metadata) # ms) s =
     (if \<not> tm_Enabled metadata then clear_tables lm ms s
      else case ExecuteDisableHooks tableName (tm_Schema metadata) lm s of
        (Some err, s1) \<Rightarrow> (Some (Wrapf ''disable hook failed during clear for table %q: %w'' [tableName] err), s1)
      | (None, s1) \<Rightarrow>
          (case ct_DisableKV (tm_Table metadata) s1 of
             (Some err, s2) \<Rightarrow> (Some (Wrapf ''failed to disable KV during clear for table %q: %w'' [tableName] err), s2)
           | (None, s2) \<Rightarrow> clear_tables lm ms s2))"

definition tr_Clear :: "'s map_order \<Rightarrow> 's TableRegistry \<Rightarrow> 's \<Rightarrow> gerror option \<times> 's TableRegistry \<times> 's" where
  "tr_Clear iter tr s =
     (case clear_tables (tr_lifecycle tr) (iter (tr_tables tr)) s of
        (Some err, s1) \<Rightarrow> (Some err, tr, s1)
      | (None, s1) \<Rightarrow> (None, tr\<lparr>tr_tables := []\<rparr>, s1))"

section \<open>The invariant of the metadata\<close>

definition meta_ok :: "string \<Rightarrow> 's TableMetadata \<Rightarrow> bool" where
  "meta_ok n m \<longleftrightarrow> n \<noteq> [] \<and> tm_TableName m = n \<and> sch_TableName (tm_Schema m) = n \<and>
     (if tm_Enabled m then tm_EnabledAt m \<noteq> None \<and> tm_DisabledAt m = None else tm_EnabledAt m = None)"

definition reg_ok :: "'s TableRegistry \<Rightarrow> bool" where
  "reg_ok tr \<longleftrightarrow> gomap_wf (tr_tables tr) \<and> (\<forall>n m. map_of (tr_tables tr) n = Some m \<longrightarrow> meta_ok n m)"

lemma reg_ok_set [intro]: "reg_ok tr \<Longrightarrow> meta_ok n m \<Longrightarrow> reg_ok (tr\<lparr>tr_tables := gomap_set (tr_tables tr) n m\<rparr>)"
  by (auto simp: reg_ok_def)

lemma reg_ok_delete [intro]: "reg_ok tr \<Longrightarrow> reg_ok (tr\<lparr>tr_tables := gomap_delete (tr_tables tr) n\<rparr>)"
  by (auto simp: reg_ok_def)

lemma reg_ok_get: "reg_ok tr \<Longrightarrow> map_of (tr_tables tr) n = Some m \<Longrightarrow> meta_ok n m"
  by (simp add: reg_ok_def)

text \<open>What a call that runs hooks and switches a table can do to the registry.\<close>

lemma tr_EnableKV_cases:
  assumes "tr_EnableKV now n tr s = (e, tr', s')"
  shows "tr' = tr \<or> (\<exists>m ts. map_of (tr_tables tr) n = Some m \<and> e = None \<and> tr' = tr\<lparr>tr_tables := gomap_set (tr_tables tr) n
     (m\<lparr>tm_Enabled := True, tm_EnabledAt := Some ts, tm_DisabledAt := None, tm_UpdatedAt := ts\<rparr>)\<rparr>)"
  using assms by (auto simp: tr_EnableKV_def Let_def split: option.splits if_splits prod.splits)

lemma tr_DisableKV_cases:
  assumes "tr_DisableKV now n tr s = (e, tr', s')"
  shows "tr' = tr \<or> (\<exists>m ts. map_of (tr_tables tr) n = Some m \<and> e = None \<and> tr' = tr\<lparr>tr_tables := gomap_set (tr_tables tr) n
     (m\<lparr>tm_Enabled := False, tm_DisabledAt := Some ts, tm_EnabledAt := None, tm_UpdatedAt := ts\<rparr>)\<rparr>)"
  using assms by (auto simp: tr_DisableKV_def Let_def split: option.splits if_splits prod.splits)

lemma tr_Register_cases:
  assumes "tr_Register now n tab sch tr s = (e, tr', s')"
  shows "tr' = tr \<and> s' = s \<and> e \<noteq> None \<or> (\<exists>t sc ts. n \<noteq> [] \<and> tab = Some t \<and> sch = Some sc \<and> sch_TableName sc = n \<and> e = None \<and> now s = (ts, s') \<and>
     tr' = tr\<lparr>tr_tables := gomap_set (tr_tables tr) n (new_metadata n t sc (GetTableConfig n (tr_configMgr tr)) ts (map_of (tr_tables tr) n))\<rparr>)"
  using assms by (auto simp: tr_Register_def Let_def split: option.splits if_splits prod.splits)

text \<open>
  The registry in use: any operation, in any order; between the operations hooks and configuration
  may be exchanged and the tables used.
\<close>

inductive tr_step :: "'s TableRegistry \<times> 's \<Rightarrow> 's TableRegistry \<times> 's \<Rightarrow> bool" where
  register: "tr_Register now n tab sch tr s = (e, x) \<Longrightarrow> tr_step (tr, s) x"
| enable: "tr_EnableKV now n tr s = (e, x) \<Longrightarrow> tr_step (tr, s) x"
| disable: "tr_DisableKV now n tr s = (e, x) \<Longrightarrow> tr_step (tr, s) x"
| unregister: "Unregister n tr s = (e, x) \<Longrightarrow> tr_step (tr, s) x"
| update: "UpdateConfig now n tr s = (e, x) \<Longrightarrow> tr_step (tr, s) x"
| refresh: "RefreshConfig now tr s = x \<Longrightarrow> tr_step (tr, s) x"
| clear: "tr_Clear iter tr s = (e, x) \<Longrightarrow> tr_step (tr, s) x"
| environ: "tr_step (tr, s) (tr\<lparr>tr_lifecycle := l, tr_configMgr := c\<rparr>, s')"

lemma reg_ok_refresh:
  assumes "reg_ok tr" and "\<And>n m. meta_ok n m \<Longrightarrow> meta_ok n (f m)"
  shows "reg_ok (tr\<lparr>tr_tables := map (\<lambda>(n, m). (n, f m)) (tr_tables tr)\<rparr>)"
proof -
  let ?ms = "map (\<lambda>(n, m). (n, f m)) (tr_tables tr)"
  have "map_of (map (\<lambda>(n, m). (n, f m)) ms) n = map_option f (map_of ms n)" for ms and n :: string by (induction ms) auto
  then have "meta_ok n m" if "map_of ?ms n = Some m" for n m using that assms by (auto simp: reg_ok_def)
  moreover have "map fst ?ms = map fst (tr_tables tr)" by auto
  then have "gomap_wf ?ms" using assms(1) unfolding reg_ok_def gomap_wf_def by metis
  ultimately show ?thesis by (simp add: reg_ok_def)
qed

lemma reg_ok_step: "tr_step x y \<Longrightarrow> reg_ok (fst x) \<Longrightarrow> reg_ok (fst y)"
proof (induction rule: tr_step.induct)
  case (register now n tab sch tr s e y)
  obtain tr' s' where y: "y = (tr', s')" by (cases y)
  from tr_Register_cases [OF register(1) [unfolded y]] show ?case
  proof
    assume "\<exists>t sc ts. n \<noteq> [] \<and> tab = Some t \<and> sch = Some sc \<and> sch_TableName sc = n \<and> e = None \<and> now s = (ts, s') \<and>
       tr' = tr\<lparr>tr_tables := gomap_set (tr_tables tr) n (new_metadata n t sc (GetTableConfig n (tr_configMgr tr)) ts (map_of (tr_tables tr) n))\<rparr>"
    moreover have "meta_ok n (new_metadata n t sc c ts (map_of (tr_tables tr) n))" if "n \<noteq> []" "sch_TableName sc = n" for t sc c ts
      using that reg_ok_get [of tr n] register(2)
      by (cases "map_of (tr_tables tr) n") (auto simp: new_metadata_def meta_ok_def split: if_splits)
    ultimately show ?thesis using register(2) y by auto
  qed (use register(2) y in auto)
next
  case (enable now n tr s e y)
  obtain tr' s' where y: "y = (tr', s')" by (cases y)
  from tr_EnableKV_cases [OF enable(1) [unfolded y]] show ?case
    using enable(2) y reg_ok_get [of tr n] by (auto simp: meta_ok_def intro!: reg_ok_set)
next
  case (disable now n tr s e y)
  obtain tr' s' where y: "y = (tr', s')" by (cases y)
  from tr_DisableKV_cases [OF disable(1) [unfolded y]] show ?case
    using disable(2) y reg_ok_get [of tr n] by (auto simp: meta_ok_def intro!: reg_ok_set)
next
  case (unregister n tr s e y)
  then show ?case by (auto simp: Unregister_def Let_def split: option.splits if_splits prod.splits)
next
  case (update now n tr s e y)
  then show ?case using reg_ok_get [of tr n]
    by (auto simp: UpdateConfig_def meta_ok_def Let_def split: option.splits prod.splits intro!: reg_ok_set)
next
  case (refresh now tr s y)
  then show ?case by (auto simp: RefreshConfig_def Let_def meta_ok_def split: prod.splits intro!: reg_ok_refresh)
next
  case (clear iter tr s e y)
  then show ?case by (auto simp: tr_Clear_def reg_ok_def split: option.splits prod.splits)
next
  case (environ tr s l c s')
  then show ?case by (simp add: reg_ok_def)
qed

lemma reg_ok_new: "reg_ok (NewTableRegistry cm l)"
  by (simp add: reg_ok_def NewTableRegistry_def)

lemma reg_ok_reachable: "tr_step\<^sup>*\<^sup>* x y \<Longrightarrow> reg_ok (fst x) \<Longrightarrow> reg_ok (fst y)"
  by (induction rule: rtranclp_induct) (auto dest: reg_ok_step)

section \<open>Metadata and tables\<close>

text \<open>The metadata says of every registered table what its own flag says, and no object is registered twice.\<close>

definition flags_agree :: "(nat \<Rightarrow> 's \<Rightarrow> bool) \<Rightarrow> ('s core_table \<Rightarrow> bool) \<Rightarrow> 's TableRegistry \<Rightarrow> 's \<Rightarrow> bool" where
  "flags_agree on lawful tr s \<longleftrightarrow>
     (\<forall>n m. map_of (tr_tables tr) n = Some m \<longrightarrow> lawful (tm_Table m) \<and> (on (ct_id (tm_Table m)) s \<longleftrightarrow> tm_Enabled m)) \<and>
     (\<forall>n m n' m'. map_of (tr_tables tr) n = Some m \<longrightarrow> map_of (tr_tables tr) n' = Some m' \<longrightarrow>
        ct_id (tm_Table m) = ct_id (tm_Table m') \<longrightarrow> n = n')"

text \<open>
  A table can also be switched directly, without the registry; for the tables \<open>X\<close> that are, the metadata
  may be wrong.
\<close>

definition flags_agree_but :: "nat set \<Rightarrow> (nat \<Rightarrow> 's \<Rightarrow> bool) \<Rightarrow> ('s core_table \<Rightarrow> bool) \<Rightarrow> 's TableRegistry \<Rightarrow> 's \<Rightarrow> bool" where
  "flags_agree_but X on lawful tr s \<longleftrightarrow>
     (\<forall>n m. map_of (tr_tables tr) n = Some m \<longrightarrow>
        lawful (tm_Table m) \<and> (ct_id (tm_Table m) \<in> X \<or> (on (ct_id (tm_Table m)) s \<longleftrightarrow> tm_Enabled m))) \<and>
     (\<forall>n m n' m'. map_of (tr_tables tr) n = Some m \<longrightarrow> map_of (tr_tables tr) n' = Some m' \<longrightarrow>
        ct_id (tm_Table m) = ct_id (tm_Table m') \<longrightarrow> n = n')"

lemma flags_agree_but_none: "flags_agree_but {} on lawful tr s = flags_agree on lawful tr s"
  by (simp add: flags_agree_but_def flags_agree_def)

text \<open>Hooks that leave the flags of the tables alone.\<close>

definition quiet_hooks :: "(nat \<Rightarrow> 's \<Rightarrow> bool) \<Rightarrow> 's LifecycleManager \<Rightarrow> bool" where
  "quiet_hooks on lm \<longleftrightarrow> (\<forall>h \<in> set (lm_hooks lm). \<forall>n sc s e s'.
     (hk_OnEnable h n sc s = (e, s') \<or> hk_OnDisable h n sc s = (e, s')) \<longrightarrow> (\<forall>i. on i s' = on i s))"

lemma hooks_keep_flags:
  assumes "quiet_hooks on lm" and "ExecuteEnableHooks n sc lm s = (e, s') \<or> ExecuteDisableHooks n sc lm s = (e, s')"
  shows "on i s' = on i s"
  using assms(2)
proof
  assume "ExecuteEnableHooks n sc lm s = (e, s')"
  from run_hooks_inv [where P = "\<lambda>x. on i x = on i s", OF this [unfolded ExecuteEnableHooks_def]] show ?thesis
    using assms(1) unfolding quiet_hooks_def by blast
next
  assume "ExecuteDisableHooks n sc lm s = (e, s')"
  from run_hooks_inv [where P = "\<lambda>x. on i x = on i s", OF this [unfolded ExecuteDisableHooks_def]] show ?thesis
    using assms(1) unfolding quiet_hooks_def by blast
qed

text \<open>What the registry relies on: switching a table sets its own flag and no other.\<close>

locale table_switch =
  fixes on :: "nat \<Rightarrow> 's \<Rightarrow> bool" and lawful :: "'s core_table \<Rightarrow> bool" and now :: "'s \<Rightarrow> gotime \<times> 's"
  assumes switch_on: "lawful t \<Longrightarrow> ct_EnableKV t s = (e, s') \<Longrightarrow> e = None \<and> (\<forall>i. on i s' \<longleftrightarrow> i = ct_id t \<or> on i s)"
    and switch_off: "lawful t \<Longrightarrow> ct_DisableKV t s = (e, s') \<Longrightarrow> e = None \<and> (\<forall>i. on i s' \<longleftrightarrow> i \<noteq> ct_id t \<and> on i s)"
    and clock: "now s = (ts, s') \<Longrightarrow> on i s' = on i s"
begin

lemma agree_update:
  assumes "flags_agree_but X on lawful tr s" and "map_of (tr_tables tr) n = Some m" and "tm_Table m' = tm_Table m"
    and "\<And>i. on i s' \<longleftrightarrow> (if i = ct_id (tm_Table m) then tm_Enabled m' else on i s)"
  shows "flags_agree_but X on lawful (tr\<lparr>tr_tables := gomap_set (tr_tables tr) n m'\<rparr>) s'"
  using assms unfolding flags_agree_but_def by (auto split: if_splits)

lemma enable_agrees:
  assumes "flags_agree_but X on lawful tr s" and "quiet_hooks on (tr_lifecycle tr)" and "tr_EnableKV now n tr s = (e, tr', s')"
  shows "flags_agree_but X on lawful tr' s' \<and>
    (if e = None then \<exists>m. map_of (tr_tables tr') n = Some m \<and> tm_Enabled m \<and> (ct_id (tm_Table m) \<notin> X \<longrightarrow> on (ct_id (tm_Table m)) s')
     else tr' = tr \<and> (\<forall>i. on i s' = on i s))"
proof (cases "map_of (tr_tables tr) n")
  case None
  then show ?thesis using assms by (auto simp: tr_EnableKV_def)
next
  case (Some m)
  show ?thesis
  proof (cases "tm_Enabled m")
    case True
    then show ?thesis using assms Some by (auto simp: tr_EnableKV_def flags_agree_but_def)
  next
    case False
    obtain e1 s1 where h: "ExecuteEnableHooks n (tm_Schema m) (tr_lifecycle tr) s = (e1, s1)" by (metis surj_pair)
    have k: "on i s1 = on i s" for i using hooks_keep_flags [OF assms(2), of n] h by blast
    show ?thesis
    proof (cases e1)
      case (Some err)
      then show ?thesis using assms \<open>map_of (tr_tables tr) n = Some m\<close> False h k by (auto simp: tr_EnableKV_def flags_agree_but_def)
    next
      case None
      obtain e2 s2 where x: "ct_EnableKV (tm_Table m) s1 = (e2, s2)" by (metis surj_pair)
      obtain ts s3 where c: "now s2 = (ts, s3)" by (metis surj_pair)
      have "lawful (tm_Table m)" using assms(1) Some by (simp add: flags_agree_but_def)
      note sw = switch_on [OF this x]
      let ?m = "m\<lparr>tm_Enabled := True, tm_EnabledAt := Some ts, tm_DisabledAt := None, tm_UpdatedAt := ts\<rparr>"
      have r: "e = None" "tr' = tr\<lparr>tr_tables := gomap_set (tr_tables tr) n ?m\<rparr>" "s' = s3"
        using assms(3) Some False h None x c sw by (auto simp: tr_EnableKV_def)
      have o: "on i s3 \<longleftrightarrow> (if i = ct_id (tm_Table m) then tm_Enabled ?m else on i s)" for i
        using clock [OF c] sw k by simp
      show ?thesis using agree_update [OF assms(1) Some _ o] r o by simp
    qed
  qed
qed

lemma disable_agrees:
  assumes "flags_agree_but X on lawful tr s" and "quiet_hooks on (tr_lifecycle tr)" and "tr_DisableKV now n tr s = (e, tr', s')"
  shows "flags_agree_but X on lawful tr' s' \<and>
    (if e = None then \<exists>m. map_of (tr_tables tr') n = Some m \<and> \<not> tm_Enabled m \<and> (ct_id (tm_Table m) \<notin> X \<longrightarrow> \<not> on (ct_id (tm_Table m)) s')
     else tr' = tr \<and> (\<forall>i. on i s' = on i s))"
proof (cases "map_of (tr_tables tr) n")
  case None
  then show ?thesis using assms by (auto simp: tr_DisableKV_def)
next
  case (Some m)
  show ?thesis
  proof (cases "tm_Enabled m")
    case False
    then show ?thesis using assms Some by (auto simp: tr_DisableKV_def flags_agree_but_def)
  next
    case True
    obtain e1 s1 where h: "ExecuteDisableHooks n (tm_Schema m) (tr_lifecycle tr) s = (e1, s1)" by (metis surj_pair)
    have k: "on i s1 = on i s" for i using hooks_keep_flags [OF assms(2), of n] h by blast
    show ?thesis
    proof (cases e1)
      case (Some err)
      then show ?thesis using assms \<open>map_of (tr_tables tr) n = Some m\<close> True h k by (auto simp: tr_DisableKV_def flags_agree_but_def)
    next
      case None
      obtain e2 s2 where x: "ct_DisableKV (tm_Table m) s1 = (e2, s2)" by (metis surj_pair)
      obtain ts s3 where c: "now s2 = (ts, s3)" by (metis surj_pair)
      have "lawful (tm_Table m)" using assms(1) Some by (simp add: flags_agree_but_def)
      note sw = switch_off [OF this x]
      let ?m = "m\<lparr>tm_Enabled := False, tm_DisabledAt := Some ts, tm_EnabledAt := None, tm_UpdatedAt := ts\<rparr>"
      have r: "e = None" "tr' = tr\<lparr>tr_tables := gomap_set (tr_tables tr) n ?m\<rparr>" "s' = s3"
        using assms(3) Some True h None x c sw by (auto simp: tr_DisableKV_def)
      have o: "on i s3 \<longleftrightarrow> (if i = ct_id (tm_Table m) then tm_Enabled ?m else on i s)" for i
        using clock [OF c] sw k by simp
      show ?thesis using agree_update [OF assms(1) Some _ o] r o by simp
    qed
  qed
qed

lemma register_agrees:
  assumes "flags_agree_but X on lawful tr s" and "lawful t" and "\<not> on (ct_id t) s" and "map_of (tr_tables tr) n = None"
    and "\<forall>n' m. map_of (tr_tables tr) n' = Some m \<longrightarrow> ct_id (tm_Table m) \<noteq> ct_id t"
    and "tr_Register now n (Some t) sch tr s = (e, tr', s')"
  shows "flags_agree_but X on lawful tr' s'"
  using tr_Register_cases [OF assms(6)]
proof
  assume "\<exists>t' sc ts. n \<noteq> [] \<and> Some t = Some t' \<and> sch = Some sc \<and> sch_TableName sc = n \<and> e = None \<and> now s = (ts, s') \<and>
     tr' = tr\<lparr>tr_tables := gomap_set (tr_tables tr) n (new_metadata n t' sc (GetTableConfig n (tr_configMgr tr)) ts (map_of (tr_tables tr) n))\<rparr>"
  then obtain sc ts where c: "now s = (ts, s')" and
    tr': "tr' = tr\<lparr>tr_tables := gomap_set (tr_tables tr) n (new_metadata n t sc (GetTableConfig n (tr_configMgr tr)) ts None)\<rparr>"
    using assms(4) by auto
  show ?thesis using assms(1-5) clock [OF c] unfolding tr' flags_agree_but_def by (auto simp: new_metadata_def split: if_splits) (metis assms(5))+
qed (use assms(1) in simp)

end

section \<open>The table implementation as a switch\<close>

text \<open>Table objects of the Redis world, numbered; the clock is the one of the first.\<close>

type_synonym table_heap = "nat \<Rightarrow> world tstate"

definition heap_table :: "nat \<Rightarrow> world TableImpl \<Rightarrow> table_heap core_table" where
  "heap_table i t = core_table_of i (\<lambda>h. h i) (\<lambda>ts h. h(i := ts)) t"

definition heap_on :: "nat \<Rightarrow> table_heap \<Rightarrow> bool" where
  "heap_on i h = ts_enabled (h i)"

definition heap_lawful :: "table_heap core_table \<Rightarrow> bool" where
  "heap_lawful ct \<longleftrightarrow> (\<exists>i t. ct = heap_table i t)"

definition heap_clock :: "table_heap \<Rightarrow> gotime \<times> table_heap" where
  "heap_clock = via (\<lambda>h. env (h 0)) (\<lambda>w h. h(0 := with_env w (h 0))) world_clock"

interpretation sw: table_switch heap_on heap_lawful heap_clock
proof (unfold_locales, goal_cases)
  case (1 t h e h')
  then show ?case by (auto simp: heap_lawful_def heap_table_def core_table_of_def via_iff EnableKV_def heap_on_def split: if_splits)
next
  case (2 t h e h')
  then show ?case by (auto simp: heap_lawful_def heap_table_def core_table_of_def via_iff DisableKV_def heap_on_def split: if_splits)
next
  case (3 h ts h' i)
  then show ?case by (auto simp: heap_clock_def via_iff heap_on_def split: if_splits)
qed

lemma heap_table_simps [simp]: "ct_id (heap_table i t) = i" "heap_lawful (heap_table i t)"
  by (auto simp: heap_table_def core_table_of_def heap_lawful_def)

section \<open>Properties\<close>

text \<open>
  C12. The registry's metadata is consistent in every reachable state. Whatever operations are called,
  with whatever hooks, failing or not: names are not empty, are the names of the schema, and are
  listed once; a table has a time of enabling exactly when it is enabled, and then none of disabling;
  the enabled and the disabled tables are disjoint and together are all tables.
\<close>

theorem registry_invariant:
  assumes "tr_step\<^sup>*\<^sup>* (NewTableRegistry cm l, s0) (tr, s)" and "mset (iter (tr_tables tr)) = mset (tr_tables tr)"
  shows "(\<forall>n m. map_of (tr_tables tr) n = Some m \<longrightarrow> n \<noteq> [] \<and> tm_TableName m = n \<and> sch_TableName (tm_Schema m) = n \<and>
      (tm_Enabled m \<longleftrightarrow> tm_EnabledAt m \<noteq> None) \<and> (tm_Enabled m \<longrightarrow> tm_DisabledAt m = None)) \<and>
    distinct (ListTables iter tr) \<and> int (length (ListTables iter tr)) = tr_Count tr \<and>
    set (ListEnabled iter tr) \<inter> set (ListDisabled iter tr) = {} \<and>
    set (ListEnabled iter tr) \<union> set (ListDisabled iter tr) = set (ListTables iter tr)"
proof -
  have ok: "reg_ok tr" using reg_ok_reachable [OF assms(1)] by (simp add: reg_ok_new)
  have d: "distinct (map fst (iter (tr_tables tr)))"
    using ok assms(2) unfolding reg_ok_def gomap_wf_def by (metis mset_eq_imp_distinct_iff mset_map)
  have "set (ListEnabled iter tr) \<inter> set (ListDisabled iter tr) = {}"
    using d unfolding ListEnabled_def ListDisabled_def by (auto dest: eq_key_imp_eq_value)
  moreover have "length (iter (tr_tables tr)) = length (tr_tables tr)" using assms(2) by (metis size_mset)
  moreover have "set (ListEnabled iter tr) \<union> set (ListDisabled iter tr) = set (ListTables iter tr)"
    by (force simp: ListEnabled_def ListDisabled_def ListTables_def)
  moreover have "n \<noteq> [] \<and> tm_TableName m = n \<and> sch_TableName (tm_Schema m) = n \<and> (tm_Enabled m \<longleftrightarrow> tm_EnabledAt m \<noteq> None) \<and>
      (tm_Enabled m \<longrightarrow> tm_DisabledAt m = None)" if "map_of (tr_tables tr) n = Some m" for n m
    using reg_ok_get [OF ok that] by (auto simp: meta_ok_def split: if_splits)
  ultimately show ?thesis using d by (simp add: ListTables_def tr_Count_def)
qed

text \<open>A registry with one table, the table before and after it was enabled.\<close>

definition ex_heap :: table_heap where
  "ex_heap i = \<lparr>ts_read = \<lparr>r_world = \<lparr>w_queue = \<lparr>rq_world = \<lparr>rs_server = \<lparr>rr_data = [], rr_now = 0\<rparr>, rs_closed = False\<rparr>, rq_closed = False\<rparr>,
     w_log = [], w_rows = (\<lambda>_. \<lparr>rows_data = [], rows_Err = None\<rparr>), w_down = False\<rparr>, r_pending = [], r_cleanups = [], r_fills = []\<rparr>, ts_enabled = False\<rparr>"

definition ex_impl :: "world TableImpl" where
  "ex_impl = fst (NewTableImpl ''users'' ex_schema world_kv world_db world_queue 0 [] world_clock utc (env (ex_heap 0)))"

definition ex_registry :: "table_heap TableRegistry" where
  "ex_registry = fst (snd (tr_Register heap_clock ''users'' (Some (heap_table 1 ex_impl)) (Some ex_schema)
     (NewTableRegistry NewConfigManager None) ex_heap))"

lemma heap_clock_total: "\<exists>ts h'. heap_clock h = (ts, h') \<and> (\<forall>i. ts_enabled (h' i) = ts_enabled (h i))"
  using sw.clock [of h] by (cases "heap_clock h") (auto simp: heap_on_def)

lemma ex_registers:
  obtains h where "tr_Register heap_clock ''users'' (Some (heap_table 1 ex_impl)) (Some ex_schema) (NewTableRegistry NewConfigManager None) ex_heap =
      (None, ex_registry, h)" "\<forall>i. \<not> heap_on i h"
    "map_option tm_Table (map_of (tr_tables ex_registry) ''users'') = Some (heap_table 1 ex_impl)"
    "map_option tm_Enabled (map_of (tr_tables ex_registry) ''users'') = Some False" "tr_lifecycle ex_registry = NewLifecycleManager"
    "map_of (tr_tables ex_registry) ''orders'' = None" "length (tr_tables ex_registry) = 1"
proof -
  obtain ts h where c: "heap_clock ex_heap = (ts, h)" "\<forall>i. ts_enabled (h i) = ts_enabled (ex_heap i)" using heap_clock_total by blast
  have "sch_TableName ex_schema = ''users''" by code_simp
  with c that [of h] show ?thesis
    by (simp add: ex_registry_def tr_Register_def new_metadata_def NewTableRegistry_def heap_on_def ex_heap_def gomap_set_def Let_def)
qed

theorem registry_invariant_witness:
  "distinct (ListTables (\<lambda>m. m) ex_registry) \<and> tr_Count ex_registry = 1"
proof -
  obtain h where h: "tr_Register heap_clock ''users'' (Some (heap_table 1 ex_impl)) (Some ex_schema) (NewTableRegistry NewConfigManager None) ex_heap =
      (None, ex_registry, h)" "length (tr_tables ex_registry) = 1" by (rule ex_registers)
  have "tr_step\<^sup>*\<^sup>* (NewTableRegistry NewConfigManager None, ex_heap) (ex_registry, h)"
    using tr_step.register [OF h(1)] by (rule r_into_rtranclp)
  from registry_invariant [OF this, of "\<lambda>m. m"] h(2) show ?thesis by (simp add: tr_Count_def)
qed

text \<open>
  C13. Enabling and disabling switch the table. When metadata and tables agree and the hooks leave the
  flags alone, they agree after every \<^verbatim>\<open>EnableKV\<close> and \<^verbatim>\<open>DisableKV\<close>; a call that succeeds leaves the table of
  that name, and its metadata, on or off, and a call that fails changes no flag and no metadata.
\<close>

theorem registry_switches_tables:
  assumes "table_switch on lawful now" and "flags_agree on lawful tr s" and "quiet_hooks on (tr_lifecycle tr)"
    and "tr_EnableKV now n tr s = (e1, tr1, s1)" and "tr_DisableKV now n tr s = (e2, tr2, s2)"
  shows "flags_agree on lawful tr1 s1 \<and> flags_agree on lawful tr2 s2 \<and>
    (if e1 = None then IsEnabled n tr1 = Inr True \<and> (\<exists>t. tr_Get n tr1 = Inr t \<and> on (ct_id t) s1) else tr1 = tr \<and> (\<forall>i. on i s1 = on i s)) \<and>
    (if e2 = None then IsEnabled n tr2 = Inr False \<and> (\<exists>t. tr_Get n tr2 = Inr t \<and> \<not> on (ct_id t) s2) else tr2 = tr \<and> (\<forall>i. on i s2 = on i s))"
  using table_switch.enable_agrees [OF assms(1), of "{}" tr s n e1 tr1 s1] table_switch.disable_agrees [OF assms(1), of "{}" tr s n e2 tr2 s2] assms(2-5)
  by (auto simp: IsEnabled_def tr_Get_def flags_agree_but_none split: if_splits)

theorem registry_switches_tables_witness:
  "\<exists>h tr1 h1. tr_EnableKV heap_clock ''users'' ex_registry h = (None, tr1, h1) \<and> \<not> heap_on 1 h \<and> heap_on 1 h1 \<and> IsEnabled ''users'' tr1 = Inr True"
proof -
  obtain h where h: "\<forall>i. \<not> heap_on i h" "map_option tm_Table (map_of (tr_tables ex_registry) ''users'') = Some (heap_table 1 ex_impl)"
    "map_option tm_Enabled (map_of (tr_tables ex_registry) ''users'') = Some False" "tr_lifecycle ex_registry = NewLifecycleManager"
    "length (tr_tables ex_registry) = 1" by (rule ex_registers)
  obtain m where m: "tr_tables ex_registry = [(''users'', m)]" "tm_Table m = heap_table 1 ex_impl" "\<not> tm_Enabled m"
    using h(2,3,5) by (cases "tr_tables ex_registry") (auto split: if_splits)
  have ag: "flags_agree heap_on heap_lawful ex_registry h" using h(1) m by (auto simp: flags_agree_def split: if_splits)
  have q: "quiet_hooks heap_on (tr_lifecycle ex_registry)" by (simp add: quiet_hooks_def h(4) NewLifecycleManager_def)
  obtain e1 tr1 h1 where e: "tr_EnableKV heap_clock ''users'' ex_registry h = (e1, tr1, h1)" by (metis surj_pair)
  obtain e2 tr2 h2 where d: "tr_DisableKV heap_clock ''users'' ex_registry h = (e2, tr2, h2)" by (metis surj_pair)
  have "e1 = None"
    using e m h(4) by (auto simp: tr_EnableKV_def ExecuteEnableHooks_def NewLifecycleManager_def heap_table_def core_table_of_def via_def
        EnableKV_def Let_def split: prod.splits)
  moreover have "tr_Get ''users'' tr1 = Inr t \<Longrightarrow> ct_id t = 1" for t
    using tr_EnableKV_cases [OF e] m by (auto simp: tr_Get_def gomap_set_def)
  ultimately show ?thesis
    using registry_switches_tables [OF sw.table_switch_axioms ag q e d] e h(1) by (metis (full_types))
qed

text \<open>
  A table registered again under an enabled name stays off. \<^verbatim>\<open>Register\<close> keeps the enabled state of the
  old metadata for the new table, which has never been enabled: the registry reports it as enabled,
  and \<^verbatim>\<open>EnableKV\<close> then succeeds at once without running hooks or touching the table.
\<close>

theorem reregistered_table_stays_off:
  assumes "map_of (tr_tables tr) n = Some m" and "tm_Enabled m" and "tr_Register now n (Some t) (Some sc) tr s = (None, tr', s')"
  shows "tr_Get n tr' = Inr t \<and> IsEnabled n tr' = Inr True \<and> tr_EnableKV now n tr' s' = (None, tr', s')"
  using assms
  by (auto simp: tr_Register_def new_metadata_def tr_Get_def IsEnabled_def tr_EnableKV_def Let_def split: if_splits prod.splits)

theorem reregistered_table_stays_off_witness:
  "\<exists>h tr1 h1 tr2 h2. tr_EnableKV heap_clock ''users'' ex_registry h = (None, tr1, h1) \<and>
     tr_Register heap_clock ''users'' (Some (heap_table 2 ex_impl)) (Some ex_schema) tr1 h1 = (None, tr2, h2) \<and>
     tr_EnableKV heap_clock ''users'' tr2 h2 = (None, tr2, h2) \<and> IsEnabled ''users'' tr2 = Inr True \<and> \<not> heap_on 2 h2"
proof -
  obtain h where h: "\<forall>i. \<not> heap_on i h" "map_option tm_Table (map_of (tr_tables ex_registry) ''users'') = Some (heap_table 1 ex_impl)"
    "map_option tm_Enabled (map_of (tr_tables ex_registry) ''users'') = Some False" "tr_lifecycle ex_registry = NewLifecycleManager"
    "length (tr_tables ex_registry) = 1" by (rule ex_registers)
  obtain m where m: "tr_tables ex_registry = [(''users'', m)]" "tm_Table m = heap_table 1 ex_impl" "\<not> tm_Enabled m"
    using h(2,3,5) by (cases "tr_tables ex_registry") (auto split: if_splits)
  obtain x h0 where x: "ct_EnableKV (heap_table 1 ex_impl) h = (x, h0)" by (metis surj_pair)
  have x': "x = None" "\<not> heap_on 2 h0" using sw.switch_on [OF _ x] h(1) by auto
  obtain ts h1 where c1: "heap_clock h0 = (ts, h1)" by (metis surj_pair)
  obtain ts' h2 where c2: "heap_clock h1 = (ts', h2)" by (metis surj_pair)
  have off: "\<not> heap_on 2 h2" using sw.clock [OF c1] sw.clock [OF c2] x'(2) by simp
  let ?m = "m\<lparr>tm_Enabled := True, tm_EnabledAt := Some ts, tm_DisabledAt := None, tm_UpdatedAt := ts\<rparr>"
  let ?tr1 = "ex_registry\<lparr>tr_tables := [(''users'', ?m)]\<rparr>"
  have e: "tr_EnableKV heap_clock ''users'' ex_registry h = (None, ?tr1, h1)"
    using m h(4) x x'(1) c1 by (simp add: tr_EnableKV_def ExecuteEnableHooks_def NewLifecycleManager_def gomap_set_def)
  have "sch_TableName ex_schema = ''users''" by code_simp
  then obtain tr2 where r: "tr_Register heap_clock ''users'' (Some (heap_table 2 ex_impl)) (Some ex_schema) ?tr1 h1 = (None, tr2, h2)"
    using c2 by (simp add: tr_Register_def Let_def)
  have "tr_Get ''users'' tr2 = Inr (heap_table 2 ex_impl) \<and> IsEnabled ''users'' tr2 = Inr True \<and>
      tr_EnableKV heap_clock ''users'' tr2 h2 = (None, tr2, h2)"
    by (rule reregistered_table_stays_off [OF _ _ r, of ?m]) simp_all
  then show ?thesis using e r off by blast
qed

text \<open>
  A failed enable is not rolled back. When a hook fails, the hooks before it have run and what they
  did stays, together with what the failing hook did; the table itself is not switched and the
  metadata is as before, so the next attempt runs the earlier hooks again.
\<close>

theorem failed_enable_keeps_hook_effects:
  assumes "map_of (tr_tables tr) n = Some m" and "\<not> tm_Enabled m" and "lm_hooks (tr_lifecycle tr) = before @ h # rest"
    and "run_hooks (\<lambda>k. hk_OnEnable k n (tm_Schema m)) before s = (None, s1)" and "hk_OnEnable h n (tm_Schema m) s1 = (Some err, s2)"
  shows "tr_EnableKV now n tr s = (Some (Wrapf ''enable hook failed for table %q: %w'' [n] err), tr, s2)"
  using assms by (simp add: tr_EnableKV_def ExecuteEnableHooks_def run_hooks_append)

theorem failed_enable_keeps_hook_effects_witness:
  "let h = LifecycleHookFunc (Some (\<lambda>_ _ s. (None, s(5 := (s 5)\<lparr>ts_enabled := True\<rparr>)))) None;
       k = LifecycleHookFunc (Some (\<lambda>_ _ s. (Some ErrInvalidOperation, s))) None;
       tr = ex_registry\<lparr>tr_lifecycle := \<lparr>lm_hooks = [h, k]\<rparr>\<rparr>
   in tr_EnableKV heap_clock ''users'' tr ex_heap =
        (Some (Wrapf ''enable hook failed for table %q: %w'' [''users''] ErrInvalidOperation), tr, ex_heap(5 := (ex_heap 5)\<lparr>ts_enabled := True\<rparr>))"
proof -
  have "map_option tm_Enabled (map_of (tr_tables ex_registry) ''users'') = Some False" by (rule ex_registers)
  then obtain m where m: "map_of (tr_tables ex_registry) ''users'' = Some m" "\<not> tm_Enabled m" by auto
  let ?h = "LifecycleHookFunc (Some (\<lambda>_ _ s. (None, s(5 := (s 5)\<lparr>ts_enabled := True\<rparr>)))) None :: table_heap LifecycleHook"
  let ?k = "LifecycleHookFunc (Some (\<lambda>_ _ s. (Some ErrInvalidOperation, s))) None :: table_heap LifecycleHook"
  let ?tr = "ex_registry\<lparr>tr_lifecycle := \<lparr>lm_hooks = [?h, ?k]\<rparr>\<rparr>"
  show ?thesis unfolding Let_def
    by (rule failed_enable_keeps_hook_effects [of ?tr "''users''" m "[?h]" ?k "[]" ex_heap "ex_heap(5 := (ex_heap 5)\<lparr>ts_enabled := True\<rparr>)"])
      (simp_all add: m LifecycleHookFunc_def hook_call_def)
qed

end
