(* ===== verification/MySQL_Database.thy ===== *)
theory MySQL_Database
  imports Core_Types "HOL-Library.Multiset"
begin

text \<open>
  \<^verbatim>\<open>internal/database/mysql.go\<close>: the database over \<^verbatim>\<open>database/sql\<close> and the MySQL driver, which are the
  parameter \<open>sql_db\<close>; its state is \<open>'d\<close>. A result set is the list of the rows that \<^verbatim>\<open>Next\<close> and \<^verbatim>\<open>Scan\<close>
  deliver, as driver values, and the error that \<^verbatim>\<open>Err\<close> reports at the end.
\<close>

section \<open>Parameters\<close>

record 'd sql_tx =
  tx_Commit :: "'d \<Rightarrow> gerror option \<times> 'd"
  tx_Rollback :: "'d \<Rightarrow> gerror option \<times> 'd"
  tx_Query :: "string \<Rightarrow> goval list \<Rightarrow> 'd \<Rightarrow> rows res \<times> 'd"
  tx_Exec :: "string \<Rightarrow> goval list \<Rightarrow> 'd \<Rightarrow> exec_result res \<times> 'd"

record 'd sql_db =
  sql_Query :: "string \<Rightarrow> goval list \<Rightarrow> 'd \<Rightarrow> rows res \<times> 'd"
  sql_Exec :: "string \<Rightarrow> goval list \<Rightarrow> 'd \<Rightarrow> exec_result res \<times> 'd"
  sql_BeginTx :: "'d \<Rightarrow> 'd sql_tx res \<times> 'd"
  sql_Close :: "'d \<Rightarrow> gerror option \<times> 'd"
  sql_SetPool :: "int \<Rightarrow> int \<Rightarrow> int \<Rightarrow> int \<Rightarrow> 'd \<Rightarrow> 'd"
  sql_Ping :: "int \<Rightarrow> 'd \<Rightarrow> gerror option \<times> 'd"

text \<open>\<^verbatim>\<open>time.Duration.String\<close>, used for the timeout in the data source name.\<close>

definition dur_frac :: "nat \<Rightarrow> nat \<Rightarrow> string \<times> nat" where
  "dur_frac prec v =
     (let ds = trim_zeros (pad0 prec (v mod 10 ^ prec))
      in (if v mod 10 ^ prec = 0 then [] else CHR ''.'' # ds, v div 10 ^ prec))"

definition Duration_String :: "int \<Rightarrow> string" where
  "Duration_String d =
     (let u = nat \<bar>d\<bar>;
          small = (\<lambda>prec unit. let (f, i) = dur_frac prec u in show_nat i @ f @ unit);
          body = (if u = 0 then ''0s''
            else if u < 1000 then small 0 ''ns''
            else if u < 1000000 then small 3 [CHR 0xC2, CHR 0xB5, CHR ''s'']
            else if u < 1000000000 then small 6 ''ms''
            else let (f, secs) = dur_frac 9 u; mins = secs div 60; hours = mins div 60
                 in (if 0 < hours then show_nat hours @ ''h'' else []) @ (if 0 < mins then show_nat (mins mod 60) @ ''m'' else []) @
                    show_nat (secs mod 60) @ f @ ''s'')
      in if d < 0 then CHR ''-'' # body else body)"

section \<open>Operations\<close>

record 'd mysql_state =
  my_db :: 'd
  my_closed :: bool

definition on_db :: "('d \<Rightarrow> 'a \<times> 'd) \<Rightarrow> 'd mysql_state \<Rightarrow> 'a \<times> 'd mysql_state" where
  "on_db f m = (let (x, d) = f (my_db m) in (x, m\<lparr>my_db := d\<rparr>))"

definition database_closed :: gerror where
  "database_closed = Errorf ''database is closed'' []"

definition mysql_dsn :: "string \<Rightarrow> int \<Rightarrow> string \<Rightarrow> string \<Rightarrow> string \<Rightarrow> int \<Rightarrow> string" where
  "mysql_dsn host port database username password connectionTimeout =
     username @ '':'' @ password @ ''@tcp('' @ host @ '':'' @ show_int port @ '')/'' @ database @ ''?parseTime=true&timeout='' @
     Duration_String connectionTimeout"

definition NewMySQLDatabase :: "(string \<Rightarrow> 'd \<Rightarrow> 'd sql_db res \<times> 'd) \<Rightarrow> string \<Rightarrow> int \<Rightarrow> string \<Rightarrow> string \<Rightarrow> string \<Rightarrow> int \<Rightarrow> int \<Rightarrow> int \<Rightarrow>
    int \<Rightarrow> int \<Rightarrow> 'd \<Rightarrow> ('d sql_db \<times> 'd mysql_state) res \<times> 'd" where
  "NewMySQLDatabase sql_Open host port database username password maxOpenConns maxIdleConns connMaxLifetime connMaxIdleTime
       connectionTimeout d =
     (case sql_Open (mysql_dsn host port database username password connectionTimeout) d of
        (Inl err, d1) \<Rightarrow> (Inl (Wrapf ''failed to open database: %w'' [] err), d1)
      | (Inr db, d1) \<Rightarrow>
          (let d2 = sql_SetPool db maxOpenConns maxIdleConns connMaxLifetime connMaxIdleTime d1 in
           case sql_Ping db connectionTimeout d2 of
             (Some err, d3) \<Rightarrow> (Inl (Wrapf ''failed to ping database: %w'' [] err), d3)
           | (None, d3) \<Rightarrow> (Inr (db, \<lparr>my_db = d3, my_closed = False\<rparr>), d3)))"

definition MySQL_Query :: "'d sql_db \<Rightarrow> string \<Rightarrow> goval list \<Rightarrow> 'd mysql_state \<Rightarrow> rows res \<times> 'd mysql_state" where
  "MySQL_Query db query args m =
     (if my_closed m then (Inl database_closed, m)
      else case on_db (sql_Query db query args) m of
        (Inl err, m1) \<Rightarrow> (Inl (Wrapf ''failed to execute query: %w'' [] err), m1)
      | (Inr rs, m1) \<Rightarrow> (Inr rs, m1))"

definition MySQL_Exec :: "'d sql_db \<Rightarrow> string \<Rightarrow> goval list \<Rightarrow> 'd mysql_state \<Rightarrow> exec_result res \<times> 'd mysql_state" where
  "MySQL_Exec db query args m =
     (if my_closed m then (Inl database_closed, m)
      else case on_db (sql_Exec db query args) m of
        (Inl err, m1) \<Rightarrow> (Inl (Wrapf ''failed to execute statement: %w'' [] err), m1)
      | (Inr result, m1) \<Rightarrow> (Inr result, m1))"

definition MySQL_BeginTx :: "'d sql_db \<Rightarrow> 'd mysql_state \<Rightarrow> 'd sql_tx res \<times> 'd mysql_state" where
  "MySQL_BeginTx db m =
     (if my_closed m then (Inl database_closed, m)
      else case on_db (sql_BeginTx db) m of
        (Inl err, m1) \<Rightarrow> (Inl (Wrapf ''failed to begin transaction: %w'' [] err), m1)
      | (Inr tx, m1) \<Rightarrow> (Inr tx, m1))"

text \<open>
  \<^verbatim>\<open>Scan\<close> into strings, a \<^verbatim>\<open>sql.NullString\<close> and an int. The driver delivers text as bytes or strings and
  integers as int64; the result sets of the schema queries hold nothing else but NULL.
\<close>

fun scan_string :: "goval \<Rightarrow> string res" where
  "scan_string (VString s) = Inr s"
| "scan_string (VBytes s) = Inr s"
| "scan_string (VInt64 i) = Inr (show_int (sint i))"
| "scan_string v = Inl (Errorf ''sql: unsupported Scan, storing driver.Value type %s into type *string'' [type_name v])"

definition scan_null_string :: "goval \<Rightarrow> string option res" where
  "scan_null_string v = (if v = VNil then Inr None else case scan_string v of Inl e \<Rightarrow> Inl e | Inr s \<Rightarrow> Inr (Some s))"

definition scan_int :: "goval \<Rightarrow> int res" where
  "scan_int v = (case scan_string v of Inl e \<Rightarrow> Inl e
     | Inr s \<Rightarrow> (case ParseInt 64 s of None \<Rightarrow> Inl (Errorf ''converting driver.Value type to a int: invalid syntax'' [s]) | Some i \<Rightarrow> Inr i))"

definition scan_count :: "nat \<Rightarrow> goval list \<Rightarrow> gerror" where
  "scan_count n vs = Errorf ''sql: expected %d destination arguments in Scan, not %d'' [show_nat (length vs), show_nat n]"

definition scan_column :: "goval list \<Rightarrow> (column \<times> string) res" where
  "scan_column vs =
     (case vs of
        [v1, v2, v3, v4, v5] \<Rightarrow>
          (case scan_string v1 of Inl e \<Rightarrow> Inl e | Inr colName \<Rightarrow>
          (case scan_string v2 of Inl e \<Rightarrow> Inl e | Inr dataType \<Rightarrow>
          (case scan_string v3 of Inl e \<Rightarrow> Inl e | Inr isNullable \<Rightarrow>
          (case scan_null_string v4 of Inl e \<Rightarrow> Inl e | Inr colDefault \<Rightarrow>
          (case scan_string v5 of Inl e \<Rightarrow> Inl e | Inr columnKey \<Rightarrow>
             Inr (\<lparr>col_Name = colName, col_Type = dataType, col_Nullable = (isNullable = ''YES''),
                   col_Default = (case colDefault of None \<Rightarrow> VNil | Some s \<Rightarrow> VString s)\<rparr>, columnKey))))))
      | _ \<Rightarrow> Inl (scan_count 5 vs))"

fun scan_columns :: "goval list res list \<Rightarrow> schema \<Rightarrow> schema res" where
  "scan_columns [] schema = Inr schema"
| "scan_columns (row # rs) schema =
     (case (case row of Inl e \<Rightarrow> Inl e | Inr vs \<Rightarrow> scan_column vs) of
        Inl err \<Rightarrow> Inl (Wrapf ''failed to scan column: %w'' [] err)
      | Inr (c, columnKey) \<Rightarrow>
          scan_columns rs (schema\<lparr>sch_PrimaryKey := (if columnKey = ''PRI'' then col_Name c else sch_PrimaryKey schema),
                                  sch_Columns := sch_Columns schema @ [c]\<rparr>))"

definition scan_index :: "goval list \<Rightarrow> (string \<times> string \<times> int) res" where
  "scan_index vs =
     (case vs of
        [v1, v2, v3] \<Rightarrow>
          (case scan_string v1 of Inl e \<Rightarrow> Inl e | Inr indexName \<Rightarrow>
          (case scan_string v2 of Inl e \<Rightarrow> Inl e | Inr columnName \<Rightarrow>
          (case scan_int v3 of Inl e \<Rightarrow> Inl e | Inr nonUnique \<Rightarrow> Inr (indexName, columnName, nonUnique))))
      | _ \<Rightarrow> Inl (scan_count 3 vs))"

definition add_index :: "string \<times> string \<times> int \<Rightarrow> index gomap \<Rightarrow> index gomap" where
  "add_index row m =
     (case row of (indexName, columnName, nonUnique) \<Rightarrow>
        (case map_of m indexName of
           Some i \<Rightarrow> gomap_set m indexName (i\<lparr>idx_Columns := idx_Columns i @ [columnName]\<rparr>)
         | None \<Rightarrow> gomap_set m indexName \<lparr>idx_Name = indexName, idx_Columns = [columnName], idx_Unique = (nonUnique = 0),
                     idx_Primary = (indexName = ''PRIMARY'')\<rparr>))"

fun scan_indexes :: "goval list res list \<Rightarrow> index gomap \<Rightarrow> index gomap res" where
  "scan_indexes [] m = Inr m"
| "scan_indexes (row # rs) m =
     (case (case row of Inl e \<Rightarrow> Inl e | Inr vs \<Rightarrow> scan_index vs) of
        Inl err \<Rightarrow> Inl (Wrapf ''failed to scan index: %w'' [] err)
      | Inr r \<Rightarrow> scan_indexes rs (add_index r m))"

text \<open>The texts of the queries, with single blanks for white space.\<close>

definition columns_query :: string where
  "columns_query = ''SELECT COLUMN_NAME, DATA_TYPE, IS_NULLABLE, COLUMN_DEFAULT, COLUMN_KEY FROM INFORMATION_SCHEMA.COLUMNS '' @
     ''WHERE TABLE_SCHEMA = DATABASE() AND TABLE_NAME = ? ORDER BY ORDINAL_POSITION''"

definition index_query :: string where
  "index_query = ''SELECT INDEX_NAME, COLUMN_NAME, NON_UNIQUE FROM INFORMATION_SCHEMA.STATISTICS '' @
     ''WHERE TABLE_SCHEMA = DATABASE() AND TABLE_NAME = ? ORDER BY INDEX_NAME, SEQ_IN_INDEX''"

definition tables_query :: string where
  "tables_query = ''SELECT TABLE_NAME FROM INFORMATION_SCHEMA.TABLES WHERE TABLE_SCHEMA = DATABASE() AND TABLE_TYPE = 'BASE TABLE'' @ [CHR 0x27]"

text \<open>The indexes come out of a map, in the order \<open>iter\<close> gives. The error of the index rows is not asked for.\<close>

definition MySQL_GetSchema :: "'d sql_db \<Rightarrow> (index gomap \<Rightarrow> (string \<times> index) list) \<Rightarrow> string \<Rightarrow> 'd mysql_state \<Rightarrow>
    schema option res \<times> 'd mysql_state" where
  "MySQL_GetSchema db iter tableName m =
     (if my_closed m then (Inl database_closed, m)
      else case on_db (sql_Query db columns_query [VString tableName]) m of
        (Inl err, m1) \<Rightarrow> (Inl (Wrapf ''failed to query columns: %w'' [] err), m1)
      | (Inr rs, m1) \<Rightarrow>
          (case scan_columns (rows_data rs) \<lparr>sch_TableName = tableName, sch_PrimaryKey = [], sch_Columns = [], sch_Indexes = []\<rparr> of
             Inl err \<Rightarrow> (Inl err, m1)
           | Inr schema \<Rightarrow>
               (case rows_Err rs of
                  Some err \<Rightarrow> (Inl (Wrapf ''error iterating columns: %w'' [] err), m1)
                | None \<Rightarrow>
                    if sch_PrimaryKey schema = [] then (Inl (Errorf ''table %s does not have a primary key'' [tableName]), m1)
                    else case on_db (sql_Query db index_query [VString tableName]) m1 of
                      (Inl err, m2) \<Rightarrow> (Inl (Wrapf ''failed to query indexes: %w'' [] err), m2)
                    | (Inr irs, m2) \<Rightarrow>
                        (case scan_indexes (rows_data irs) [] of
                           Inl err \<Rightarrow> (Inl err, m2)
                         | Inr indexMap \<Rightarrow> (Inr (Some (schema\<lparr>sch_Indexes := map snd (iter indexMap)\<rparr>)), m2)))))"

fun scan_names :: "goval list res list \<Rightarrow> string list res" where
  "scan_names [] = Inr []"
| "scan_names (row # rs) =
     (case (case row of Inl e \<Rightarrow> Inl e | Inr [v] \<Rightarrow> scan_string v | Inr vs \<Rightarrow> Inl (scan_count 1 vs)) of
        Inl err \<Rightarrow> Inl (Wrapf ''failed to scan table name: %w'' [] err)
      | Inr n \<Rightarrow> (case scan_names rs of Inl e \<Rightarrow> Inl e | Inr ns \<Rightarrow> Inr (n # ns)))"

text \<open>\<^verbatim>\<open>GetTables\<close> returns the names together with the error of the rows; here the error alone.\<close>

definition MySQL_GetTables :: "'d sql_db \<Rightarrow> 'd mysql_state \<Rightarrow> string list res \<times> 'd mysql_state" where
  "MySQL_GetTables db m =
     (if my_closed m then (Inl database_closed, m)
      else case on_db (sql_Query db tables_query []) m of
        (Inl err, m1) \<Rightarrow> (Inl (Wrapf ''failed to query tables: %w'' [] err), m1)
      | (Inr rs, m1) \<Rightarrow>
          (case scan_names (rows_data rs) of
             Inl err \<Rightarrow> (Inl err, m1)
           | Inr names \<Rightarrow> (case rows_Err rs of Some err \<Rightarrow> (Inl err, m1) | None \<Rightarrow> (Inr names, m1))))"

definition MySQL_Close :: "'d sql_db \<Rightarrow> 'd mysql_state \<Rightarrow> gerror option \<times> 'd mysql_state" where
  "MySQL_Close db m = (if my_closed m then (None, m) else on_db (sql_Close db) (m\<lparr>my_closed := True\<rparr>))"

text \<open>The transaction wraps what it calls without a change.\<close>

definition mysqlTransaction_Query :: "'d sql_tx \<Rightarrow> string \<Rightarrow> goval list \<Rightarrow> 'd mysql_state \<Rightarrow> rows res \<times> 'd mysql_state" where
  "mysqlTransaction_Query tx query args m = on_db (tx_Query tx query args) m"

definition mysqlTransaction_Exec :: "'d sql_tx \<Rightarrow> string \<Rightarrow> goval list \<Rightarrow> 'd mysql_state \<Rightarrow> exec_result res \<times> 'd mysql_state" where
  "mysqlTransaction_Exec tx query args m = on_db (tx_Exec tx query args) m"

definition mysqlTransaction_Commit :: "'d sql_tx \<Rightarrow> 'd mysql_state \<Rightarrow> gerror option \<times> 'd mysql_state" where
  "mysqlTransaction_Commit tx m = on_db (tx_Commit tx) m"

definition mysqlTransaction_Rollback :: "'d sql_tx \<Rightarrow> 'd mysql_state \<Rightarrow> gerror option \<times> 'd mysql_state" where
  "mysqlTransaction_Rollback tx m = on_db (tx_Rollback tx) m"

text \<open>The database interface of the program.\<close>

definition mysql_database :: "'d sql_db \<Rightarrow> (index gomap \<Rightarrow> (string \<times> index) list) \<Rightarrow> 'd mysql_state database" where
  "mysql_database db iter = \<lparr>db_Query = MySQL_Query db, db_Exec = MySQL_Exec db, db_GetSchema = MySQL_GetSchema db iter,
     db_GetTables = MySQL_GetTables db, db_Close = MySQL_Close db\<rparr>"

section \<open>Lemmas\<close>

text \<open>What a row of the two queries says when it can be scanned.\<close>

definition column_of :: "goval list res \<Rightarrow> (column \<times> string) option" where
  "column_of row = (case row of Inl _ \<Rightarrow> None | Inr vs \<Rightarrow> (case scan_column vs of Inl _ \<Rightarrow> None | Inr c \<Rightarrow> Some c))"

definition index_row_of :: "goval list res \<Rightarrow> (string \<times> string \<times> int) option" where
  "index_row_of row = (case row of Inl _ \<Rightarrow> None | Inr vs \<Rightarrow> (case scan_index vs of Inl _ \<Rightarrow> None | Inr r \<Rightarrow> Some r))"

lemma scan_columns_ok:
  assumes "scan_columns rs sc = Inr sc'"
  shows "\<exists>cs. map column_of rs = map Some cs \<and> sch_Columns sc' = sch_Columns sc @ map fst cs \<and> sch_TableName sc' = sch_TableName sc \<and>
    sch_Indexes sc' = sch_Indexes sc \<and>
    sch_PrimaryKey sc' = last (sch_PrimaryKey sc # map (\<lambda>c. col_Name (fst c)) (filter (\<lambda>c. snd c = ''PRI'') cs))"
  using assms
proof (induction rs arbitrary: sc)
  case (Cons row rs)
  obtain c k where c: "column_of row = Some (c, k)"
    and r: "scan_columns rs (sc\<lparr>sch_PrimaryKey := (if k = ''PRI'' then col_Name c else sch_PrimaryKey sc), sch_Columns := sch_Columns sc @ [c]\<rparr>) = Inr sc'"
    using Cons.prems by (auto simp: column_of_def split: sum.splits)
  from Cons.IH [OF r] obtain cs where "map column_of rs = map Some cs" "sch_Columns sc' = sch_Columns sc @ [c] @ map fst cs"
    "sch_TableName sc' = sch_TableName sc" "sch_Indexes sc' = sch_Indexes sc"
    "sch_PrimaryKey sc' = last ((if k = ''PRI'' then col_Name c else sch_PrimaryKey sc) # map (\<lambda>c. col_Name (fst c)) (filter (\<lambda>c. snd c = ''PRI'') cs))"
    by auto
  then show ?case using c by (intro exI [of _ "(c, k) # cs"]) auto
qed simp

text \<open>The map of the indexes after some rows: every index once, with its columns in the order of the rows.\<close>

lemma add_index_get:
  "map_of (add_index (n, c, u) m) i =
     (if i \<noteq> n then map_of m i
      else Some (case map_of m n of Some x \<Rightarrow> x\<lparr>idx_Columns := idx_Columns x @ [c]\<rparr>
        | None \<Rightarrow> \<lparr>idx_Name = n, idx_Columns = [c], idx_Unique = (u = 0), idx_Primary = (n = ''PRIMARY'')\<rparr>))"
  by (auto simp: add_index_def split: option.split)

lemma scan_indexes_ok:
  assumes "scan_indexes rs m = Inr m'" and "gomap_wf m"
  shows "gomap_wf m' \<and> (\<exists>ixs. map index_row_of rs = map Some ixs \<and> m' = fold add_index ixs m)"
  using assms
proof (induction rs arbitrary: m)
  case (Cons row rs)
  obtain r where r: "index_row_of row = Some r" "scan_indexes rs (add_index r m) = Inr m'"
    using Cons.prems(1) by (auto simp: index_row_of_def split: sum.splits)
  have "gomap_wf (add_index r m)" using Cons.prems(2) by (auto simp: add_index_def split: prod.split option.split)
  from Cons.IH [OF r(2) this] obtain rows where "gomap_wf m'" "map index_row_of rs = map Some rows" "m' = fold add_index rows (add_index r m)" by blast
  then show ?case using r(1) by (intro conjI exI [of _ "r # rows"]) simp_all
qed simp

lemma fold_add_index:
  "map_of (fold add_index rows m) i =
     (case map (\<lambda>r. fst (snd r)) (filter (\<lambda>r. fst r = i) rows) of
        [] \<Rightarrow> map_of m i
      | c # cs \<Rightarrow> Some (case map_of m i of
            Some x \<Rightarrow> x\<lparr>idx_Columns := idx_Columns x @ c # cs\<rparr>
          | None \<Rightarrow> \<lparr>idx_Name = i, idx_Columns = c # cs, idx_Unique = (snd (snd (hd (filter (\<lambda>r. fst r = i) rows))) = 0),
                     idx_Primary = (i = ''PRIMARY'')\<rparr>))"
proof (induction rows arbitrary: m)
  case (Cons r rows)
  obtain n c u where r: "r = (n, c, u)" by (cases r)
  show ?case
    by (cases "n = i") (auto simp: r Cons.IH add_index_get split: option.splits list.splits)
qed simp

section \<open>Properties\<close>

text \<open>
  C19. Schema discovery. When \<^verbatim>\<open>GetSchema\<close> succeeds, the schema bears the table's name; its columns are the
  rows of the first query, in order; the primary key is the last column marked PRI, so it is one of the
  columns, and of a key of several columns only the last is kept; every index name occurs once, with
  its columns in the order of the rows of the second query, unique as its first row says.
\<close>

theorem discovered_schema:
  assumes "MySQL_GetSchema db iter tableName m = (Inr (Some sc), m')" and "\<And>x. mset (iter x) = mset x"
  shows "\<exists>rs cs irs ixs d1. sql_Query db columns_query [VString tableName] (my_db m) = (Inr rs, d1) \<and> map column_of (rows_data rs) = map Some cs \<and>
    sql_Query db index_query [VString tableName] d1 = (Inr irs, my_db m') \<and> map index_row_of (rows_data irs) = map Some ixs \<and>
    sch_TableName sc = tableName \<and> sch_Columns sc = map fst cs \<and>
    sch_PrimaryKey sc = last ([] # map (\<lambda>c. col_Name (fst c)) (filter (\<lambda>c. snd c = ''PRI'') cs)) \<and> find_column sc (sch_PrimaryKey sc) \<noteq> None \<and>
    distinct (map idx_Name (sch_Indexes sc)) \<and> set (map idx_Name (sch_Indexes sc)) = fst ` set ixs \<and>
    (\<forall>x \<in> set (sch_Indexes sc). idx_Columns x = map (\<lambda>r. fst (snd r)) (filter (\<lambda>r. fst r = idx_Name x) ixs))"
proof -
  let ?sc0 = "\<lparr>sch_TableName = tableName, sch_PrimaryKey = [], sch_Columns = [], sch_Indexes = []\<rparr>"
  obtain rs d1 irs d2 sc1 im where q: "sql_Query db columns_query [VString tableName] (my_db m) = (Inr rs, d1)"
    "scan_columns (rows_data rs) ?sc0 = Inr sc1" "sch_PrimaryKey sc1 \<noteq> []" "sql_Query db index_query [VString tableName] d1 = (Inr irs, my_db m')"
    "scan_indexes (rows_data irs) [] = Inr im" "sc = sc1\<lparr>sch_Indexes := map snd (iter im)\<rparr>"
    using assms(1) by (auto simp: MySQL_GetSchema_def on_db_def Let_def split: if_splits prod.splits sum.splits option.splits)
  obtain cs where cs: "map column_of (rows_data rs) = map Some cs" "sch_Columns sc1 = map fst cs" "sch_TableName sc1 = tableName"
    "sch_PrimaryKey sc1 = last ([] # map (\<lambda>c. col_Name (fst c)) (filter (\<lambda>c. snd c = ''PRI'') cs))"
    using scan_columns_ok [OF q(2)] by auto
  obtain ixs where ixs: "gomap_wf im" "map index_row_of (rows_data irs) = map Some ixs" "im = fold add_index ixs []"
    using scan_indexes_ok [OF q(5)] by auto
  let ?pk = "map (\<lambda>c. col_Name (fst c)) (filter (\<lambda>c. snd c = ''PRI'') cs)"
  have "?pk \<noteq> []" using q(3) cs(4) by auto
  then have "sch_PrimaryKey sc1 \<in> set ?pk" using cs(4) by (metis last.simps last_in_set)
  then have "sch_PrimaryKey sc \<in> col_Name ` set (sch_Columns sc)" using cs(2) q(6) by (auto intro: image_eqI [of _ _ "(_, ''PRI'')"] rev_image_eqI)
  then have pk: "find_column sc (sch_PrimaryKey sc) \<noteq> None" by (simp add: find_column_None)
  have get: "map_of im i = (case map (\<lambda>r. fst (snd r)) (filter (\<lambda>r. fst r = i) ixs) of [] \<Rightarrow> None
      | c # cs \<Rightarrow> Some \<lparr>idx_Name = i, idx_Columns = c # cs, idx_Unique = (snd (snd (hd (filter (\<lambda>r. fst r = i) ixs))) = 0),
          idx_Primary = (i = ''PRIMARY'')\<rparr>)" for i
    unfolding ixs(3) fold_add_index by (simp split: list.split)
  have nm: "idx_Name x = i \<and> idx_Columns x = map (\<lambda>r. fst (snd r)) (filter (\<lambda>r. fst r = i) ixs)" if "(i, x) \<in> set im" for i x
    using get [of i] that ixs(1) by (auto simp: gomap_mem_iff split: list.splits)
  have dom: "fst ` set im = fst ` set ixs"
  proof -
    have "map_of im i = None \<longleftrightarrow> filter (\<lambda>r. fst r = i) ixs = []" for i
      by (cases "filter (\<lambda>r. fst r = i) ixs") (simp_all add: get)
    then have "map_of im i \<noteq> None \<longleftrightarrow> i \<in> fst ` set ixs" for i by (auto simp: filter_empty_conv image_iff)
    then show ?thesis by (auto simp: map_of_eq_None_iff)
  qed
  have it: "set (iter im) = set im" "mset (map fst (iter im)) = mset (map fst im)"
    using assms(2) [of im] by (metis set_mset_mset, simp)
  then have "distinct (map fst (iter im))" using ixs(1) unfolding gomap_wf_def by (metis mset_eq_imp_distinct_iff)
  moreover have names: "map idx_Name (sch_Indexes sc) = map fst (iter im)" using nm it(1) q(6) by auto
  ultimately have "distinct (map idx_Name (sch_Indexes sc))" "set (map idx_Name (sch_Indexes sc)) = fst ` set ixs"
    using it(1) dom by (simp_all only: names set_map)
  moreover have "\<forall>x \<in> set (sch_Indexes sc). idx_Columns x = map (\<lambda>r. fst (snd r)) (filter (\<lambda>r. fst r = idx_Name x) ixs)"
    using nm it(1) q(6) by auto
  ultimately show ?thesis using q cs ixs(2) pk by (intro exI [of _ rs] exI [of _ cs] exI [of _ irs] exI [of _ ixs] exI [of _ d1]) simp
qed

definition ex_sql :: "unit sql_db" where
  "ex_sql = \<lparr>sql_Query = (\<lambda>q args d. (Inr (if q = columns_query
       then \<lparr>rows_data = [Inr [VString ''tenant'', VString ''int'', VString ''NO'', VNil, VString ''PRI''],
                         Inr [VString ''id'', VString ''int'', VString ''NO'', VNil, VString ''PRI''],
                         Inr [VString ''name'', VString ''varchar'', VString ''YES'', VString ''x'', VString []]], rows_Err = None\<rparr>
       else \<lparr>rows_data = [Inr [VString ''PRIMARY'', VString ''tenant'', VInt64 0], Inr [VString ''PRIMARY'', VString ''id'', VInt64 0]], rows_Err = None\<rparr>), d)),
     sql_Exec = (\<lambda>q args d. (Inl (Errorf ''read only'' []), d)), sql_BeginTx = (\<lambda>d. (Inl (Errorf ''read only'' []), d)),
     sql_Close = (\<lambda>d. (None, d)), sql_SetPool = (\<lambda>_ _ _ _ d. d), sql_Ping = (\<lambda>_ d. (None, d))\<rparr>"

theorem discovered_schema_witness:
  "\<exists>sc m'. MySQL_GetSchema ex_sql (\<lambda>x. x) ''orders'' \<lparr>my_db = (), my_closed = False\<rparr> = (Inr (Some sc), m') \<and>
     map col_Name (sch_Columns sc) = [''tenant'', ''id'', ''name''] \<and> sch_PrimaryKey sc = ''id'' \<and> find_column sc ''id'' \<noteq> None"
proof -
  let ?m = "\<lparr>my_db = (), my_closed = False\<rparr>"
  have "case fst (MySQL_GetSchema ex_sql (\<lambda>x. x) ''orders'' ?m) of
      Inr (Some sc) \<Rightarrow> sch_PrimaryKey sc = ''id'' \<and> map col_Name (sch_Columns sc) = [''tenant'', ''id'', ''name''] | _ \<Rightarrow> False" by code_simp
  then obtain sc m' where g: "MySQL_GetSchema ex_sql (\<lambda>x. x) ''orders'' ?m = (Inr (Some sc), m')" "sch_PrimaryKey sc = ''id''"
    "map col_Name (sch_Columns sc) = [''tenant'', ''id'', ''name'']"
    by (cases "MySQL_GetSchema ex_sql (\<lambda>x. x) ''orders'' ?m") (auto split: sum.splits option.splits)
  then show ?thesis using discovered_schema [OF g(1)] by auto
qed

end
