(* ===== verification/KV_Factory.thy ===== *)
theory KV_Factory
  imports Config_Types
begin

text \<open>
  \<^verbatim>\<open>internal/kvstore/factory.go\<close>: the registry of store factories. A factory is its method table; the
  package variable \<^verbatim>\<open>factoryRegistry\<close> is passed as a map. The registry's mutex is not represented:
  each operation reads or writes the map in one step.
\<close>

section \<open>Operations\<close>

record ('k, 'w) KVStoreFactory =
  fac_Create :: "KVStoreConfig \<Rightarrow> 'w \<Rightarrow> 'k res \<times> 'w"
  fac_Type :: string
  fac_Validate :: "KVStoreConfig \<Rightarrow> gerror option"

definition RegisterFactory :: "('k, 'w) KVStoreFactory option \<Rightarrow> ('k, 'w) KVStoreFactory gomap \<Rightarrow> ('k, 'w) KVStoreFactory gomap res" where
  "RegisterFactory factory reg =
     (case factory of None \<Rightarrow> Inl (Panic ''factory cannot be nil'') | Some f \<Rightarrow>
      if fac_Type f = [] then Inl (Panic ''factory type cannot be empty'')
      else if map_of reg (fac_Type f) \<noteq> None then Inl (Panic (''factory for type '' @ fac_Type f @ '' is already registered''))
      else Inr (gomap_set reg (fac_Type f) f))"

definition Factory_Create :: "('k, 'w) KVStoreFactory gomap \<Rightarrow> KVStoreConfig \<Rightarrow> 'w \<Rightarrow> 'k res \<times> 'w" where
  "Factory_Create reg config w =
     (if kvc_Type config = [] then (Inl (Errorf ''kvstore type is required'' []), w)
      else case map_of reg (kvc_Type config) of
        None \<Rightarrow> (Inl (Errorf ''unsupported KV store type: %s'' [kvc_Type config]), w)
      | Some factory \<Rightarrow>
          (case fac_Validate factory config of
             Some err \<Rightarrow> (Inl (Wrapf ''invalid configuration for %s: %w'' [kvc_Type config] err), w)
           | None \<Rightarrow> fac_Create factory config w))"

definition GetRegisteredTypes :: "('k, 'w) KVStoreFactory gomap \<Rightarrow> string list" where
  "GetRegisteredTypes reg = map fst reg"

definition IsTypeRegistered :: "('k, 'w) KVStoreFactory gomap \<Rightarrow> string \<Rightarrow> bool" where
  "IsTypeRegistered reg storeType \<longleftrightarrow> map_of reg storeType \<noteq> None"

section \<open>A configuration for the witnesses\<close>

definition ex_kv_config :: KVStoreConfig where
  "ex_kv_config = \<lparr>kvc_Type = ''redis'', kvc_Endpoints = [''localhost:6379''], kvc_ClusterMode = False, kvc_Password = [],
     kvc_DB = 0, kvc_MaxRetries = 3, kvc_PoolSize = 10, kvc_MinIdleConns = 5, kvc_DialTimeout = 5, kvc_ReadTimeout = 3,
     kvc_WriteTimeout = 3, kvc_Region = [], kvc_TableName = [], kvc_Endpoint = [], kvc_AccessKeyID = [], kvc_SecretAccessKey = []\<rparr>"

section \<open>Reachable registries\<close>

inductive factories :: "('k, 'w) KVStoreFactory gomap \<Rightarrow> bool" where
  empty: "factories []"
| register: "factories reg \<Longrightarrow> RegisterFactory (Some f) reg = Inr reg' \<Longrightarrow> factories reg'"

lemma factories_wf:
  "factories reg \<Longrightarrow> gomap_wf reg \<and> (\<forall>t f. map_of reg t = Some f \<longrightarrow> fac_Type f = t \<and> t \<noteq> [])"
proof (induction rule: factories.induct)
  case (register reg f reg')
  then have "reg' = gomap_set reg (fac_Type f) f" "fac_Type f \<noteq> []"
    by (auto simp: RegisterFactory_def split: if_splits)
  with register.IH show ?case by (metis fun_upd_apply gomap_get_set gomap_wf_set option.inject)
qed simp

section \<open>Properties\<close>

text \<open>
  The factory registry. In every registry built by registrations, a store is created only by the
  factory registered under the requested type, and only from a configuration that this factory's own
  validation accepts; in all other cases the call fails without calling a factory. Registered types
  are distinct and a type is listed exactly when it is registered.
\<close>

theorem factory_create_dispatch:
  assumes "factories reg"
  shows "(case map_of reg (kvc_Type config) of
        Some f \<Rightarrow> fac_Type f = kvc_Type config \<and>
          (if fac_Validate f config = None then Factory_Create reg config w = fac_Create f config w
           else is_err (fst (Factory_Create reg config w)) \<and> snd (Factory_Create reg config w) = w)
      | None \<Rightarrow> is_err (fst (Factory_Create reg config w)) \<and> snd (Factory_Create reg config w) = w) \<and>
    distinct (GetRegisteredTypes reg) \<and> (t \<in> set (GetRegisteredTypes reg) \<longleftrightarrow> IsTypeRegistered reg t)"
proof (intro conjI)
  show "distinct (GetRegisteredTypes reg)" "t \<in> set (GetRegisteredTypes reg) \<longleftrightarrow> IsTypeRegistered reg t"
    using factories_wf [OF assms]
    by (simp_all add: GetRegisteredTypes_def IsTypeRegistered_def gomap_wf_def map_of_eq_None_iff)
qed (use factories_wf [OF assms] in \<open>auto simp: Factory_Create_def split: option.splits\<close>)

theorem factory_create_dispatch_witness:
  "\<exists>f :: (unit kvstore, unit) KVStoreFactory. fac_Validate f ex_kv_config = None \<and>
     Factory_Create [(''redis'', f)] ex_kv_config () = fac_Create f ex_kv_config ()"
proof -
  let ?f = "\<lparr>fac_Create = (\<lambda>_ w. (Inl (Errorf ''no server'' []), w)), fac_Type = ''redis'', fac_Validate = (\<lambda>_. None)\<rparr> :: (unit kvstore, unit) KVStoreFactory"
  have "RegisterFactory (Some ?f) [] = Inr [(''redis'', ?f)]" by (simp add: RegisterFactory_def gomap_set_def)
  then have "factories [(''redis'', ?f)]" using factories.register [OF factories.empty] by blast
  from factory_create_dispatch [OF this, of ex_kv_config "()"] show ?thesis
    by (intro exI [of _ ?f]) (simp add: ex_kv_config_def)
qed

end
