(* ===== verification/Queue_Kafka.thy ===== *)
theory Queue_Kafka
  imports Queue_Redis
begin

text \<open>
  \<^verbatim>\<open>internal/writeback/kafka_queue.go\<close>: a queue on a Kafka topic. The writer and the reader of kafka-go
  are one record of functions over the state \<open>'s\<close> of the brokers and the consumer group; \<^verbatim>\<open>ReadMessage\<close>
  is composed of the two operations that kafka-go composes it of. The deadline of five seconds on each
  read is part of what these may answer. Logging is left out, and so are the durations it prints. The
  counter \<^verbatim>\<open>size\<close> is an integer.
\<close>

section \<open>The clients\<close>

record kafka_message =
  km_Key :: string
  km_Value :: string
  km_Time :: gotime
  km_Headers :: "(string \<times> string) list"
  km_Partition :: int
  km_Offset :: int

record 's kafka_client =
  kc_WriteMessages :: "kafka_message \<Rightarrow> 's \<Rightarrow> gerror option \<times> 's"
  kc_FetchMessage :: "'s \<Rightarrow> kafka_message res \<times> 's"
  kc_CommitMessages :: "kafka_message \<Rightarrow> 's \<Rightarrow> gerror option \<times> 's"
  kc_CloseWriter :: "'s \<Rightarrow> gerror option \<times> 's"
  kc_CloseReader :: "'s \<Rightarrow> gerror option \<times> 's"

text \<open>\<^verbatim>\<open>Reader.ReadMessage\<close> for a reader in a consumer group, which the queue's always is: it commits what it has fetched.\<close>

definition ReadMessage :: "'s kafka_client \<Rightarrow> 's \<Rightarrow> kafka_message res \<times> 's" where
  "ReadMessage c s =
     (case kc_FetchMessage c s of
        (Inl err, s1) \<Rightarrow> (Inl (Wrapf ''fetching message: %w'' [] err), s1)
      | (Inr m, s1) \<Rightarrow>
          (case kc_CommitMessages c m s1 of
             (Some err, s2) \<Rightarrow> (Inl (Wrapf ''committing message: %w'' [] err), s2)
           | (None, s2) \<Rightarrow> (Inr m, s2)))"

record KafkaQueueConfig =
  kqc_Brokers :: "string list"
  kqc_Topic :: string
  kqc_GroupID :: string
  kqc_BatchSize :: int
  kqc_BatchTimeout :: int
  kqc_WriteTimeout :: int
  kqc_ReadTimeout :: int
  kqc_RequiredAcks :: int
  kqc_MaxMessageBytes :: int
  kqc_MinBytes :: int
  kqc_MaxBytes :: int
  kqc_MaxWait :: int

text \<open>What the constructor hands to \<^verbatim>\<open>kafka.Writer\<close> and \<^verbatim>\<open>kafka.NewReader\<close>.\<close>

record kafka_options =
  ko_Brokers :: "string list"
  ko_Topic :: string
  ko_Balancer :: string
  ko_BatchSize :: int
  ko_BatchTimeout :: int
  ko_WriteTimeout :: int
  ko_RequiredAcks :: int
  ko_MaxAttempts :: int
  ko_Async :: bool
  ko_GroupID :: string
  ko_MinBytes :: int
  ko_MaxBytes :: int
  ko_MaxWait :: int
  ko_StartOffset :: string

record 's KafkaQueue =
  kq_server :: 's
  kq_topic :: string
  kq_closed :: bool
  kq_groupID :: string
  kq_brokers :: "string list"
  kq_size :: int

section \<open>Operations\<close>

definition NewKafkaQueue :: "(kafka_options \<Rightarrow> 's kafka_client) \<Rightarrow> KafkaQueueConfig \<Rightarrow> 's \<Rightarrow> ('s kafka_client \<times> 's KafkaQueue) res" where
  "NewKafkaQueue connect config s =
     (if kqc_Brokers config = [] then Inl (Errorf ''at least one Kafka broker is required'' [])
      else if kqc_Topic config = [] then Inl (Errorf ''Kafka topic is required'' [])
      else let groupID = (if kqc_GroupID config = [] then ''shock-absorber-writeback'' else kqc_GroupID config)
           in Inr (connect \<lparr>ko_Brokers = kqc_Brokers config, ko_Topic = kqc_Topic config, ko_Balancer = ''LeastBytes'',
                 ko_BatchSize = kqc_BatchSize config, ko_BatchTimeout = kqc_BatchTimeout config,
                 ko_WriteTimeout = kqc_WriteTimeout config, ko_RequiredAcks = kqc_RequiredAcks config, ko_MaxAttempts = 3,
                 ko_Async = False, ko_GroupID = groupID, ko_MinBytes = kqc_MinBytes config, ko_MaxBytes = kqc_MaxBytes config,
                 ko_MaxWait = kqc_MaxWait config, ko_StartOffset = ''FirstOffset''\<rparr>,
               \<lparr>kq_server = s, kq_topic = kqc_Topic config, kq_closed = False, kq_groupID = groupID,
                kq_brokers = kqc_Brokers config, kq_size = 0\<rparr>))"

definition kafka_encode :: "write_op \<Rightarrow> string \<Rightarrow> kafka_message" where
  "kafka_encode op opData = \<lparr>km_Key = op_Table op, km_Value = opData, km_Time = op_Timestamp op,
     km_Headers = [(''operation'', op_Operation op), (''table'', op_Table op)], km_Partition = 0, km_Offset = 0\<rparr>"

definition kq_Enqueue :: "'s kafka_client \<Rightarrow> ('s \<Rightarrow> gotime \<times> 's) \<Rightarrow> write_op option \<Rightarrow> 's KafkaQueue \<Rightarrow> gerror option \<times> 's KafkaQueue" where
  "kq_Enqueue c now operation q =
     (if kq_closed q then (Some ErrKafkaQueueClosed, q)
      else case operation of None \<Rightarrow> (Some ErrInvalidOperation, q)
      | Some op0 \<Rightarrow>
          if op_Table op0 = [] then (Some (Wrapf ''%w: table name is required'' [] ErrInvalidOperation), q)
          else let (op, s1) = stamp now op0 (kq_server q) in
            (case marshal_write_op op of
               Inl err \<Rightarrow> (Some (Wrapf ''failed to marshal write operation: %w'' [] err), q\<lparr>kq_server := s1\<rparr>)
             | Inr opData \<Rightarrow>
                 (case kc_WriteMessages c (kafka_encode op opData) s1 of
                    (Some err, s2) \<Rightarrow> (Some (Wrapf ''failed to write message to Kafka: %w'' [] err), q\<lparr>kq_server := s2\<rparr>)
                  | (None, s2) \<Rightarrow> (None, q\<lparr>kq_server := s2, kq_size := kq_size q + 1\<rparr>))))"

text \<open>
  The loop of \<^verbatim>\<open>Dequeue\<close>: an error of any kind ends it and is not reported; a message that does not
  decode is skipped; the offset of a message, which the read has committed, is committed once more as
  soon as it is decoded, and a failure of this second commit is ignored.
\<close>

fun read_loop :: "'s kafka_client \<Rightarrow> nat \<Rightarrow> write_op list \<Rightarrow> 's \<Rightarrow> write_op list \<times> 's" where
  "read_loop c 0 operations s = (operations, s)"
| "read_loop c (Suc n) operations s =
     (case ReadMessage c s of
        (Inl err, s1) \<Rightarrow> (operations, s1)
      | (Inr message, s1) \<Rightarrow>
          (case unmarshal_write_op (km_Value message) of
             Inl err \<Rightarrow> read_loop c n operations s1
           | Inr op \<Rightarrow> read_loop c n (operations @ [op]) (snd (kc_CommitMessages c message s1))))"

definition kq_Dequeue :: "'s kafka_client \<Rightarrow> int \<Rightarrow> 's KafkaQueue \<Rightarrow> (write_op list \<times> gerror option) \<times> 's KafkaQueue" where
  "kq_Dequeue c batchSize q =
     (if kq_closed q then (([], Some ErrKafkaQueueClosed), q)
      else let n = (if batchSize \<le> 0 then 100 else batchSize);
               (operations, s) = read_loop c (nat n) [] (kq_server q);
               len = int (length operations);
               size = (if 0 < len then (if len \<le> kq_size q then kq_size q - len else 0) else kq_size q)
           in ((operations, None), q\<lparr>kq_server := s, kq_size := size\<rparr>))"

definition kq_Size :: "'s KafkaQueue \<Rightarrow> int" where
  "kq_Size q = kq_size q"

definition kq_Close :: "'s kafka_client \<Rightarrow> 's KafkaQueue \<Rightarrow> gerror option \<times> 's KafkaQueue" where
  "kq_Close c q =
     (if kq_closed q then (None, q)
      else let (_, s1) = kc_CloseWriter c (kq_server q); (e, s2) = kc_CloseReader c s1
           in (e, q\<lparr>kq_closed := True, kq_server := s2\<rparr>))"

definition kafka_queue :: "'s kafka_client \<Rightarrow> ('s \<Rightarrow> gotime \<times> 's) \<Rightarrow> 's KafkaQueue wbqueue" where
  "kafka_queue c now = \<lparr>q_Enqueue = kq_Enqueue c now, q_Dequeue = kq_Dequeue c, q_Size = (\<lambda>q. (kq_Size q, q)), q_Close = kq_Close c\<rparr>"

section \<open>The contract\<close>

text \<open>
  The documented behaviour of a topic with one partition that one reader of the group reads without
  being restarted: a message that is written goes to the end of the partition, more than once when the
  writer repeats an attempt whose answer was lost; a fetch delivers the next message, a failed fetch
  none; offsets ascend; committing delivers nothing and stores the offset that follows the message,
  unless it fails before. With several partitions, which the balancer of the queue fills by size, there
  is no order between partitions.
\<close>

locale kafka_laws =
  fixes c :: "'s kafka_client"
    and unread :: "'s \<Rightarrow> kafka_message list"
    and committed :: "'s \<Rightarrow> int"
  assumes Write: "kc_WriteMessages c m s = (e, s') \<Longrightarrow> committed s' = committed s \<and>
      (\<exists>k. map km_Value (unread s') = map km_Value (unread s) @ replicate k (km_Value m) \<and> (e = None \<longrightarrow> 0 < k))"
    and Fetch: "kc_FetchMessage c s = (r, s') \<Longrightarrow> committed s' = committed s \<and>
      (case r of Inr m \<Rightarrow> unread s = m # unread s' | Inl e \<Rightarrow> unread s' = unread s)"
    and Commit: "kc_CommitMessages c m s = (e, s') \<Longrightarrow> unread s' = unread s \<and>
      (committed s' = km_Offset m + 1 \<or> e \<noteq> None \<and> committed s' = committed s)"
    and Offsets: "sorted_wrt (\<lambda>m m'. km_Offset m < km_Offset m') (unread s)"

text \<open>A writer that repeats no attempt, and a group whose commits succeed.\<close>

definition writes_once :: "'s kafka_client \<Rightarrow> ('s \<Rightarrow> kafka_message list) \<Rightarrow> bool" where
  "writes_once c unread \<longleftrightarrow> (\<forall>m s e s'. kc_WriteMessages c m s = (e, s') \<longrightarrow> length (unread s') \<le> Suc (length (unread s)))"

definition commits_succeed :: "'s kafka_client \<Rightarrow> bool" where
  "commits_succeed c \<longleftrightarrow> (\<forall>m s. fst (kc_CommitMessages c m s) = None)"

context kafka_laws
begin

definition kq_ok :: "'s KafkaQueue \<Rightarrow> bool" where
  "kq_ok q \<longleftrightarrow> list_all (\<lambda>m. \<not> is_err (unmarshal_write_op (km_Value m))) (unread (kq_server q)) \<and> 0 \<le> kq_size q"

definition kq_pending :: "'s KafkaQueue \<Rightarrow> write_op list" where
  "kq_pending q = decoded (map km_Value (unread (kq_server q)))"

lemma decoded_simps [simp]:
  "decoded [] = []" "decoded (d # ds) = (case unmarshal_write_op d of Inl _ \<Rightarrow> decoded ds | Inr op \<Rightarrow> op # decoded ds)"
  "decoded (xs @ ys) = decoded xs @ decoded ys"
  by (auto simp: decoded_def map_filter_def split: sum.splits)

lemma decoded_length_le: "length (decoded ds) \<le> length ds"
  by (induction ds) (auto split: sum.splits)

lemma read_message:
  assumes "ReadMessage c s = (r, s')"
  shows "case r of
      Inr m \<Rightarrow> unread s = m # unread s' \<and> committed s' = km_Offset m + 1
    | Inl _ \<Rightarrow> \<exists>lost. unread s = lost @ unread s' \<and> length lost \<le> 1 \<and> (commits_succeed c \<longrightarrow> lost = []) \<and>
        (committed s' = committed s \<or> (\<exists>m \<in> set (unread s). committed s' = km_Offset m + 1))"
proof -
  obtain f s1 where f: "kc_FetchMessage c s = (f, s1)" by (cases "kc_FetchMessage c s")
  show ?thesis
  proof (cases f)
    case (Inl err)
    then show ?thesis using assms f Fetch [OF f] by (auto simp: ReadMessage_def)
  next
    case (Inr m)
    obtain e s2 where e: "kc_CommitMessages c m s1 = (e, s2)" by (cases "kc_CommitMessages c m s1")
    have "commits_succeed c \<longrightarrow> e = None" using e by (auto simp: commits_succeed_def) (metis fst_conv option.distinct(1))
    then show ?thesis using assms f Inr e Fetch [OF f] Commit [OF e]
      by (cases e) (auto simp: ReadMessage_def intro!: exI [of _ "[m]"])
  qed
qed

text \<open>What the loop reads, what it loses, and what is committed in the end; the committed offset never falls behind.\<close>

lemma read_loop_prefix:
  assumes "read_loop c n operations s = (xs, s')"
  shows "\<exists>ms lost. unread s = ms @ lost @ unread s' \<and> xs = operations @ decoded (map km_Value ms) \<and> length ms \<le> n \<and>
    length lost \<le> 1 \<and> (lost \<noteq> [] \<longrightarrow> length ms < n) \<and> (commits_succeed c \<longrightarrow> lost = []) \<and>
    (\<forall>m \<in> set ms. km_Offset m < committed s') \<and>
    (\<forall>b. b \<le> committed s \<longrightarrow> (\<forall>m \<in> set (unread s). b \<le> km_Offset m + 1) \<longrightarrow> b \<le> committed s')"
  using assms
proof (induction n arbitrary: operations s)
  case 0
  then show ?case by (intro exI [of _ "[]"]) simp
next
  case (Suc n)
  obtain r s1 where r: "ReadMessage c s = (r, s1)" by (cases "ReadMessage c s")
  note rm = read_message [OF r]
  show ?case
  proof (cases r)
    case (Inl e)
    then have "xs = operations" "s' = s1" using Suc.prems r by simp_all
    moreover obtain lost where "unread s = lost @ unread s1" "length lost \<le> 1" "commits_succeed c \<longrightarrow> lost = []"
      "committed s1 = committed s \<or> (\<exists>m \<in> set (unread s). committed s1 = km_Offset m + 1)"
      using rm unfolding Inl sum.case by blast
    ultimately show ?thesis by (intro exI [of _ "[]"] exI [of _ lost]) auto
  next
    case (Inr m)
    then have u: "unread s = m # unread s1" "committed s1 = km_Offset m + 1" using rm by simp_all
    have later: "km_Offset m < km_Offset m'" if "m' \<in> set (unread s1)" for m' using Offsets [of s] u(1) that by simp
    obtain ops s2 where s2: "read_loop c n ops s2 = (xs, s')" "unread s2 = unread s1" "committed s2 = km_Offset m + 1"
      "ops = operations @ decoded [km_Value m]"
    proof (cases "unmarshal_write_op (km_Value m)")
      case (Inl e)
      then show ?thesis using that [of operations s1] Suc.prems r Inr u by simp
    next
      case op: (Inr op)
      obtain e s2 where e: "kc_CommitMessages c m s1 = (e, s2)" by (cases "kc_CommitMessages c m s1")
      have "unread s2 = unread s1" "committed s2 = km_Offset m + 1" using Commit [OF e] u(2) by auto
      moreover have "read_loop c n (operations @ [op]) s2 = (xs, s')" using Suc.prems r Inr op e by simp
      ultimately show ?thesis using that op by simp
    qed
    obtain ms lost where ih: "unread s2 = ms @ lost @ unread s'" "xs = ops @ decoded (map km_Value ms)" "length ms \<le> n"
      "length lost \<le> 1" "lost \<noteq> [] \<longrightarrow> length ms < n" "commits_succeed c \<longrightarrow> lost = []" "\<forall>m \<in> set ms. km_Offset m < committed s'"
      "\<And>b. b \<le> committed s2 \<Longrightarrow> \<forall>m \<in> set (unread s2). b \<le> km_Offset m + 1 \<Longrightarrow> b \<le> committed s'"
      using Suc.IH [OF s2(1)] by blast
    have c: "km_Offset m + 1 \<le> committed s'" using ih(8) [of "km_Offset m + 1"] s2(2,3) later by fastforce
    have b: "b \<le> committed s'" if "\<forall>m \<in> set (unread s). b \<le> km_Offset m + 1" for b using that c u(1) by auto
    have x: "xs = operations @ decoded (map km_Value (m # ms))" using ih(2) s2(4) by (auto split: sum.splits)
    have l: "unread s = (m # ms) @ lost @ unread s'" using u(1) s2(2) ih(1) by simp
    show ?thesis by (rule exI [of _ "m # ms"], rule exI [of _ lost]) (use b x l c ih(3-7) in auto)
  qed
qed

lemma kq_Enqueue_pending:
  assumes "kq_ok w" and "rq_accepts x" and "kq_Enqueue c now (Some x) w = (e, w')"
  shows "kq_ok w' \<and> (\<exists>k. kq_pending w' = kq_pending w @ replicate k (op_image x) \<and> (e = None \<longrightarrow> 0 < k) \<and> (writes_once c unread \<longrightarrow> k \<le> 1))"
proof -
  obtain d where d: "marshal_write_op x = Inr d" "unmarshal_write_op d = Inr (op_image x)"
    using unmarshal_marshal_write_op assms(2) by (auto simp: rq_accepts_def)
  show ?thesis
  proof (cases "kq_closed w")
    case True
    then show ?thesis using assms by (auto simp: kq_Enqueue_def)
  next
    case False
    have st: "stamp now x (kq_server w) = (x, kq_server w)" using assms(2) by (simp add: stamp_def rq_accepts_def)
    obtain e1 s1 where s1: "kc_WriteMessages c (kafka_encode x d) (kq_server w) = (e1, s1)"
      by (cases "kc_WriteMessages c (kafka_encode x d) (kq_server w)")
    obtain k where k: "map km_Value (unread s1) = map km_Value (unread (kq_server w)) @ replicate k d" "e1 = None \<longrightarrow> 0 < k"
      using Write [OF s1] by (auto simp: kafka_encode_def)
    have "length (unread s1) = length (unread (kq_server w)) + k" using arg_cong [where f = length, OF k(1)] by simp
    then have once: "writes_once c unread \<longrightarrow> k \<le> 1" using s1 by (fastforce simp: writes_once_def)
    have w': "kq_server w' = s1" "e = None \<longleftrightarrow> e1 = None" "0 \<le> kq_size w'" using assms False d(1) st s1
      by (auto simp: kq_Enqueue_def rq_accepts_def kq_ok_def split: if_splits option.splits)
    have "decoded (replicate k d) = replicate k (op_image x)" by (induction k) (simp_all add: d(2))
    moreover have "list_all (\<lambda>v. \<not> is_err (unmarshal_write_op v)) (map km_Value (unread s1))"
      unfolding k(1) using assms(1) d(2) by (auto simp: kq_ok_def list_all_iff)
    then have "kq_ok w'" using w' by (simp add: kq_ok_def list.pred_map comp_def)
    ultimately show ?thesis using k once w' by (auto simp: kq_pending_def)
  qed
qed

lemma kq_enqueue_all_pending:
  assumes "kq_ok w" and "list_all rq_accepts xs" and "enqueue_all (kafka_queue c now) xs w = Some w'"
  shows "kq_ok w' \<and> (\<exists>ks. length ks = length xs \<and> 0 \<notin> set ks \<and> (writes_once c unread \<longrightarrow> set ks \<subseteq> {1}) \<and>
    kq_pending w' = kq_pending w @ concat (map2 replicate ks (map op_image xs)))"
  using assms
proof (induction xs arbitrary: w)
  case (Cons x xs)
  obtain w1 where w1: "kq_Enqueue c now (Some x) w = (None, w1)" "enqueue_all (kafka_queue c now) xs w1 = Some w'"
    using Cons.prems(3) by (auto simp: kafka_queue_def split: prod.splits option.splits)
  obtain k where k: "kq_ok w1" "kq_pending w1 = kq_pending w @ replicate k (op_image x)" "0 < k" "writes_once c unread \<longrightarrow> k \<le> 1"
    using kq_Enqueue_pending [OF Cons.prems(1) _ w1(1)] Cons.prems(2) by auto
  obtain ks where "kq_ok w'" "length ks = length xs" "0 \<notin> set ks" "writes_once c unread \<longrightarrow> set ks \<subseteq> {1}"
    "kq_pending w' = kq_pending w1 @ concat (map2 replicate ks (map op_image xs))"
    using Cons.IH [OF k(1) _ w1(2)] Cons.prems(2) by auto
  then show ?case using k by (intro conjI exI [of _ "k # ks"]) auto
qed (auto intro!: exI [of _ "[]"])

lemma kq_Dequeue_pending:
  assumes "kq_ok w" and "kq_Dequeue c n w = ((xs, e), w')"
  shows "kq_ok w' \<and> (\<exists>lost. kq_pending w = xs @ lost @ kq_pending w' \<and> length lost \<le> 1 \<and> (commits_succeed c \<longrightarrow> lost = []) \<and>
    (lost \<noteq> [] \<longrightarrow> e = None \<and> int (length xs) < (if n \<le> 0 then 100 else n))) \<and> int (length xs) \<le> (if n \<le> 0 then 100 else n)"
proof (cases "kq_closed w")
  case True
  then show ?thesis using assms by (auto simp: kq_Dequeue_def)
next
  case False
  let ?n = "if n \<le> 0 then 100 else n"
  obtain ys s where ys: "read_loop c (nat ?n) [] (kq_server w) = (ys, s)" by (cases "read_loop c (nat ?n) [] (kq_server w)")
  then have r: "xs = ys" "kq_server w' = s" "e = None" "0 \<le> kq_size w'"
    using assms False by (auto simp: kq_Dequeue_def kq_ok_def Let_def)
  obtain ms lost where l: "unread (kq_server w) = ms @ lost @ unread s" "xs = decoded (map km_Value ms)" "length ms \<le> nat ?n"
    "length lost \<le> 1" "lost \<noteq> [] \<longrightarrow> length ms < nat ?n" "commits_succeed c \<longrightarrow> lost = []"
    using read_loop_prefix [OF ys] r(1) by auto
  have "length (decoded (map km_Value lost)) \<le> 1" "decoded (map km_Value lost) \<noteq> [] \<longrightarrow> lost \<noteq> []"
    using decoded_length_le [of "map km_Value lost"] l(4) by auto
  then show ?thesis using assms(1) r l decoded_length_le [of "map km_Value ms"]
    by (intro conjI exI [of _ "decoded (map km_Value lost)"]) (auto simp: kq_ok_def kq_pending_def)
qed

end

text \<open>With a writer that repeats nothing the queue keeps the contract of a queue.\<close>

locale kafka_once = kafka_laws +
  fixes now :: "'a \<Rightarrow> gotime \<times> 'a"
  assumes once: "writes_once c unread"
begin

lemma kafka_queue_keeps_contract: "queue_contract (kafka_queue c now) kq_pending kq_ok op_image rq_accepts"
proof (unfold_locales, goal_cases)
  case (1 w x e w')
  then obtain k where k: "kq_ok w'" "kq_pending w' = kq_pending w @ replicate k (op_image x)" "e = None \<longrightarrow> 0 < k" "k \<le> 1"
    using kq_Enqueue_pending [of w x now e w'] once by (auto simp: kafka_queue_def)
  then have "k = 0 \<and> e \<noteq> None \<or> k = 1" by auto
  then show ?case using k by auto
next
  case (2 w n xs e w')
  then show ?case using kq_Dequeue_pending [of w n xs e w'] by (auto simp: kafka_queue_def)
qed

end

sublocale kafka_once \<subseteq> kq: queue_contract "kafka_queue c now" kq_pending kq_ok op_image rq_accepts
  by (rule kafka_queue_keeps_contract)

section \<open>A broker that keeps the laws\<close>

text \<open>The log, the position of the reader, the committed offset, and the outcomes of the commits to come.\<close>

record kafka_ref =
  kr_log :: "kafka_message list"
  kr_next :: nat
  kr_committed :: int
  kr_commit_fails :: "bool list"
  kr_clock :: gotime

definition kref_at :: "kafka_ref \<Rightarrow> nat \<Rightarrow> kafka_message" where
  "kref_at s i = (kr_log s ! i)\<lparr>km_Offset := int i\<rparr>"

definition kref_unread :: "kafka_ref \<Rightarrow> kafka_message list" where
  "kref_unread s = map (kref_at s) [kr_next s..<length (kr_log s)]"

definition kref_now :: "kafka_ref \<Rightarrow> gotime \<times> kafka_ref" where
  "kref_now s = (kr_clock s, s)"

text \<open>A fetch at the end of the log waits until the deadline of its context.\<close>

definition kref_client :: "kafka_ref kafka_client" where
  "kref_client = \<lparr>
     kc_WriteMessages = (\<lambda>m s. (None, s\<lparr>kr_log := kr_log s @ [m], kr_next := min (kr_next s) (length (kr_log s))\<rparr>)),
     kc_FetchMessage = (\<lambda>s. if kr_next s < length (kr_log s) then (Inr (kref_at s (kr_next s)), s\<lparr>kr_next := Suc (kr_next s)\<rparr>)
                            else (Inl ContextDeadlineExceeded, s)),
     kc_CommitMessages = (\<lambda>m s. case kr_commit_fails s of
         True # fs \<Rightarrow> (Some ContextDeadlineExceeded, s\<lparr>kr_commit_fails := fs\<rparr>)
       | fs \<Rightarrow> (None, s\<lparr>kr_committed := km_Offset m + 1, kr_commit_fails := tl fs\<rparr>)),
     kc_CloseWriter = (\<lambda>s. (None, s)), kc_CloseReader = (\<lambda>s. (None, s))\<rparr>"

lemma kref_unread_values: "map km_Value (kref_unread s) = map km_Value (drop (kr_next s) (kr_log s))"
  by (simp add: kref_unread_def kref_at_def list_eq_iff_nth_eq)

lemma kref_writes_once: "writes_once kref_client kref_unread"
  by (auto simp: writes_once_def kref_client_def kref_unread_def)

interpretation kref: kafka_once kref_client kref_unread kr_committed kref_now
proof (unfold_locales, goal_cases)
  case (1 m s e s')
  then show ?case by (auto simp: kref_client_def kref_unread_values min_def intro!: exI [of _ 1])
next
  case (2 s r s')
  then show ?case by (auto simp: kref_client_def kref_unread_def kref_at_def upt_conv_Cons split: if_splits)
next
  case (3 m s e s')
  then show ?case by (auto simp: kref_client_def kref_unread_def kref_at_def split: list.splits bool.splits)
next
  case (4 s)
  then show ?case by (simp add: kref_unread_def kref_at_def sorted_wrt_map)
next
  case 5
  then show ?case by (rule kref_writes_once)
qed

section \<open>Properties\<close>

text \<open>
  C22. The Kafka queue, on a topic with one partition and one reader, delivers operations in order. Those
  enqueued when nothing is unread come out of \<^verbatim>\<open>Dequeue\<close>, as their JSON images and at most a batch at a
  time, in the order they went in; an operation comes more than once only if the writer repeated an
  attempt. At most one is lost, after the delivered ones: the one that was fetched and whose commit
  inside the read failed; \<^verbatim>\<open>Dequeue\<close> then returns less than a batch and no error. The rest stays unread in
  order, and the size counter never becomes negative.
\<close>

theorem kafka_queue_fifo:
  assumes "kafka_laws c unread committed" and "unread (kq_server q) = []" and "0 \<le> kq_size q"
    and "list_all rq_accepts xs" and "enqueue_all (kafka_queue c now) xs q = Some q1"
    and "q_Dequeue (kafka_queue c now) n q1 = ((ys, e), q2)"
  shows "\<exists>ks lost. length ks = length xs \<and> 0 \<notin> set ks \<and> (writes_once c unread \<longrightarrow> set ks \<subseteq> {1}) \<and>
    concat (map2 replicate ks (map op_image xs)) = ys @ lost @ decoded (map km_Value (unread (kq_server q2))) \<and>
    length lost \<le> 1 \<and> (commits_succeed c \<longrightarrow> lost = []) \<and>
    (lost \<noteq> [] \<longrightarrow> e = None \<and> int (length ys) < (if n \<le> 0 then 100 else n)) \<and> int (length ys) \<le> (if n \<le> 0 then 100 else n) \<and>
    0 \<le> kq_size q2"
proof -
  note d = kafka_laws.kq_ok_def [OF assms(1)] kafka_laws.kq_pending_def [OF assms(1)]
  have "kafka_laws.kq_ok unread q" using assms(2,3) by (simp add: d)
  from kafka_laws.kq_enqueue_all_pending [OF assms(1) this assms(4,5)] obtain ks where ks: "kafka_laws.kq_ok unread q1"
    "length ks = length xs" "0 \<notin> set ks" "writes_once c unread \<longrightarrow> set ks \<subseteq> {1}"
    "kafka_laws.kq_pending unread q1 = concat (map2 replicate ks (map op_image xs))"
    using assms(2) by (auto simp: d decoded_def map_filter_def)
  have "kq_Dequeue c n q1 = ((ys, e), q2)" using assms(6) by (simp add: kafka_queue_def)
  from kafka_laws.kq_Dequeue_pending [OF assms(1) ks(1) this] obtain lost where
    "kafka_laws.kq_pending unread q1 = ys @ lost @ kafka_laws.kq_pending unread q2" "length lost \<le> 1" "commits_succeed c \<longrightarrow> lost = []"
    "lost \<noteq> [] \<longrightarrow> e = None \<and> int (length ys) < (if n \<le> 0 then 100 else n)" "int (length ys) \<le> (if n \<le> 0 then 100 else n)"
    "kafka_laws.kq_ok unread q2" by blast
  then show ?thesis using ks by (intro exI [of _ ks] exI [of _ lost]) (simp add: d)
qed

definition ex_kafka :: "kafka_ref KafkaQueue" where
  "ex_kafka = \<lparr>kq_server = \<lparr>kr_log = [], kr_next = 0, kr_committed = 0, kr_commit_fails = [], kr_clock = zero_time\<rparr>, kq_topic = ''writeback'',
     kq_closed = False, kq_groupID = ''g'', kq_brokers = [''localhost:9092''], kq_size = 0\<rparr>"

lemma kref_Enqueue_ok:
  assumes "rq_accepts op" and "\<not> kq_closed q"
  shows "\<exists>q'. kq_Enqueue kref_client kref_now (Some op) q = (None, q') \<and> \<not> kq_closed q'"
proof -
  obtain d where d: "marshal_write_op op = Inr d" using unmarshal_marshal_write_op assms(1) by (auto simp: rq_accepts_def)
  have "stamp kref_now op (kq_server q) = (op, kq_server q)" using assms(1) by (simp add: stamp_def rq_accepts_def)
  then show ?thesis using assms d by (auto simp: kq_Enqueue_def rq_accepts_def kref_client_def)
qed

theorem kafka_queue_fifo_witness:
  "\<exists>q1 q2 ys lost. enqueue_all (kafka_queue kref_client kref_now) [ex_op ''a'' 1, ex_op ''b'' 2] ex_kafka = Some q1 \<and>
     q_Dequeue (kafka_queue kref_client kref_now) 1 q1 = ((ys, None), q2) \<and> length lost \<le> 1 \<and>
     map op_image [ex_op ''a'' 1, ex_op ''b'' 2] = ys @ lost @ decoded (map km_Value (kref_unread (kq_server q2)))"
proof -
  let ?k = "kafka_queue kref_client kref_now" and ?xs = "[ex_op ''a'' 1, ex_op ''b'' 2]"
  have a: "rq_accepts (ex_op ''a'' 1)" "rq_accepts (ex_op ''b'' 2)" by code_simp+
  have o: "\<not> kq_closed ex_kafka" "kref_unread (kq_server ex_kafka) = []" "0 \<le> kq_size ex_kafka"
    by (simp_all add: ex_kafka_def kref_unread_def)
  obtain q0 where q0: "kq_Enqueue kref_client kref_now (Some (ex_op ''a'' 1)) ex_kafka = (None, q0)" "\<not> kq_closed q0"
    using kref_Enqueue_ok [OF a(1) o(1)] by blast
  obtain q1 where q1: "kq_Enqueue kref_client kref_now (Some (ex_op ''b'' 2)) q0 = (None, q1)" "\<not> kq_closed q1"
    using kref_Enqueue_ok [OF a(2) q0(2)] by blast
  have e: "enqueue_all ?k ?xs ex_kafka = Some q1" using q0 q1 by (simp add: kafka_queue_def)
  have "snd (fst (q_Dequeue ?k 1 q1)) = None" using q1(2) by (simp add: kafka_queue_def kq_Dequeue_def Let_def case_prod_unfold)
  then obtain ys q2 where d: "q_Dequeue ?k 1 q1 = ((ys, None), q2)" by (metis prod.collapse)
  have "list_all rq_accepts ?xs" using a by simp
  from kafka_queue_fifo [OF kref.kafka_laws_axioms o(2,3) this e d] obtain ks lost where
    k: "length ks = length ?xs" "writes_once kref_client kref_unread \<longrightarrow> set ks \<subseteq> {1}"
    "concat (map2 replicate ks (map op_image ?xs)) = ys @ lost @ decoded (map km_Value (kref_unread (kq_server q2)))" "length lost \<le> 1"
    by blast
  then have "ks = [1, 1]" using kref_writes_once by (auto simp: length_Suc_conv)
  then show ?thesis using e d k by auto
qed

text \<open>
  C38. Offsets are committed before the database is written. When \<^verbatim>\<open>Dequeue\<close> returns, the group's committed
  offset is past every message whose operation it returns, because the read has committed it, whether
  or not the queue's own commit succeeds. So an operation whose write then fails, or whose process stops
  before the write, is not delivered again when the group resumes at its committed offset.
\<close>

theorem kafka_commit_precedes_write:
  assumes "kafka_laws c unread committed" and "kq_Dequeue c n q = ((ops, e), q')"
  shows "\<exists>ms rest. unread (kq_server q) = ms @ rest \<and> ops = decoded (map km_Value ms) \<and>
    (\<forall>m \<in> set ms. km_Offset m < committed (kq_server q'))"
proof (cases "kq_closed q")
  case True
  then have "ops = []" using assms(2) by (simp add: kq_Dequeue_def)
  then show ?thesis by (intro exI [of _ "[]"] exI [of _ "unread (kq_server q)"]) (simp add: decoded_def map_filter_def)
next
  case False
  let ?n = "nat (if n \<le> 0 then 100 else n)"
  obtain s where s: "read_loop c ?n [] (kq_server q) = (ops, s)" "kq_server q' = s"
    using assms(2) False by (auto simp: kq_Dequeue_def Let_def split: prod.splits)
  from kafka_laws.read_loop_prefix [OF assms(1) s(1)] s(2) show ?thesis by auto
qed

text \<open>The commit inside the read succeeds, the queue's own commit fails.\<close>

theorem kafka_commit_precedes_write_witness:
  "\<exists>q ops q'. kq_Dequeue kref_client 5 q = ((ops, None), q') \<and> length ops = 1 \<and> kr_committed (kq_server q) = 0 \<and>
     kr_commit_fails (kq_server q) = [False, True] \<and> 0 < kr_committed (kq_server q')"
proof -
  have "op_plain (ex_op ''a'' 1)" by code_simp
  then obtain d where d: "unmarshal_write_op d = Inr (op_image (ex_op ''a'' 1))" using unmarshal_marshal_write_op by blast
  let ?m = "kafka_encode (ex_op ''a'' 1) d"
  let ?q = "ex_kafka\<lparr>kq_server := (kq_server ex_kafka)\<lparr>kr_log := [?m], kr_commit_fails := [False, True]\<rparr>\<rparr>"
  have v: "km_Value ?m = d" by (simp add: kafka_encode_def)
  obtain q' where q': "kq_Dequeue kref_client 5 ?q = (([op_image (ex_op ''a'' 1)], None), q')"
    using d v by (simp add: kq_Dequeue_def ReadMessage_def ex_kafka_def kref_client_def kref_at_def eval_nat_numeral Let_def)
  have u: "kref_unread (kq_server ?q) = [?m\<lparr>km_Offset := 0\<rparr>]" by (simp add: kref_unread_def kref_at_def ex_kafka_def)
  from kafka_commit_precedes_write [OF kref.kafka_laws_axioms q'] obtain ms rest where
    m: "kref_unread (kq_server ?q) = ms @ rest" "[op_image (ex_op ''a'' 1)] = decoded (map km_Value ms)"
    "\<forall>m \<in> set ms. km_Offset m < kr_committed (kq_server q')" by blast
  then have "ms = [?m\<lparr>km_Offset := 0\<rparr>]" unfolding u by (cases ms) (auto simp: decoded_def map_filter_def)
  then have "0 < kr_committed (kq_server q')" using m(3) by simp
  then show ?thesis using q' by (intro exI [of _ ?q] exI [of _ "[op_image (ex_op ''a'' 1)]"] exI [of _ q']) (simp add: ex_kafka_def)
qed

end
