(* ===== verification/Internal_Client.thy ===== *)
theory Internal_Client
  imports Table_Registry MySQL_Database KV_Factory Queue_Memory Queue_Kafka
begin

text \<open>
  \<^verbatim>\<open>internal/client/client.go\<close>: the client that opens the connections, builds tables and keeps them in
  the registry, with the store factories it dispatches to.

  The client libraries (go-redis, the AWS SDK, database/sql with its driver, kafka-go, the YAML
  decoder) and the clock are the record \<open>libs\<close> over the state \<open>'e\<close> of everything outside the program.
  Inside, a process holds the objects the client makes: the flags of its store and its database, and
  for every table object, by its number, the table's state and the queue built for it. Calls run with a
  context that is not done. \<open>iter\<close> is the order in which the map of tables is ranged over.
\<close>

section \<open>The objects of the program\<close>

record 'e libs =
  lib_now :: "'e \<Rightarrow> gotime \<times> 'e"
  lib_tz :: tzinfo
  lib_redis :: "redis_options \<Rightarrow> 'e redis_client"
  lib_dynamo :: "dynamo_options \<Rightarrow> 'e dynamo_client res"
  lib_sql :: "string \<Rightarrow> 'e \<Rightarrow> 'e sql_db res \<times> 'e"
  lib_kafka :: "kafka_options \<Rightarrow> 'e kafka_client"
  lib_yaml :: "string \<Rightarrow> InternalConfig \<Rightarrow> InternalConfig res"
  lib_index_order :: "index gomap \<Rightarrow> (string \<times> index) list"

record 'e process =
  pr_env :: 'e
  pr_kvClosed :: bool
  pr_dbClosed :: bool
  pr_memory :: "nat \<Rightarrow> MemoryQueue"
  pr_rqClosed :: "nat \<Rightarrow> bool"
  pr_kafka :: "nat \<Rightarrow> 'e KafkaQueue"

record 'e cstate =
  cs_process :: "'e process"
  cs_heap :: "nat \<Rightarrow> 'e process tstate"
  cs_next :: nat

definition on_process :: "('e process \<Rightarrow> 'a \<times> 'e process) \<Rightarrow> 'e cstate \<Rightarrow> 'a \<times> 'e cstate" where
  "on_process = via cs_process (\<lambda>p s. s\<lparr>cs_process := p\<rparr>)"

text \<open>The parts of a process that its objects work on.\<close>

definition redis_part :: "'e process \<Rightarrow> 'e redis_state" where
  "redis_part p = \<lparr>rs_server = pr_env p, rs_closed = pr_kvClosed p\<rparr>"

definition put_redis_part :: "'e redis_state \<Rightarrow> 'e process \<Rightarrow> 'e process" where
  "put_redis_part r p = p\<lparr>pr_env := rs_server r, pr_kvClosed := rs_closed r\<rparr>"

definition dynamo_part :: "string \<Rightarrow> 'e process \<Rightarrow> 'e dynamo_state" where
  "dynamo_part tableName p = \<lparr>ds_service = pr_env p, ds_tableName = tableName, ds_closed = pr_kvClosed p\<rparr>"

definition put_dynamo_part :: "'e dynamo_state \<Rightarrow> 'e process \<Rightarrow> 'e process" where
  "put_dynamo_part d p = p\<lparr>pr_env := ds_service d, pr_kvClosed := ds_closed d\<rparr>"

definition mysql_part :: "'e process \<Rightarrow> 'e mysql_state" where
  "mysql_part p = \<lparr>my_db = pr_env p, my_closed = pr_dbClosed p\<rparr>"

definition put_mysql_part :: "'e mysql_state \<Rightarrow> 'e process \<Rightarrow> 'e process" where
  "put_mysql_part m p = p\<lparr>pr_env := my_db m, pr_dbClosed := my_closed m\<rparr>"

definition memory_part :: "nat \<Rightarrow> 'e process \<Rightarrow> MemoryQueue" where
  "memory_part i p = pr_memory p i"

definition put_memory_part :: "nat \<Rightarrow> MemoryQueue \<Rightarrow> 'e process \<Rightarrow> 'e process" where
  "put_memory_part i q p = p\<lparr>pr_memory := (pr_memory p)(i := q)\<rparr>"

definition rq_part :: "nat \<Rightarrow> 'e process \<Rightarrow> 'e redis_state rq_state" where
  "rq_part i p = \<lparr>rq_world = redis_part p, rq_closed = pr_rqClosed p i\<rparr>"

definition put_rq_part :: "nat \<Rightarrow> 'e redis_state rq_state \<Rightarrow> 'e process \<Rightarrow> 'e process" where
  "put_rq_part i q p = (put_redis_part (rq_world q) p)\<lparr>pr_rqClosed := (pr_rqClosed p)(i := rq_closed q)\<rparr>"

definition kafka_part :: "nat \<Rightarrow> 'e process \<Rightarrow> 'e KafkaQueue" where
  "kafka_part i p = (pr_kafka p i)\<lparr>kq_server := pr_env p\<rparr>"

definition put_kafka_part :: "nat \<Rightarrow> 'e KafkaQueue \<Rightarrow> 'e process \<Rightarrow> 'e process" where
  "put_kafka_part i q p = p\<lparr>pr_env := kq_server q, pr_kafka := (pr_kafka p)(i := q)\<rparr>"

definition process_now :: "'e libs \<Rightarrow> 'e process \<Rightarrow> gotime \<times> 'e process" where
  "process_now L = via pr_env (\<lambda>e p. p\<lparr>pr_env := e\<rparr>) (lib_now L)"

definition client_now :: "'e libs \<Rightarrow> 'e cstate \<Rightarrow> gotime \<times> 'e cstate" where
  "client_now L = on_process (process_now L)"

section \<open>Stores and their factories\<close>

text \<open>A store by its dynamic type, and its methods.\<close>

datatype 'e store = RedisKVStore "'e redis_client" | DynamoDBKVStore "'e dynamo_client" string

fun store_methods :: "'e libs \<Rightarrow> 'e store \<Rightarrow> 'e process kvstore" where
  "store_methods L (RedisKVStore c) = kv_via redis_part put_redis_part (redis_kvstore c)"
| "store_methods L (DynamoDBKVStore c tableName) = kv_via (dynamo_part tableName) put_dynamo_part (dynamo_kvstore c (lib_now L))"

definition RedisKVStoreFactory :: "'e libs \<Rightarrow> ('e store, 'e process) KVStoreFactory" where
  "RedisKVStoreFactory L = \<lparr>fac_Create = (\<lambda>config p. case Redis_Create (lib_redis L) config (pr_env p) of
       (Inl err, e) \<Rightarrow> (Inl err, p\<lparr>pr_env := e\<rparr>)
     | (Inr (c, r), e) \<Rightarrow> (Inr (RedisKVStore c), put_redis_part r p)), fac_Type = ''redis'', fac_Validate = Redis_Validate\<rparr>"

definition DynamoDBKVStoreFactory :: "'e libs \<Rightarrow> ('e store, 'e process) KVStoreFactory" where
  "DynamoDBKVStoreFactory L = \<lparr>fac_Create = (\<lambda>config p. case Dynamo_Create (lib_dynamo L) config (pr_env p) of
       (Inl err, e) \<Rightarrow> (Inl err, p\<lparr>pr_env := e\<rparr>)
     | (Inr (c, d), e) \<Rightarrow> (Inr (DynamoDBKVStore c (ds_tableName d)), put_dynamo_part d p)), fac_Type = ''dynamodb'',
       fac_Validate = Dynamo_Validate\<rparr>"

text \<open>What the \<^verbatim>\<open>init\<close> functions of the two files register, in the order of the files.\<close>

definition init_factories :: "'e libs \<Rightarrow> ('e store, 'e process) KVStoreFactory gomap res" where
  "init_factories L =
     (case RegisterFactory (Some (DynamoDBKVStoreFactory L)) [] of
        Inl err \<Rightarrow> Inl err
      | Inr reg \<Rightarrow> RegisterFactory (Some (RedisKVStoreFactory L)) reg)"

definition factoryRegistry :: "'e libs \<Rightarrow> ('e store, 'e process) KVStoreFactory gomap" where
  "factoryRegistry L = projr (init_factories L)"

definition validatorRegistry :: "ConfigValidator gomap" where
  "validatorRegistry = projr init_validators"

definition database_methods :: "'e libs \<Rightarrow> 'e sql_db \<Rightarrow> 'e process database" where
  "database_methods L db = (let d = mysql_database db (lib_index_order L) in
     \<lparr>db_Query = (\<lambda>q args. via mysql_part put_mysql_part (db_Query d q args)),
      db_Exec = (\<lambda>q args. via mysql_part put_mysql_part (db_Exec d q args)),
      db_GetSchema = (\<lambda>t. via mysql_part put_mysql_part (db_GetSchema d t)),
      db_GetTables = via mysql_part put_mysql_part (db_GetTables d),
      db_Close = via mysql_part put_mysql_part (db_Close d)\<rparr>)"

section \<open>The client\<close>

record TableConfigData =
  tcd_TTL :: int
  tcd_WriteBackBatchSize :: int
  tcd_DrainRate :: int
  tcd_Enabled :: bool
  tcd_Namespace :: string

record 'e ClientImpl =
  ci_configMgr :: ConfigManager
  ci_kvStore :: "'e store option"
  ci_database :: "'e sql_db option"
  ci_tableRegistry :: "'e cstate TableRegistry"
  ci_lifecycle :: "'e cstate LifecycleManager"
  ci_closed :: bool

definition convertToKVStoreConfig :: "InternalKVStoreConfig \<Rightarrow> KVStoreConfig" where
  "convertToKVStoreConfig k =
     (let config = \<lparr>kvc_Type = ikv_Type k, kvc_Endpoints = [], kvc_ClusterMode = False, kvc_Password = [], kvc_DB = 0,
            kvc_MaxRetries = ikv_MaxRetries k, kvc_PoolSize = 0, kvc_MinIdleConns = 0, kvc_DialTimeout = ikv_DialTimeout k,
            kvc_ReadTimeout = ikv_ReadTimeout k, kvc_WriteTimeout = ikv_WriteTimeout k, kvc_Region = [], kvc_TableName = [],
            kvc_Endpoint = [], kvc_AccessKeyID = [], kvc_SecretAccessKey = []\<rparr>;
          r = ikv_RedisConfig k; d = ikv_DynamoDBConfig k
      in if ikv_Type k = ''redis''
         then config\<lparr>kvc_Endpoints := irc_Endpoints r, kvc_ClusterMode := irc_ClusterMode r, kvc_Password := irc_Password r,
                kvc_DB := irc_DB r, kvc_PoolSize := irc_PoolSize r, kvc_MinIdleConns := irc_MinIdleConns r\<rparr>
         else if ikv_Type k = ''dynamodb''
         then config\<lparr>kvc_Region := idc_Region d, kvc_TableName := idc_TableName d, kvc_Endpoint := idc_Endpoint d,
                kvc_AccessKeyID := idc_AccessKeyID d, kvc_SecretAccessKey := idc_SecretAccessKey d\<rparr>
         else config)"

definition initializeConnections :: "'e libs \<Rightarrow> 'e ClientImpl \<Rightarrow> 'e process \<Rightarrow> gerror option \<times> 'e ClientImpl \<times> 'e process" where
  "initializeConnections L c p =
     (let config = cm_GetConfig (ci_configMgr c); d = ic_Database config in
      case Factory_Create (factoryRegistry L) (convertToKVStoreConfig (ic_KVStore config)) p of
        (Inl err, p1) \<Rightarrow> (Some (Wrapf ''failed to create KV store: %w'' [] err), c, p1)
      | (Inr kvStore, p1) \<Rightarrow>
          (let c1 = c\<lparr>ci_kvStore := Some kvStore\<rparr> in
           if idb_Type d = ''mysql''
           then case NewMySQLDatabase (lib_sql L) (idb_Host d) (idb_Port d) (idb_Database d) (idb_Username d) (idb_Password d)
                       (idb_MaxOpenConns d) (idb_MaxIdleConns d) (idb_ConnMaxLifetime d) (idb_ConnMaxIdleTime d)
                       (idb_ConnectionTimeout d) (pr_env p1) of
                  (Inl err, e) \<Rightarrow> (Some (Wrapf ''failed to create database: %w'' [] err), c1, p1\<lparr>pr_env := e\<rparr>)
                | (Inr (db, m), e) \<Rightarrow> (None, c1\<lparr>ci_database := Some db\<rparr>, put_mysql_part m p1)
           else (Some (Errorf ''unsupported database type: %s'' [idb_Type d]), c1, p1)))"

text \<open>The provider of the configuration is what its \<^verbatim>\<open>GetYAML\<close> returns.\<close>

definition NewClientImpl :: "'e libs \<Rightarrow> string res option \<Rightarrow> 'e cstate \<Rightarrow> 'e ClientImpl res \<times> 'e cstate" where
  "NewClientImpl L configProvider s =
     (case configProvider of
        None \<Rightarrow> (Inl (Errorf ''config provider cannot be nil'' []), s)
      | Some (Inl err) \<Rightarrow> (Inl (Wrapf ''failed to get config YAML: %w'' [] err), s)
      | Some (Inr yamlData) \<Rightarrow>
          (case LoadFromYAML validatorRegistry (lib_yaml L) yamlData NewConfigManager of
             (Some err, configMgr) \<Rightarrow> (Inl (Wrapf ''failed to load config: %w'' [] err), s)
           | (None, configMgr) \<Rightarrow>
               (let lifecycle = NewLifecycleManager;
                    client = \<lparr>ci_configMgr = configMgr, ci_kvStore = None, ci_database = None,
                      ci_tableRegistry = NewTableRegistry configMgr (Some lifecycle), ci_lifecycle = lifecycle, ci_closed = False\<rparr>
                in case initializeConnections L client (cs_process s) of
                     (Some err, _, p) \<Rightarrow> (Inl (Wrapf ''failed to initialize connections: %w'' [] err), s\<lparr>cs_process := p\<rparr>)
                   | (None, client', p) \<Rightarrow> (Inr client', s\<lparr>cs_process := p\<rparr>))))"

text \<open>Table objects: the process is shared, the rest of a table's state is its own.\<close>

definition table_get :: "nat \<Rightarrow> 'e cstate \<Rightarrow> 'e process tstate" where
  "table_get i s = with_env (cs_process s) (cs_heap s i)"

definition table_put :: "nat \<Rightarrow> 'e process tstate \<Rightarrow> 'e cstate \<Rightarrow> 'e cstate" where
  "table_put i ts s = s\<lparr>cs_process := env ts, cs_heap := (cs_heap s)(i := ts)\<rparr>"

definition client_table :: "nat \<Rightarrow> 'e process TableImpl \<Rightarrow> 'e cstate core_table" where
  "client_table i t = core_table_of i (table_get i) (table_put i) t"

definition kafkaConfig :: "InternalKafkaConfig \<Rightarrow> KafkaQueueConfig" where
  "kafkaConfig k = \<lparr>kqc_Brokers = ikc_Brokers k, kqc_Topic = ikc_Topic k, kqc_GroupID = ikc_GroupID k, kqc_BatchSize = ikc_BatchSize k,
     kqc_BatchTimeout = ikc_BatchTimeout k, kqc_WriteTimeout = ikc_WriteTimeout k, kqc_ReadTimeout = ikc_ReadTimeout k,
     kqc_RequiredAcks = ikc_RequiredAcks k, kqc_MaxMessageBytes = ikc_MaxMessageBytes k, kqc_MinBytes = ikc_MinBytes k,
     kqc_MaxBytes = ikc_MaxBytes k, kqc_MaxWait = ikc_MaxWait k\<rparr>"

text \<open>The queue of the table object \<open>i\<close>.\<close>

definition make_queue :: "'e libs \<Rightarrow> InternalWriteBackConfig \<Rightarrow> 'e store \<Rightarrow> nat \<Rightarrow> 'e process \<Rightarrow> ('e process wbqueue \<times> 'e process) res" where
  "make_queue L wb kvStore i p =
     (let memory = (q_via (memory_part i) (put_memory_part i) (memory_queue None (\<lambda>_. False)),
            put_memory_part i (NewMemoryQueue (iwb_QueueBufferSize wb)) p) in
      if iwb_QueueType wb = ''memory'' then Inr memory
      else if iwb_QueueType wb = ''redis''
      then case kvStore of
             RedisKVStore c \<Rightarrow> Inr (q_via (rq_part i) (put_rq_part i) (redis_queue (on_server (lib_now L)) (queue_on_redis c ''wbq'')),
               p\<lparr>pr_rqClosed := (pr_rqClosed p)(i := False)\<rparr>)
           | DynamoDBKVStore c n \<Rightarrow> Inl (Errorf ''Redis KV store required for Redis queue type'' [])
      else if iwb_QueueType wb = ''kafka''
      then case NewKafkaQueue (lib_kafka L) (kafkaConfig (iwb_KafkaConfig wb)) (pr_env p) of
             Inl err \<Rightarrow> Inl (Wrapf ''failed to create Kafka queue: %w'' [] err)
           | Inr (k, q) \<Rightarrow> Inr (q_via (kafka_part i) (put_kafka_part i) (kafka_queue k (lib_now L)), put_kafka_part i q p)
      else Inr memory)"

definition createTableInstance :: "'e libs \<Rightarrow> string \<Rightarrow> schema \<Rightarrow> TableConfigData \<Rightarrow> 'e ClientImpl \<Rightarrow> 'e cstate \<Rightarrow> 'e cstate core_table res \<times> 'e cstate" where
  "createTableInstance L tableName schema config c s =
     (case ci_kvStore c of
        None \<Rightarrow> (Inl (Errorf ''KV store not initialized'' []), s)
      | Some kvStore \<Rightarrow>
          (case ci_database c of
             None \<Rightarrow> (Inl (Errorf ''database not initialized'' []), s)
           | Some db \<Rightarrow>
               (let i = cs_next s in
                case make_queue L (ic_WriteBack (cm_GetConfig (ci_configMgr c))) kvStore i (cs_process s) of
                  Inl err \<Rightarrow> (Inl err, s)
                | Inr (queue, p) \<Rightarrow>
                    (let (t, ts) = NewTableImpl tableName schema (store_methods L kvStore) (database_methods L db) queue
                           (tcd_TTL config) (tcd_Namespace config) (process_now L) (lib_tz L) p
                     in (Inr (client_table i t), s\<lparr>cs_process := p, cs_heap := (cs_heap s)(i := ts), cs_next := i + 1\<rparr>)))))"

definition client_closed :: gerror where
  "client_closed = Errorf ''client is closed'' []"

definition no_table_name :: gerror where
  "no_table_name = Errorf ''table name cannot be empty'' []"

text \<open>A table made for a nil schema, which the database never returns, is refused by \<^verbatim>\<open>Register\<close> and dropped.\<close>

definition cl_EnableKV :: "'e libs \<Rightarrow> string \<Rightarrow> TableConfigData \<Rightarrow> 'e ClientImpl \<Rightarrow> 'e cstate \<Rightarrow>
    'e cstate core_table res \<times> 'e ClientImpl \<times> 'e cstate" where
  "cl_EnableKV L tableName tableConfig c s =
     (if tableName = [] then (Inl no_table_name, c, s)
      else if ci_closed c then (Inl client_closed, c, s)
      else case tr_Get tableName (ci_tableRegistry c) of
        Inr existingTable \<Rightarrow>
          (if (case GetMetadata tableName (ci_tableRegistry c) of Inl _ \<Rightarrow> False | Inr metadata \<Rightarrow> tm_Enabled metadata)
           then (Inr existingTable, c, s)
           else case tr_EnableKV (client_now L) tableName (ci_tableRegistry c) s of
             (Some err, tr, s1) \<Rightarrow> (Inl (Wrapf ''failed to enable KV for table %q: %w'' [tableName] err), c\<lparr>ci_tableRegistry := tr\<rparr>, s1)
           | (None, tr, s1) \<Rightarrow> (Inr existingTable, c\<lparr>ci_tableRegistry := tr\<rparr>, s1))
      | Inl _ \<Rightarrow>
          (case ci_database c of
             None \<Rightarrow> (Inl (Errorf ''database connection not initialized'' []), c, s)
           | Some db \<Rightarrow>
               (case on_process (db_GetSchema (database_methods L db) tableName) s of
                  (Inl err, s1) \<Rightarrow> (Inl (Wrapf ''failed to discover schema for table %q: %w'' [tableName] err), c, s1)
                | (Inr schema, s1) \<Rightarrow>
                    (case createTableInstance L tableName
                            (case schema of None \<Rightarrow> \<lparr>sch_TableName = [], sch_PrimaryKey = [], sch_Columns = [], sch_Indexes = []\<rparr> | Some sc \<Rightarrow> sc)
                            tableConfig c s1 of
                       (Inl err, s2) \<Rightarrow> (Inl (Wrapf ''failed to create table instance: %w'' [] err), c, s2)
                     | (Inr table, s2) \<Rightarrow>
                         (case tr_Register (client_now L) tableName (Some table) schema (ci_tableRegistry c) s2 of
                            (Some err, tr, s3) \<Rightarrow> (Inl (Wrapf ''failed to register table: %w'' [] err), c\<lparr>ci_tableRegistry := tr\<rparr>, s3)
                          | (None, tr, s3) \<Rightarrow>
                              (case tr_EnableKV (client_now L) tableName tr s3 of
                                 (Some err, tr', s4) \<Rightarrow>
                                   (Inl (Wrapf ''failed to enable KV for table %q: %w'' [tableName] err), c\<lparr>ci_tableRegistry := tr'\<rparr>, s4)
                               | (None, tr', s4) \<Rightarrow> (Inr table, c\<lparr>ci_tableRegistry := tr'\<rparr>, s4)))))))"

definition cl_DisableKV :: "'e libs \<Rightarrow> string \<Rightarrow> 'e ClientImpl \<Rightarrow> 'e cstate \<Rightarrow> gerror option \<times> 'e ClientImpl \<times> 'e cstate" where
  "cl_DisableKV L tableName c s =
     (if tableName = [] then (Some no_table_name, c, s)
      else if ci_closed c then (Some client_closed, c, s)
      else let (e, tr, s1) = tr_DisableKV (client_now L) tableName (ci_tableRegistry c) s in (e, c\<lparr>ci_tableRegistry := tr\<rparr>, s1))"

definition cl_GetTable :: "string \<Rightarrow> 'e ClientImpl \<Rightarrow> 'e cstate core_table res" where
  "cl_GetTable tableName c =
     (if tableName = [] then Inl no_table_name
      else if ci_closed c then Inl client_closed
      else tr_Get tableName (ci_tableRegistry c))"

definition wrapped :: "string \<Rightarrow> gerror option \<Rightarrow> gerror list" where
  "wrapped fmt e = (case e of None \<Rightarrow> [] | Some err \<Rightarrow> [Wrapf fmt [] err])"

definition cl_Close :: "'e libs \<Rightarrow> 'e cstate map_order \<Rightarrow> 'e ClientImpl \<Rightarrow> 'e cstate \<Rightarrow> gerror option \<times> 'e ClientImpl \<times> 'e cstate" where
  "cl_Close L iter c s =
     (if ci_closed c then (None, c, s)
      else let (e1, tr, s1) = tr_Clear iter (ci_tableRegistry c) s;
               (e2, s2) = (case ci_kvStore c of None \<Rightarrow> (None, s1) | Some kv \<Rightarrow> on_process (kv_Close (store_methods L kv)) s1);
               (e3, s3) = (case ci_database c of None \<Rightarrow> (None, s2) | Some db \<Rightarrow> on_process (db_Close (database_methods L db)) s2);
               errs = wrapped ''failed to clear table registry: %w'' e1 @ wrapped ''failed to close KV store: %w'' e2 @
                 wrapped ''failed to close database: %w'' e3
           in (if errs = [] then None else Some (Errsf ''errors during close: %v'' errs),
               c\<lparr>ci_closed := True, ci_tableRegistry := tr\<rparr>, s3))"

section \<open>Lemmas\<close>

lemma init_factories_eq: "init_factories L = Inr [(''dynamodb'', DynamoDBKVStoreFactory L), (''redis'', RedisKVStoreFactory L)]"
  by (simp add: init_factories_def RegisterFactory_def DynamoDBKVStoreFactory_def RedisKVStoreFactory_def gomap_set_def)

lemma factories_registered: "factories (factoryRegistry L)"
proof -
  have "RegisterFactory (Some (DynamoDBKVStoreFactory L)) [] = Inr [(''dynamodb'', DynamoDBKVStoreFactory L)]"
    by (simp add: RegisterFactory_def DynamoDBKVStoreFactory_def gomap_set_def)
  moreover from this have "RegisterFactory (Some (RedisKVStoreFactory L)) [(''dynamodb'', DynamoDBKVStoreFactory L)] = Inr (factoryRegistry L)"
    using init_factories_eq [of L] by (simp add: init_factories_def factoryRegistry_def)
  ultimately show ?thesis using factories.empty factories.register by metis
qed

lemma validatorRegistry_eq: "validatorRegistry = [(''dynamodb'', DynamoDBConfigValidator), (''redis'', RedisConfigValidator)]"
  by (simp add: validatorRegistry_def init_validators_eq)

subsection \<open>Table objects as switches\<close>

definition client_on :: "nat \<Rightarrow> 'e cstate \<Rightarrow> bool" where
  "client_on i s = ts_enabled (cs_heap s i)"

definition client_lawful :: "'e cstate core_table \<Rightarrow> bool" where
  "client_lawful ct \<longleftrightarrow> (\<exists>i t. ct = client_table i t)"

lemma client_now_effect: "client_now L s = (ts, s') \<Longrightarrow> cs_next s' = cs_next s \<and> cs_heap s' = cs_heap s"
  by (auto simp: client_now_def on_process_def via_iff)

lemma client_table_simps [simp]: "ct_id (client_table i t) = i" "client_lawful (client_table i t)"
  by (auto simp: client_table_def core_table_of_def client_lawful_def)

lemma client_switch:
  assumes "client_lawful t"
  shows "ct_EnableKV t s = (e, s') \<Longrightarrow> e = None \<and> cs_next s' = cs_next s \<and> (\<forall>i. client_on i s' \<longleftrightarrow> i = ct_id t \<or> client_on i s)"
    and "ct_DisableKV t s = (e, s') \<Longrightarrow> e = None \<and> cs_next s' = cs_next s \<and> (\<forall>i. client_on i s' \<longleftrightarrow> i \<noteq> ct_id t \<and> client_on i s)"
  using assms
  by (auto simp: client_lawful_def client_table_def core_table_of_def via_iff EnableKV_def DisableKV_def client_on_def table_put_def table_get_def
      split: if_splits)

interpretation cl: table_switch client_on client_lawful "client_now L"
proof (unfold_locales, goal_cases)
  case (3 s ts s' i)
  then show ?case using client_now_effect [OF 3] by (simp add: client_on_def)
qed (use client_switch in blast)+

text \<open>The client never registers a hook.\<close>

lemma no_hooks [simp]:
  "ExecuteEnableHooks n sc NewLifecycleManager s = (None, s)" "ExecuteDisableHooks n sc NewLifecycleManager s = (None, s)"
  "quiet_hooks f NewLifecycleManager"
  by (simp_all add: ExecuteEnableHooks_def ExecuteDisableHooks_def NewLifecycleManager_def quiet_hooks_def)

lemma registry_enables:
  assumes "tr_lifecycle tr = NewLifecycleManager" and "map_of (tr_tables tr) n = Some m" and "client_lawful (tm_Table m)" and "\<not> tm_Enabled m"
  obtains ts s' where "tr_EnableKV (client_now L) n tr s = (None, tr\<lparr>tr_tables := gomap_set (tr_tables tr) n
      (m\<lparr>tm_Enabled := True, tm_EnabledAt := Some ts, tm_DisabledAt := None, tm_UpdatedAt := ts\<rparr>)\<rparr>, s')"
    "\<And>i. client_on i s' \<longleftrightarrow> i = ct_id (tm_Table m) \<or> client_on i s" "cs_next s' = cs_next s"
proof -
  obtain e s1 where x: "ct_EnableKV (tm_Table m) s = (e, s1)" by (metis surj_pair)
  obtain ts s' where c: "client_now L s1 = (ts, s')" by (metis surj_pair)
  note f = client_switch(1) [OF assms(3) x] client_now_effect [OF c]
  show ?thesis
    by (rule that [of ts s']) (use assms x c f in \<open>auto simp: tr_EnableKV_def client_on_def\<close>)
qed

lemma registry_disables:
  assumes "tr_lifecycle tr = NewLifecycleManager" and "map_of (tr_tables tr) n = Some m" and "client_lawful (tm_Table m)" and "tm_Enabled m"
  obtains ts s' where "tr_DisableKV (client_now L) n tr s = (None, tr\<lparr>tr_tables := gomap_set (tr_tables tr) n
      (m\<lparr>tm_Enabled := False, tm_DisabledAt := Some ts, tm_EnabledAt := None, tm_UpdatedAt := ts\<rparr>)\<rparr>, s')"
    "\<And>i. client_on i s' \<longleftrightarrow> i \<noteq> ct_id (tm_Table m) \<and> client_on i s" "cs_next s' = cs_next s"
proof -
  obtain e s1 where x: "ct_DisableKV (tm_Table m) s = (e, s1)" by (metis surj_pair)
  obtain ts s' where c: "client_now L s1 = (ts, s')" by (metis surj_pair)
  note f = client_switch(2) [OF assms(3) x] client_now_effect [OF c]
  show ?thesis
    by (rule that [of ts s']) (use assms x c f in \<open>auto simp: tr_DisableKV_def client_on_def\<close>)
qed

lemma registry_clears:
  assumes "\<forall>(n, m) \<in> set ms. client_lawful (tm_Table m)" and "clear_tables NewLifecycleManager ms s = (e, s')"
  shows "e = None \<and> cs_next s' = cs_next s \<and>
    (\<forall>i. client_on i s' \<longleftrightarrow> client_on i s \<and> (\<forall>(n, m) \<in> set ms. tm_Enabled m \<longrightarrow> ct_id (tm_Table m) \<noteq> i))"
  using assms
proof (induction ms arbitrary: s)
  case (Cons x ms)
  obtain n m where x: "x = (n, m)" by (metis surj_pair)
  have l: "\<forall>(n, m) \<in> set ms. client_lawful (tm_Table m)" using Cons.prems(1) by auto
  show ?case
  proof (cases "tm_Enabled m")
    case True
    obtain e1 s1 where d: "ct_DisableKV (tm_Table m) s = (e1, s1)" by (metis surj_pair)
    have "client_lawful (tm_Table m)" using Cons.prems(1) x by auto
    note f = client_switch(2) [OF this d]
    have "clear_tables NewLifecycleManager ms s1 = (e, s')" using Cons.prems(2) x True d f by simp
    from Cons.IH [OF l this] f x True show ?thesis by auto
  next
    case False
    then have "clear_tables NewLifecycleManager ms s = (e, s')" using Cons.prems(2) x by simp
    from Cons.IH [OF l this] x False show ?thesis by auto
  qed
qed simp

subsection \<open>The invariant of the client\<close>

text \<open>
  The registry is consistent, agrees with the table objects, and knows every object that is on, except
  for the table objects \<open>X\<close> that are switched directly; a closed client has no tables.
\<close>

definition client_inv :: "nat set \<Rightarrow> 'e ClientImpl \<Rightarrow> 'e cstate \<Rightarrow> bool" where
  "client_inv X c s \<longleftrightarrow> reg_ok (ci_tableRegistry c) \<and> tr_lifecycle (ci_tableRegistry c) = NewLifecycleManager \<and>
     flags_agree_but X client_on client_lawful (ci_tableRegistry c) s \<and>
     (\<forall>n m. map_of (tr_tables (ci_tableRegistry c)) n = Some m \<longrightarrow> ct_id (tm_Table m) < cs_next s) \<and>
     (\<forall>i < cs_next s. i \<notin> X \<longrightarrow> client_on i s \<longrightarrow> (\<exists>n m. map_of (tr_tables (ci_tableRegistry c)) n = Some m \<and> ct_id (tm_Table m) = i)) \<and>
     (ci_closed c \<longrightarrow> tr_tables (ci_tableRegistry c) = [])"

lemma client_invD:
  assumes "client_inv X c s" and "map_of (tr_tables (ci_tableRegistry c)) n = Some m"
  shows "client_lawful (tm_Table m)" "ct_id (tm_Table m) \<in> X \<or> (client_on (ct_id (tm_Table m)) s \<longleftrightarrow> tm_Enabled m)" "ct_id (tm_Table m) < cs_next s" "\<not> ci_closed c"
  using assms by (auto simp: client_inv_def flags_agree_but_def)

lemma client_inv_on:
  "client_inv X c s \<Longrightarrow> i < cs_next s \<Longrightarrow> i \<notin> X \<Longrightarrow> client_on i s \<Longrightarrow>
     \<exists>n m. map_of (tr_tables (ci_tableRegistry c)) n = Some m \<and> ct_id (tm_Table m) = i"
  by (simp add: client_inv_def)

lemma client_inv_frame:
  assumes "client_inv X c s" and "cs_next s \<le> cs_next s'" and "\<And>i. i < cs_next s \<Longrightarrow> i \<notin> X \<Longrightarrow> client_on i s' = client_on i s"
    and "\<And>i. cs_next s \<le> i \<Longrightarrow> i < cs_next s' \<Longrightarrow> \<not> client_on i s'"
  shows "client_inv X c s'"
proof -
  let ?tr = "ci_tableRegistry c"
  have lt: "ct_id (tm_Table m) < cs_next s" if "map_of (tr_tables ?tr) n = Some m" for n m using client_invD [OF assms(1) that] by simp
  then have "flags_agree_but X client_on client_lawful ?tr s'" using assms(1,3) unfolding client_inv_def flags_agree_but_def by metis
  moreover have "\<exists>n m. map_of (tr_tables ?tr) n = Some m \<and> ct_id (tm_Table m) = i" if "i < cs_next s'" "i \<notin> X" "client_on i s'" for i
    using that assms(1,3,4) unfolding client_inv_def by (metis not_less)
  ultimately show ?thesis using assms(1,2) lt unfolding client_inv_def by (meson order_less_le_trans)
qed

lemma client_inv_update:
  assumes "client_inv X c s" and "map_of (tr_tables (ci_tableRegistry c)) n = Some m"
    and "reg_ok ((ci_tableRegistry c)\<lparr>tr_tables := gomap_set (tr_tables (ci_tableRegistry c)) n m'\<rparr>)"
    and "flags_agree_but X client_on client_lawful ((ci_tableRegistry c)\<lparr>tr_tables := gomap_set (tr_tables (ci_tableRegistry c)) n m'\<rparr>) s'"
    and "tm_Table m' = tm_Table m" and "cs_next s' = cs_next s" and "\<And>i. i \<noteq> ct_id (tm_Table m) \<Longrightarrow> client_on i s' = client_on i s"
  shows "client_inv X (c\<lparr>ci_tableRegistry := (ci_tableRegistry c)\<lparr>tr_tables := gomap_set (tr_tables (ci_tableRegistry c)) n m'\<rparr>\<rparr>) s'"
proof -
  let ?ms = "tr_tables (ci_tableRegistry c)"
  have "\<exists>n' m1. map_of (gomap_set ?ms n m') n' = Some m1 \<and> ct_id (tm_Table m1) = i" if i: "i < cs_next s'" "i \<notin> X" "client_on i s'" for i
  proof (cases "i = ct_id (tm_Table m)")
    case False
    then obtain n0 m0 where "map_of ?ms n0 = Some m0" "ct_id (tm_Table m0) = i"
      using client_inv_on [OF assms(1), of i] i assms(6) assms(7) [OF False] by auto
    then show ?thesis using False assms(2) by (intro exI [of _ n0] exI [of _ m0]) auto
  qed (use assms(5) in auto)
  moreover have "ct_id (tm_Table m1) < cs_next s'" if "map_of (gomap_set ?ms n m') n' = Some m1" for n' m1
    using that assms(1,2,5,6) client_invD(3) by (auto split: if_splits)
  ultimately show ?thesis using assms(1,3,4) client_invD(4) [OF assms(1,2)] by (simp add: client_inv_def)
qed

lemma client_inv_enable:
  assumes "client_inv X c s" and "map_of (tr_tables (ci_tableRegistry c)) n = Some m" and "\<not> tm_Enabled m"
  obtains tr' s' m' where "tr_EnableKV (client_now L) n (ci_tableRegistry c) s = (None, tr', s')"
    "client_inv X (c\<lparr>ci_tableRegistry := tr'\<rparr>) s'" "map_of (tr_tables tr') n = Some m'" "tm_Table m' = tm_Table m" "tm_Enabled m'"
    "\<And>i. client_on i s' \<longleftrightarrow> i = ct_id (tm_Table m) \<or> client_on i s" "cs_next s' = cs_next s"
proof -
  let ?tr = "ci_tableRegistry c"
  have hk: "tr_lifecycle ?tr = NewLifecycleManager" using assms(1) by (simp add: client_inv_def)
  note d = client_invD [OF assms(1,2)]
  obtain ts s' where e: "tr_EnableKV (client_now L) n ?tr s = (None, ?tr\<lparr>tr_tables := gomap_set (tr_tables ?tr) n
      (m\<lparr>tm_Enabled := True, tm_EnabledAt := Some ts, tm_DisabledAt := None, tm_UpdatedAt := ts\<rparr>)\<rparr>, s')"
    "\<And>i. client_on i s' \<longleftrightarrow> i = ct_id (tm_Table m) \<or> client_on i s" "cs_next s' = cs_next s"
    by (rule registry_enables [OF hk assms(2) d(1) assms(3), of L s]) blast
  let ?m = "m\<lparr>tm_Enabled := True, tm_EnabledAt := Some ts, tm_DisabledAt := None, tm_UpdatedAt := ts\<rparr>"
  let ?tr' = "?tr\<lparr>tr_tables := gomap_set (tr_tables ?tr) n ?m\<rparr>"
  have "reg_ok ?tr'" using reg_ok_step [OF tr_step.enable [OF e(1)]] assms(1) by (simp add: client_inv_def)
  moreover have "flags_agree_but X client_on client_lawful ?tr' s'"
    using cl.enable_agrees [OF _ _ e(1)] assms(1) hk by (simp add: client_inv_def)
  ultimately have "client_inv X (c\<lparr>ci_tableRegistry := ?tr'\<rparr>) s'" by (rule client_inv_update [OF assms(1,2)]) (simp_all add: e)
  then show ?thesis using that [OF e(1) _ _ _ _ e(2,3), of ?m] by simp
qed

lemma client_inv_register:
  assumes "client_inv X c s" and "map_of (tr_tables (ci_tableRegistry c)) n = None" and "client_lawful t" and "ct_id t < cs_next s"
    and "\<not> client_on (ct_id t) s" and "\<forall>n' m. map_of (tr_tables (ci_tableRegistry c)) n' = Some m \<longrightarrow> ct_id (tm_Table m) \<noteq> ct_id t"
    and "\<not> ci_closed c" and "tr_Register (client_now L) n (Some t) sch (ci_tableRegistry c) s = (e, tr', s')"
  shows "client_inv X (c\<lparr>ci_tableRegistry := tr'\<rparr>) s' \<and> cs_next s' = cs_next s \<and> (\<forall>i. client_on i s' = client_on i s) \<and>
    (if e = None then \<exists>m. map_of (tr_tables tr') n = Some m \<and> tm_Table m = t \<and> \<not> tm_Enabled m else tr' = ci_tableRegistry c)"
  using tr_Register_cases [OF assms(8)]
proof
  let ?tr = "ci_tableRegistry c"
  assume "\<exists>t' sc ts. n \<noteq> [] \<and> Some t = Some t' \<and> sch = Some sc \<and> sch_TableName sc = n \<and> e = None \<and> client_now L s = (ts, s') \<and>
     tr' = ?tr\<lparr>tr_tables := gomap_set (tr_tables ?tr) n (new_metadata n t' sc (GetTableConfig n (tr_configMgr ?tr)) ts (map_of (tr_tables ?tr) n))\<rparr>"
  then obtain sc ts where c: "client_now L s = (ts, s')" and e: "e = None" and
    tr': "tr' = ?tr\<lparr>tr_tables := gomap_set (tr_tables ?tr) n (new_metadata n t sc (GetTableConfig n (tr_configMgr ?tr)) ts None)\<rparr>"
    using assms(2) by auto
  note f = client_now_effect [OF c]
  have "reg_ok tr'" using reg_ok_step [OF tr_step.register [OF assms(8)]] assms(1) by (simp add: client_inv_def)
  moreover have "flags_agree_but X client_on client_lawful tr' s'"
    using cl.register_agrees [OF _ assms(3,5,2) _ assms(8)] assms(1,6) by (auto simp: client_inv_def)
  moreover have "map_of (tr_tables ?tr) n' = Some m \<Longrightarrow> n' \<noteq> n" for n' m using assms(2) by auto
  ultimately have "client_inv X (c\<lparr>ci_tableRegistry := tr'\<rparr>) s'"
    using assms(1,4,7) f unfolding client_inv_def client_on_def tr'
    by (auto simp: new_metadata_def split: if_splits) metis
  then show ?thesis using f e tr' by (auto simp: client_on_def new_metadata_def)
qed (use assms(1) in auto)

lemma client_inv_disable:
  assumes "client_inv X c s" and "tr_DisableKV (client_now L) n (ci_tableRegistry c) s = (e, tr', s')"
  shows "client_inv X (c\<lparr>ci_tableRegistry := tr'\<rparr>) s' \<and> cs_next s' = cs_next s \<and>
    (case map_of (tr_tables (ci_tableRegistry c)) n of
       None \<Rightarrow> e = Some (not_registered n) \<and> tr' = ci_tableRegistry c \<and> s' = s
     | Some m \<Rightarrow> e = None \<and> (\<exists>m'. map_of (tr_tables tr') n = Some m' \<and> tm_Table m' = tm_Table m \<and> \<not> tm_Enabled m') \<and>
         (if tm_Enabled m then \<forall>i. client_on i s' \<longleftrightarrow> i \<noteq> ct_id (tm_Table m) \<and> client_on i s else s' = s))"
proof (cases "map_of (tr_tables (ci_tableRegistry c)) n")
  case None
  then show ?thesis using assms by (auto simp: tr_DisableKV_def)
next
  case (Some m)
  let ?tr = "ci_tableRegistry c"
  have hk: "tr_lifecycle ?tr = NewLifecycleManager" using assms(1) by (simp add: client_inv_def)
  note d = client_invD [OF assms(1) Some]
  show ?thesis
  proof (cases "tm_Enabled m")
    case True
    obtain ts s1 where x: "tr_DisableKV (client_now L) n ?tr s = (None, ?tr\<lparr>tr_tables := gomap_set (tr_tables ?tr) n
        (m\<lparr>tm_Enabled := False, tm_DisabledAt := Some ts, tm_EnabledAt := None, tm_UpdatedAt := ts\<rparr>)\<rparr>, s1)"
      "\<And>i. client_on i s1 \<longleftrightarrow> i \<noteq> ct_id (tm_Table m) \<and> client_on i s" "cs_next s1 = cs_next s"
      by (rule registry_disables [OF hk Some d(1) True, of L s]) blast
    have tr': "e = None" "tr' = ?tr\<lparr>tr_tables := gomap_set (tr_tables ?tr) n
        (m\<lparr>tm_Enabled := False, tm_DisabledAt := Some ts, tm_EnabledAt := None, tm_UpdatedAt := ts\<rparr>)\<rparr>" "s1 = s'"
      using assms(2) x(1) by auto
    have "reg_ok tr'" using reg_ok_step [OF tr_step.disable [OF assms(2)]] assms(1) by (simp add: client_inv_def)
    moreover have "flags_agree_but X client_on client_lawful tr' s'"
      using cl.disable_agrees [OF _ _ assms(2)] assms(1) hk by (simp add: client_inv_def)
    ultimately have "client_inv X (c\<lparr>ci_tableRegistry := tr'\<rparr>) s'"
      unfolding tr'(2) by (rule client_inv_update [OF assms(1) Some]) (use x tr'(3) in simp_all)
    then show ?thesis using Some True x(2,3) tr' by simp
  next
    case False
    then show ?thesis using assms Some d by (auto simp: tr_DisableKV_def)
  qed
qed

lemma createTableInstance_effect:
  assumes "createTableInstance L n sc cfg c s = (r, s')"
  shows "case r of
      Inl err \<Rightarrow> s' = s
    | Inr t \<Rightarrow> client_lawful t \<and> ct_id t = cs_next s \<and> cs_next s' = Suc (cs_next s) \<and> \<not> client_on (cs_next s) s' \<and>
        (\<forall>i < cs_next s. client_on i s' = client_on i s)"
  using assms
  by (auto simp: createTableInstance_def NewTableImpl_def client_on_def Let_def split: option.splits sum.splits prod.splits)

lemma on_process_effect: "on_process f s = (x, s') \<Longrightarrow> cs_next s' = cs_next s \<and> cs_heap s' = cs_heap s"
  by (auto simp: on_process_def via_iff)

definition enable_effect :: "nat set \<Rightarrow> string \<Rightarrow> 'e ClientImpl \<Rightarrow> 'e cstate \<Rightarrow> 'e cstate core_table res \<Rightarrow> 'e ClientImpl \<Rightarrow> 'e cstate \<Rightarrow> bool" where
  "enable_effect X n c s r c' s' \<longleftrightarrow> client_inv X c' s' \<and>
     (case r of
        Inl _ \<Rightarrow> c' = c \<and> (\<forall>i < cs_next s. client_on i s' = client_on i s)
      | Inr t \<Rightarrow> n \<noteq> [] \<and> \<not> ci_closed c' \<and> (\<exists>m. map_of (tr_tables (ci_tableRegistry c')) n = Some m \<and> tm_Table m = t \<and> tm_Enabled m) \<and>
          (ct_id t \<notin> X \<or> IsEnabled n (ci_tableRegistry c) \<noteq> Inr True \<longrightarrow> client_on (ct_id t) s') \<and>
          (\<forall>i < cs_next s. i \<noteq> ct_id t \<longrightarrow> client_on i s' = client_on i s) \<and>
          c' = c\<lparr>ci_tableRegistry := ci_tableRegistry c'\<rparr>)"

lemma enable_registered:
  assumes "client_inv X c s" and "map_of (tr_tables (ci_tableRegistry c)) n = Some m" and "n \<noteq> []"
    and "cl_EnableKV L n cfg c s = (r, c', s')"
  shows "enable_effect X n c s r c' s' \<and> r = Inr (tm_Table m)"
proof (cases "tm_Enabled m")
  case True
  then show ?thesis using assms client_invD [OF assms(1,2)]
    by (auto simp: cl_EnableKV_def tr_Get_def GetMetadata_def enable_effect_def IsEnabled_def)
next
  case False
  note d = client_invD [OF assms(1,2)]
  obtain tr' s1 m' where e: "tr_EnableKV (client_now L) n (ci_tableRegistry c) s = (None, tr', s1)"
    "client_inv X (c\<lparr>ci_tableRegistry := tr'\<rparr>) s1" "map_of (tr_tables tr') n = Some m'" "tm_Table m' = tm_Table m" "tm_Enabled m'"
    "\<And>i. client_on i s1 \<longleftrightarrow> i = ct_id (tm_Table m) \<or> client_on i s" "cs_next s1 = cs_next s"
    by (rule client_inv_enable [OF assms(1,2) False]) blast
  have "r = Inr (tm_Table m)" "c' = c\<lparr>ci_tableRegistry := tr'\<rparr>" "s' = s1"
    using assms(2-4) e(1) d(4) False by (auto simp: cl_EnableKV_def tr_Get_def GetMetadata_def)
  then show ?thesis using assms(3) e d(4) by (auto simp: enable_effect_def)
qed

lemma register_enable:
  assumes "client_inv X c s" and "map_of (tr_tables (ci_tableRegistry c)) n = None" and "client_lawful tab" and "ct_id tab < cs_next s"
    and "\<not> client_on (ct_id tab) s" and "\<forall>n' m. map_of (tr_tables (ci_tableRegistry c)) n' = Some m \<longrightarrow> ct_id (tm_Table m) \<noteq> ct_id tab"
    and "n \<noteq> []" and "\<not> ci_closed c"
    and "(case tr_Register (client_now L) n (Some tab) schema (ci_tableRegistry c) s of
        (Some err, tr, s3) \<Rightarrow> (Inl (Wrapf ''failed to register table: %w'' [] err), c\<lparr>ci_tableRegistry := tr\<rparr>, s3)
      | (None, tr, s3) \<Rightarrow>
          (case tr_EnableKV (client_now L) n tr s3 of
             (Some err, tr', s4) \<Rightarrow> (Inl (Wrapf ''failed to enable KV for table %q: %w'' [n] err), c\<lparr>ci_tableRegistry := tr'\<rparr>, s4)
           | (None, tr', s4) \<Rightarrow> (Inr tab, c\<lparr>ci_tableRegistry := tr'\<rparr>, s4))) = (r, c', s')"
  shows "enable_effect X n c s r c' s'"
proof -
  obtain e tr' s3 where r: "tr_Register (client_now L) n (Some tab) schema (ci_tableRegistry c) s = (e, tr', s3)" by (metis surj_pair)
  note r' = client_inv_register [OF assms(1-6,8) r]
  show ?thesis
  proof (cases e)
    case (Some err)
    then show ?thesis using assms(9) r r' by (auto simp: enable_effect_def)
  next
    case None
    then obtain m where m: "map_of (tr_tables tr') n = Some m" "tm_Table m = tab" "\<not> tm_Enabled m" using r' by auto
    let ?c = "c\<lparr>ci_tableRegistry := tr'\<rparr>"
    obtain tr4 s4 m' where e4: "tr_EnableKV (client_now L) n (ci_tableRegistry ?c) s3 = (None, tr4, s4)"
      "client_inv X (?c\<lparr>ci_tableRegistry := tr4\<rparr>) s4" "map_of (tr_tables tr4) n = Some m'" "tm_Table m' = tm_Table m"
      "tm_Enabled m'" "\<And>i. client_on i s4 \<longleftrightarrow> i = ct_id (tm_Table m) \<or> client_on i s3" "cs_next s4 = cs_next s3"
      by (rule client_inv_enable [of X ?c s3 n m L]) (use r' m in auto)
    then show ?thesis using assms(7-9) r r' None m by (auto simp: enable_effect_def)
  qed
qed

lemma enable_unregistered:
  assumes "client_inv X c s" and "map_of (tr_tables (ci_tableRegistry c)) n = None" and "cl_EnableKV L n cfg c s = (r, c', s')"
  shows "enable_effect X n c s r c' s'"
proof -
  have same: ?thesis if "c' = c" "r = Inl err" "client_inv X c s'" "\<forall>i < cs_next s. client_on i s' = client_on i s" for err
    using that by (simp add: enable_effect_def)
  let ?tr = "ci_tableRegistry c"
  show ?thesis
  proof (cases "n = [] \<or> ci_closed c \<or> ci_database c = None")
    case True
    then show ?thesis using assms by (auto simp: cl_EnableKV_def tr_Get_def enable_effect_def split: if_splits)
  next
    case False
    then obtain db where c: "n \<noteq> []" "\<not> ci_closed c" "ci_database c = Some db" by auto
    obtain gs s1 where g: "on_process (db_GetSchema (database_methods L db) n) s = (gs, s1)" by (metis surj_pair)
    note g' = on_process_effect [OF g]
    have i1: "client_inv X c s1" by (rule client_inv_frame [OF assms(1)]) (use g' in \<open>auto simp: client_on_def\<close>)
    show ?thesis
    proof (cases gs)
      case (Inl err)
      then show ?thesis using assms(2,3) c g g' i1 by (intro same) (auto simp: cl_EnableKV_def tr_Get_def client_on_def)
    next
      case (Inr schema)
      let ?sc = "case schema of None \<Rightarrow> \<lparr>sch_TableName = [], sch_PrimaryKey = [], sch_Columns = [], sch_Indexes = []\<rparr> | Some sc \<Rightarrow> sc"
      obtain ct s2 where t: "createTableInstance L n ?sc cfg c s1 = (ct, s2)" by (metis surj_pair)
      note t' = createTableInstance_effect [OF t]
      show ?thesis
      proof (cases ct)
        case (Inl err)
        then show ?thesis using assms(2,3) c g g' i1 \<open>gs = Inr schema\<close> t t'
          by (intro same) (auto simp: cl_EnableKV_def tr_Get_def client_on_def)
      next
        case ct: (Inr tab)
        have i2: "client_inv X c s2" by (rule client_inv_frame [OF i1]) (use t' ct in \<open>auto simp: less_Suc_eq\<close>)
        have new: "client_lawful tab" "ct_id tab < cs_next s2" "\<not> client_on (ct_id tab) s2" using t' ct by simp_all
        have fr: "\<forall>n' m. map_of (tr_tables ?tr) n' = Some m \<longrightarrow> ct_id (tm_Table m) \<noteq> ct_id tab"
          using client_invD(3) [OF i1] t' ct by fastforce
        have "enable_effect X n c s2 r c' s'"
          by (rule register_enable [OF i2 assms(2) new fr c(1,2)]) (use assms(2,3) c g Inr t ct in \<open>simp add: cl_EnableKV_def tr_Get_def\<close>)
        moreover have "client_on i s2 = client_on i s" if "i < cs_next s" for i using that t' ct g' by (simp add: client_on_def)
        ultimately show ?thesis using t' ct g' by (auto simp: enable_effect_def split: sum.splits)
      qed
    qed
  qed
qed

lemma cl_EnableKV_effect:
  assumes "client_inv X c s" and "cl_EnableKV L n cfg c s = (r, c', s')"
  shows "enable_effect X n c s r c' s'"
proof (cases "map_of (tr_tables (ci_tableRegistry c)) n")
  case (Some m)
  then have "n \<noteq> []" using assms(1) by (auto simp: client_inv_def dest: reg_ok_get simp: meta_ok_def)
  then show ?thesis using enable_registered [OF assms(1) Some _ assms(2)] by blast
qed (use enable_unregistered [OF assms(1) _ assms(2)] in blast)

lemma store_close: "kv_Close (store_methods L kv) p = (e, p') \<Longrightarrow> pr_kvClosed p' \<and> pr_dbClosed p' = pr_dbClosed p"
  by (cases kv) (auto simp: kv_via_def via_iff redis_kvstore_def Redis_Close_def on_server_def redis_part_def put_redis_part_def dynamo_kvstore_def
      Dynamo_Close_def dynamo_part_def put_dynamo_part_def Let_def split: if_splits prod.splits)

lemma closed_store_refuses: "pr_kvClosed p \<Longrightarrow> kv_Set (store_methods L kv) k v ttl p \<noteq> (None, p')"
  by (cases kv) (auto simp: kv_via_def via_iff redis_kvstore_def Redis_Set_def redis_part_def dynamo_kvstore_def Dynamo_Set_def dynamo_part_def Let_def
      split: if_splits prod.splits sum.splits)

lemma database_close: "db_Close (database_methods L db) p = (e, p') \<Longrightarrow> pr_dbClosed p' \<and> pr_kvClosed p' = pr_kvClosed p"
  by (auto simp: database_methods_def mysql_database_def MySQL_Close_def via_iff on_db_def mysql_part_def put_mysql_part_def Let_def
      split: if_splits prod.splits)

lemma cl_Close_effect:
  assumes "client_inv X c s" and "mset (iter (tr_tables (ci_tableRegistry c))) = mset (tr_tables (ci_tableRegistry c))"
    and "cl_Close L iter c s = (e, c', s')"
  shows "client_inv X c' s' \<and> ci_closed c' \<and> cs_next s' = cs_next s \<and>
    (\<not> ci_closed c \<longrightarrow> (ci_kvStore c \<noteq> None \<longrightarrow> pr_kvClosed (cs_process s')) \<and> (ci_database c \<noteq> None \<longrightarrow> pr_dbClosed (cs_process s')))"
proof (cases "ci_closed c")
  case True
  then show ?thesis using assms by (auto simp: cl_Close_def)
next
  case False
  let ?tr = "ci_tableRegistry c"
  have hk: "tr_lifecycle ?tr = NewLifecycleManager" and wf: "gomap_wf (tr_tables ?tr)"
    using assms(1) by (simp_all add: client_inv_def reg_ok_def)
  have set: "set (iter (tr_tables ?tr)) = set (tr_tables ?tr)" using assms(2) by (metis set_mset_mset)
  have reg: "map_of (tr_tables ?tr) n = Some m \<longleftrightarrow> (n, m) \<in> set (iter (tr_tables ?tr))" for n m
    using wf set by (simp add: gomap_wf_def)
  obtain e1 s1 where x: "clear_tables NewLifecycleManager (iter (tr_tables ?tr)) s = (e1, s1)" by (metis surj_pair)
  have law: "\<forall>(n, m) \<in> set (iter (tr_tables ?tr)). client_lawful (tm_Table m)"
    using client_invD(1) [OF assms(1)] reg by blast
  note cl = registry_clears [OF law x]
  have clr: "tr_Clear iter ?tr s = (None, ?tr\<lparr>tr_tables := []\<rparr>, s1)" using x cl hk by (simp add: tr_Clear_def)
  have off: "\<not> client_on i s1" if "i < cs_next s" "i \<notin> X" for i
    using cl client_inv_on [OF assms(1) that] client_invD(2) [OF assms(1)] reg that(2) by fastforce
  obtain e2 s2 where k: "(case ci_kvStore c of None \<Rightarrow> (None, s1) | Some kv \<Rightarrow> on_process (kv_Close (store_methods L kv)) s1) = (e2, s2)"
    by (metis surj_pair)
  obtain e3 s3 where d: "(case ci_database c of None \<Rightarrow> (None, s2) | Some db \<Rightarrow> on_process (db_Close (database_methods L db)) s2) = (e3, s3)"
    by (metis surj_pair)
  have k': "cs_next s2 = cs_next s1" "cs_heap s2 = cs_heap s1" "ci_kvStore c \<noteq> None \<longrightarrow> pr_kvClosed (cs_process s2)"
    using k by (auto simp: on_process_def via_iff dest: store_close split: option.splits)
  have d': "cs_next s3 = cs_next s2" "cs_heap s3 = cs_heap s2" "ci_database c \<noteq> None \<longrightarrow> pr_dbClosed (cs_process s3)"
    "pr_kvClosed (cs_process s3) = pr_kvClosed (cs_process s2)"
    using d by (auto simp: on_process_def via_iff dest: database_close split: option.splits)
  have r: "c' = c\<lparr>ci_closed := True, ci_tableRegistry := ?tr\<lparr>tr_tables := []\<rparr>\<rparr>" "s' = s3"
    using assms(3) False clr k d by (auto simp: cl_Close_def)
  have "client_inv X c' s'"
    using off hk cl k' d' by (auto simp: r client_inv_def reg_ok_def flags_agree_but_def client_on_def)
  then show ?thesis using cl k' d' by (simp add: r)
qed

text \<open>
  A client in use: its operations, with whatever arguments and outcome; the switch that a table has
  itself, which is used on the tables \<open>X\<close>; and in between whatever else leaves the switches of the
  tables alone, such as the other operations of the tables and of the drainers.
\<close>

inductive client_step :: "'e libs \<Rightarrow> nat set \<Rightarrow> 'e ClientImpl \<times> 'e cstate \<Rightarrow> 'e ClientImpl \<times> 'e cstate \<Rightarrow> bool" for L X where
  enable: "cl_EnableKV L n cfg c s = (r, c', s') \<Longrightarrow> client_step L X (c, s) (c', s')"
| disable: "cl_DisableKV L n c s = (e, c', s') \<Longrightarrow> client_step L X (c, s) (c', s')"
| close: "mset (iter (tr_tables (ci_tableRegistry c))) = mset (tr_tables (ci_tableRegistry c)) \<Longrightarrow> cl_Close L iter c s = (e, c', s') \<Longrightarrow>
    client_step L X (c, s) (c', s')"
| switch: "i \<in> X \<Longrightarrow> i < cs_next s \<Longrightarrow> ct_EnableKV (client_table i t) s = (e, s') \<or> ct_DisableKV (client_table i t) s = (e, s') \<Longrightarrow>
    client_step L X (c, s) (c, s')"
| other: "cs_next s' = cs_next s \<Longrightarrow> \<forall>i. client_on i s' = client_on i s \<Longrightarrow> client_step L X (c, s) (c, s')"

lemma client_inv_step: "client_step L X x y \<Longrightarrow> client_inv X (fst x) (snd x) \<Longrightarrow> client_inv X (fst y) (snd y)"
proof (induction rule: client_step.induct)
  case (enable n cfg c s r c' s')
  then show ?case using cl_EnableKV_effect by (fastforce simp: enable_effect_def)
next
  case (disable n c s e c' s')
  then show ?case using client_inv_disable by (fastforce simp: cl_DisableKV_def split: if_splits prod.splits)
next
  case (close iter c s e c' s')
  then show ?case using cl_Close_effect by fastforce
next
  case (switch i s t e s' c)
  then have "cs_next s' = cs_next s \<and> (\<forall>j. j \<noteq> i \<longrightarrow> client_on j s' = client_on j s)"
    using client_switch [of "client_table i t" s e s'] by auto
  then show ?case using switch by (auto intro: client_inv_frame [of X c s])
next
  case (other s' s c)
  then show ?case by (auto intro: client_inv_frame [of X c s])
qed

lemma client_inv_new:
  assumes "NewClientImpl L provider s0 = (Inr c, s)" and "cs_next s0 = 0"
  shows "client_inv X c s"
proof -
  have "cs_next s = 0" "\<exists>cm. ci_tableRegistry c = NewTableRegistry cm (Some NewLifecycleManager)" "\<not> ci_closed c"
    using assms by (auto simp: NewClientImpl_def initializeConnections_def Let_def split: option.splits sum.splits prod.splits if_splits)
  then show ?thesis by (auto simp: client_inv_def reg_ok_def flags_agree_but_def NewTableRegistry_def)
qed

lemma client_inv_reachable:
  assumes "NewClientImpl L provider s0 = (Inr c0, s1)" and "cs_next s0 = 0" and "(client_step L X)\<^sup>*\<^sup>* (c0, s1) (c, s)"
  shows "client_inv X c s"
proof -
  have "(client_step L X)\<^sup>*\<^sup>* x y \<Longrightarrow> client_inv X (fst x) (snd x) \<Longrightarrow> client_inv X (fst y) (snd y)" for x y
    by (induction rule: rtranclp_induct) (auto dest: client_inv_step)
  from this [OF assms(3)] client_inv_new [OF assms(1,2)] show ?thesis by simp
qed

text \<open>The operations of a table are such steps: none of them changes the switch.\<close>

lemma on_env_enabled: "on_env f s = (x, s') \<Longrightarrow> ts_enabled s' = ts_enabled s"
  by (auto simp: on_env_iff)

lemma write_enabled:
  "writeToDatabase t opType key dat s = (e, s') \<Longrightarrow> ts_enabled s' = ts_enabled s"
  "log_and_enqueue t opType key dat k v s = (e, s') \<Longrightarrow> ts_enabled s' = ts_enabled s"
  by (auto simp: writeToDatabase_def log_and_enqueue_def append_wal_def enqueue_op_def Let_def dest!: on_env_enabled
      split: sum.splits prod.splits option.splits)

lemma table_ops_enabled:
  "Create t r s = (e, s') \<Longrightarrow> ts_enabled s' = ts_enabled s" "Delete t k s = (e, s') \<Longrightarrow> ts_enabled s' = ts_enabled s"
  "ExecuteWriteOperation t op s = (e, s') \<Longrightarrow> ts_enabled s' = ts_enabled s"
  by (auto simp: Create_def Delete_def ExecuteWriteOperation_def Let_def dest!: on_env_enabled write_enabled
      split: if_splits sum.splits prod.splits option.splits)

text \<open>What the configuration manager accepts, the factory accepts.\<close>

lemma factory_accepts:
  assumes "validateConfig validatorRegistry config = None"
  shows "\<exists>f. map_of (factoryRegistry L) (kvc_Type (convertToKVStoreConfig (ic_KVStore config))) = Some f \<and>
    fac_Validate f (convertToKVStoreConfig (ic_KVStore config)) = None"
proof -
  let ?k = "ic_KVStore config"
  let ?kvc = "convertToKVStoreConfig ?k"
  have ty: "kvc_Type ?kvc = ikv_Type ?k" by (simp add: convertToKVStoreConfig_def Let_def)
  consider "ikv_Type ?k = ''redis''" "RedisConfig_Validate (Some config) = None"
    | "ikv_Type ?k = ''dynamodb''" "DynamoConfig_Validate (Some config) = None"
    using assms by (auto simp: validateConfig_def GetValidator_def validatorRegistry_eq RedisConfigValidator_def DynamoDBConfigValidator_def
        split: if_splits option.splits)
  then show ?thesis
  proof cases
    case 1
    then have "Redis_Validate ?kvc = None"
      by (auto simp: RedisConfig_Validate_def Redis_Validate_def convertToKVStoreConfig_def Let_def split: if_splits)
    then show ?thesis using 1 ty by (simp add: factoryRegistry_def init_factories_eq RedisKVStoreFactory_def)
  next
    case 2
    then have "Dynamo_Validate ?kvc = None"
      by (auto simp: DynamoConfig_Validate_def Dynamo_Validate_def convertToKVStoreConfig_def Let_def split: if_splits)
    then show ?thesis using 2 ty by (simp add: factoryRegistry_def init_factories_eq DynamoDBKVStoreFactory_def)
  qed
qed

lemma factory_creates:
  "map_of (factoryRegistry L) (kvc_Type kvc) = Some f \<Longrightarrow> fac_Validate f kvc = None \<Longrightarrow> Factory_Create (factoryRegistry L) kvc p = fac_Create f kvc p"
  using factories_wf [OF factories_registered [of L]] by (auto simp: Factory_Create_def)

text \<open>Libraries for the witnesses: services that answer, with one table that has a primary key.\<close>

definition ex_redis_client :: "unit redis_client" where
  "ex_redis_client = \<lparr>rc_Get = (\<lambda>k s. (Inl RedisNil, s)), rc_Set = (\<lambda>k v t s. (None, s)), rc_Del = (\<lambda>k s. (None, s)),
     rc_Exists = (\<lambda>k s. (Inr 0, s)), rc_Exec = (\<lambda>xs s. (None, s)), rc_RPush = (\<lambda>k v s. (None, s)), rc_LPop = (\<lambda>k s. (Inl RedisNil, s)),
     rc_LLen = (\<lambda>k s. (Inr 0, s)), rc_LRange = (\<lambda>k i j s. (Inr [], s)), rc_LTrim = (\<lambda>k i j s. (None, s)), rc_Ping = (\<lambda>s. (None, s)),
     rc_Close = (\<lambda>s. (None, s))\<rparr>"

definition ex_settings :: InternalConfig where
  "ex_settings = defaultInternalConfig\<lparr>ic_Database := (ic_Database defaultInternalConfig)\<lparr>idb_Database := ''shop'', idb_Username := ''app''\<rparr>\<rparr>"

lemma ex_settings_validate: "validateConfig validatorRegistry ex_settings = None"
  unfolding validatorRegistry_eq by code_simp

definition ex_libs :: "unit libs" where
  "ex_libs = \<lparr>lib_now = (\<lambda>s. (time_Unix 0 ''UTC'' 1700000000, s)), lib_tz = utc, lib_redis = (\<lambda>_. ex_redis_client),
     lib_dynamo = (\<lambda>_. Inl (Errorf ''no region'' [])), lib_sql = (\<lambda>_ s. (Inr ex_sql, s)),
     lib_kafka = (\<lambda>_. \<lparr>kc_WriteMessages = (\<lambda>m s. (None, s)), kc_FetchMessage = (\<lambda>s. (Inl ContextDeadlineExceeded, s)),
        kc_CommitMessages = (\<lambda>m s. (None, s)), kc_CloseWriter = (\<lambda>s. (None, s)), kc_CloseReader = (\<lambda>s. (None, s))\<rparr>),
     lib_yaml = (\<lambda>dat c. Inr ex_settings), lib_index_order = (\<lambda>m. m)\<rparr>"

definition ex_cstate :: "unit cstate" where
  "ex_cstate = \<lparr>cs_process = \<lparr>pr_env = (), pr_kvClosed = True, pr_dbClosed = True, pr_memory = (\<lambda>_. NewMemoryQueue 0), pr_rqClosed = (\<lambda>_. True),
       pr_kafka = (\<lambda>_. \<lparr>kq_server = (), kq_topic = [], kq_closed = True, kq_groupID = [], kq_brokers = [], kq_size = 0\<rparr>)\<rparr>,
     cs_heap = (\<lambda>_. \<lparr>ts_read = \<lparr>r_world = undefined, r_pending = [], r_cleanups = [], r_fills = []\<rparr>, ts_enabled = False\<rparr>), cs_next = 0\<rparr>"

lemma ex_client:
  obtains c s where "NewClientImpl ex_libs (Some (Inr ''kvstore: {}'')) ex_cstate = (Inr c, s)" "\<not> ci_closed c" "ci_database c = Some ex_sql"
    "cs_next s = 0" "tr_tables (ci_tableRegistry c) = []" "pr_kvClosed (cs_process s) = False" "pr_dbClosed (cs_process s) = False"
    "ci_kvStore c \<noteq> None" "cm_config (ci_configMgr c) = ex_settings"
proof -
  note v = ex_settings_validate
  have ty: "idb_Type (ic_Database ex_settings) = ''mysql''" "ikv_Type (ic_KVStore ex_settings) = ''redis''"
    "irc_Endpoints (ikv_RedisConfig (ic_KVStore ex_settings)) = [''localhost:6379'']" by code_simp+
  let ?kvc = "convertToKVStoreConfig (ic_KVStore ex_settings)"
  have kt: "kvc_Type ?kvc = ''redis''" "kvc_Endpoints ?kvc = [''localhost:6379'']" using ty by (simp_all add: convertToKVStoreConfig_def Let_def)
  have "Factory_Create (factoryRegistry ex_libs) ?kvc p = (Inr (RedisKVStore ex_redis_client), put_redis_part \<lparr>rs_server = (), rs_closed = False\<rparr> p)" for p
    using factory_accepts [OF v, of ex_libs] factory_creates [of ex_libs ?kvc _ p] kt
    by (auto simp: factoryRegistry_def init_factories_eq RedisKVStoreFactory_def Redis_Create_def NewRedisKVStore_def ex_libs_def
        ex_redis_client_def Let_def)
  then show ?thesis
    by (intro that) (auto simp: NewClientImpl_def LoadFromYAML_def ex_libs_def install_def v NewConfigManager_def initializeConnections_def cm_GetConfig_def
        ty NewMySQLDatabase_def ex_sql_def NewTableRegistry_def put_mysql_part_def put_redis_part_def ex_cstate_def Let_def)
qed

lemma read_enabled:
  "Read_shared t k s = (x, s') \<Longrightarrow> ts_enabled s' = ts_enabled s"
  "Read t k s = (y, s') \<Longrightarrow> ts_enabled s' = ts_enabled s"
  by (auto simp: Read_def Read_shared_def readFromDatabase_def on_read_def Let_def dest!: on_env_enabled
      split: if_splits sum.splits prod.splits option.splits list.splits)

lemma read_ops_enabled:
  "FindByField t f v s = (r, s') \<Longrightarrow> ts_enabled s' = ts_enabled s"
  "Update t k u s = (e, s') \<Longrightarrow> ts_enabled s' = ts_enabled s"
  by (auto simp: FindByField_def Update_def on_read_def Let_def dest!: on_env_enabled read_enabled write_enabled
      split: if_splits sum.splits prod.splits option.splits list.splits)

section \<open>Properties\<close>

text \<open>
  C18. The two validations agree. A configuration that the configuration manager accepts has a store type
  with a registered factory, and what the client hands to that factory passes the factory's own
  validation: creating the store never fails for its configuration, only for its connection.
\<close>

theorem validated_config_passes_factory:
  assumes "validateConfig validatorRegistry config = None"
  shows "let kvc = convertToKVStoreConfig (ic_KVStore config) in
    \<exists>f. map_of (factoryRegistry L) (kvc_Type kvc) = Some f \<and> fac_Validate f kvc = None \<and>
      Factory_Create (factoryRegistry L) kvc p = fac_Create f kvc p"
  using factory_accepts [OF assms, of L] factory_creates [of L] by (auto simp: Let_def)

theorem validated_config_passes_factory_witness:
  "\<exists>f. map_of (factoryRegistry ex_libs) (kvc_Type (convertToKVStoreConfig (ic_KVStore ex_settings))) = Some f \<and>
     fac_Validate f (convertToKVStoreConfig (ic_KVStore ex_settings)) = None"
  using validated_config_passes_factory [OF ex_settings_validate, of ex_libs "cs_process ex_cstate"] by (auto simp: Let_def)


definition ex_table_config :: TableConfigData where
  "ex_table_config = \<lparr>tcd_TTL = 60, tcd_WriteBackBatchSize = 10, tcd_DrainRate = 5, tcd_Enabled = True, tcd_Namespace = []\<rparr>"

lemma ex_enables_code:
  "case NewClientImpl ex_libs (Some (Inr ''kvstore: {}'')) ex_cstate of
     (Inr c, s) \<Rightarrow> (case cl_EnableKV ex_libs ''orders'' ex_table_config c s of (Inr t, _) \<Rightarrow> True | _ \<Rightarrow> False) | _ \<Rightarrow> False"
  by code_simp

lemma ex_next: "cs_next ex_cstate = 0"
  by (simp add: ex_cstate_def)

lemma ex_enables:
  obtains c s t c' s' where "NewClientImpl ex_libs (Some (Inr ''kvstore: {}'')) ex_cstate = (Inr c, s)"
    "cl_EnableKV ex_libs ''orders'' ex_table_config c s = (Inr t, c', s')" "enable_effect X ''orders'' c s (Inr t) c' s'"
    "ci_database c = Some ex_sql" "ci_kvStore c \<noteq> None" "cs_next s = 0"
proof -
  obtain c s where n: "NewClientImpl ex_libs (Some (Inr ''kvstore: {}'')) ex_cstate = (Inr c, s)" "ci_database c = Some ex_sql"
    "ci_kvStore c \<noteq> None" "cs_next s = 0" by (rule ex_client)
  obtain r c' s' where e: "cl_EnableKV ex_libs ''orders'' ex_table_config c s = (r, c', s')" by (metis surj_pair)
  with ex_enables_code n obtain t where r: "r = Inr t" by (auto split: sum.splits)
  have "client_inv X c s" by (rule client_inv_new [OF n(1)]) (simp add: ex_cstate_def)
  then show ?thesis using that n e r cl_EnableKV_effect by blast
qed




text \<open>
  C20. A closed client is closed for good. \<^verbatim>\<open>Close\<close> always closes the store and the database, whatever errors
  it collects; afterwards enabling, disabling and looking up tables fail without any effect, closing
  again does nothing, and a table the caller has kept, being off and over a closed database, refuses to
  create records; and so does one that is on because its own switch has been used, over a closed store.
\<close>

theorem closed_client_rejects:
  assumes "NewClientImpl L provider s0 = (Inr c0, s1)" and "cs_next s0 = 0" and "(client_step L X)\<^sup>*\<^sup>* (c0, s1) (c, s)"
    and "mset (iter (tr_tables (ci_tableRegistry c))) = mset (tr_tables (ci_tableRegistry c))" and "\<not> ci_closed c"
    and "ci_kvStore c = Some kv" and "ci_database c = Some db" and "cl_Close L iter c s = (e, c', s')"
  shows "pr_kvClosed (cs_process s') \<and> pr_dbClosed (cs_process s') \<and> cl_Close L iter c' s' = (None, c', s') \<and>
    is_err (cl_GetTable n c') \<and> (\<exists>err. cl_EnableKV L n cfg c' s' = (Inl err, c', s')) \<and> (\<exists>err. cl_DisableKV L n c' s' = (Some err, c', s')) \<and>
    (i < cs_next s \<and> tb_database t = database_methods L db \<and> (i \<notin> X \<or> tb_kvStore t = store_methods L kv) \<longrightarrow> fst (ct_Create (client_table i t) record s') \<noteq> None)"
proof -
  have f: "client_inv X c' s'" "ci_closed c'" "cs_next s' = cs_next s" "pr_kvClosed (cs_process s')" "pr_dbClosed (cs_process s')"
    using cl_Close_effect [OF client_inv_reachable [OF assms(1-3)] assms(4,8)] assms(5-7) by auto
  have "fst (Create t record (table_get i s')) \<noteq> None"
    if i: "i < cs_next s" "tb_database t = database_methods L db" "i \<notin> X \<or> tb_kvStore t = store_methods L kv"
  proof (cases "ts_enabled (table_get i s')")
    case True
    then have "client_on i s'" by (simp add: table_get_def client_on_def)
    then have "tb_kvStore t = store_methods L kv" using client_inv_on [OF f(1), of i] f i(1,3) by (auto simp: client_inv_def)
    moreover have "pr_kvClosed (env (table_get i s'))" using f(4) by (simp add: table_get_def)
    ultimately show ?thesis using True
      by (auto simp: Create_def on_env_iff closed_store_refuses split: sum.splits prod.splits option.splits)
  next
    case False
    moreover have "pr_dbClosed (env (table_get i s'))" using f(5) by (simp add: table_get_def)
    ultimately show ?thesis
      using i(2) by (auto simp: Create_def writeToDatabase_def on_env_iff database_methods_def mysql_database_def MySQL_Exec_def via_def mysql_part_def Let_def
          split: sum.splits prod.splits)
  qed
  then show ?thesis using f
    by (auto simp: cl_Close_def cl_GetTable_def cl_EnableKV_def cl_DisableKV_def client_table_def core_table_of_def via_def Let_def split: prod.splits)
qed

theorem closed_client_rejects_witness:
  "\<exists>c s e c' s'. NewClientImpl ex_libs (Some (Inr ''kvstore: {}'')) ex_cstate = (Inr c, s) \<and>
     cl_Close ex_libs (\<lambda>m. m) c s = (e, c', s') \<and> pr_dbClosed (cs_process s') \<and> is_err (cl_GetTable ''orders'' c')"
proof -
  obtain c s where n: "NewClientImpl ex_libs (Some (Inr ''kvstore: {}'')) ex_cstate = (Inr c, s)" "\<not> ci_closed c" "ci_database c = Some ex_sql"
    "ci_kvStore c \<noteq> None" by (rule ex_client)
  then obtain kv where kv: "ci_kvStore c = Some kv" by auto
  obtain e c' s' where e: "cl_Close ex_libs (\<lambda>m. m) c s = (e, c', s')" by (metis surj_pair)
  from closed_client_rejects [where X = "{}" and n = "''orders''", OF n(1) ex_next _ _ n(2) kv n(3) e] n(1) e show ?thesis by auto
qed

text \<open>
  A database type that validates and is never served. The configuration manager accepts
  \<^verbatim>\<open>postgresql\<close>; the client, having opened the store, then always fails, and it leaves the store it has
  just opened open, with nobody left to close it.
\<close>

theorem postgresql_leaks_store:
  assumes "LoadFromYAML validatorRegistry (lib_yaml L) yamlData NewConfigManager = (None, cm)" and "idb_Type (ic_Database (cm_config cm)) = ''postgresql''"
    and "Factory_Create (factoryRegistry L) (convertToKVStoreConfig (ic_KVStore (cm_config cm))) (cs_process s) = (Inr kv, p)"
  shows "validateConfig validatorRegistry (cm_config cm) = None \<and> \<not> pr_kvClosed p \<and>
    NewClientImpl L (Some (Inr yamlData)) s =
      (Inl (Wrapf ''failed to initialize connections: %w'' [] (Errorf ''unsupported database type: %s'' [''postgresql''])), s\<lparr>cs_process := p\<rparr>)"
proof -
  have v: "validateConfig validatorRegistry (cm_config cm) = None"
    using assms(1) by (auto simp: load_defs split: if_splits sum.splits option.splits)
  obtain f where f: "map_of (factoryRegistry L) (kvc_Type (convertToKVStoreConfig (ic_KVStore (cm_config cm)))) = Some f"
    "fac_Validate f (convertToKVStoreConfig (ic_KVStore (cm_config cm))) = None" using factory_accepts [OF v, of L] by blast
  have "fac_Create f (convertToKVStoreConfig (ic_KVStore (cm_config cm))) (cs_process s) = (Inr kv, p)" using factory_creates [OF f] assms(3) by simp
  then have "\<not> pr_kvClosed p"
    using f(1) by (auto simp: factoryRegistry_def init_factories_eq RedisKVStoreFactory_def DynamoDBKVStoreFactory_def Redis_Create_def NewRedisKVStore_def
        Dynamo_Create_def NewDynamoDBKVStore_def put_redis_part_def put_dynamo_part_def Let_def split: if_splits sum.splits prod.splits list.splits option.splits)
  then show ?thesis using assms v by (simp add: NewClientImpl_def initializeConnections_def cm_GetConfig_def Let_def)
qed

theorem postgresql_leaks_store_witness:
  "let L = ex_libs\<lparr>lib_yaml := (\<lambda>_ _. Inr (ex_settings\<lparr>ic_Database := (ic_Database ex_settings)\<lparr>idb_Type := ''postgresql''\<rparr>\<rparr>))\<rparr> in
   \<exists>p. NewClientImpl L (Some (Inr ''database: {}'')) ex_cstate =
     (Inl (Wrapf ''failed to initialize connections: %w'' [] (Errorf ''unsupported database type: %s'' [''postgresql''])), ex_cstate\<lparr>cs_process := p\<rparr>) \<and>
     \<not> pr_kvClosed p"
proof -
  let ?cfg = "ex_settings\<lparr>ic_Database := (ic_Database ex_settings)\<lparr>idb_Type := ''postgresql''\<rparr>\<rparr>"
  let ?L = "ex_libs\<lparr>lib_yaml := (\<lambda>_ _. Inr ?cfg)\<rparr>"
  have v: "validateConfig validatorRegistry ?cfg = None" unfolding validatorRegistry_eq by code_simp
  then have l: "LoadFromYAML validatorRegistry (lib_yaml ?L) ''database: {}'' NewConfigManager = (None, \<lparr>cm_config = ?cfg\<rparr>)"
    by (simp add: LoadFromYAML_def install_def NewConfigManager_def)
  have k: "kvc_Type (convertToKVStoreConfig (ic_KVStore ?cfg)) = ''redis''" "kvc_Endpoints (convertToKVStoreConfig (ic_KVStore ?cfg)) = [''localhost:6379'']"
    by code_simp+
  have "\<exists>kv p. Factory_Create (factoryRegistry ?L) (convertToKVStoreConfig (ic_KVStore ?cfg)) (cs_process ex_cstate) = (Inr kv, p)"
    using factory_accepts [OF v, of ?L] factory_creates [of ?L "convertToKVStoreConfig (ic_KVStore ?cfg)" _ "cs_process ex_cstate"] k
    by (auto simp: factoryRegistry_def init_factories_eq RedisKVStoreFactory_def Redis_Create_def NewRedisKVStore_def ex_libs_def
        ex_redis_client_def Let_def)
  then obtain kv p where f: "Factory_Create (factoryRegistry ?L) (convertToKVStoreConfig (ic_KVStore (cm_config \<lparr>cm_config = ?cfg\<rparr>))) (cs_process ex_cstate) = (Inr kv, p)"
    by auto
  from postgresql_leaks_store [OF l _ f] show ?thesis unfolding Let_def by auto
qed

end
