(* ===== verification/Public_Config.thy ===== *)
theory Public_Config
  imports Config_Manager
begin

text \<open>
  \<^verbatim>\<open>pkg/shockabsorber/config.go\<close>: the configuration a user of the library writes. Its structs have the
  fields of the internal ones, which were copied from them, so the types are shared; what differs is
  the names the fields have in YAML. The client hands its configuration to the internal packages as a
  YAML text: the theory gives the document that the public tags produce and what the internal tags
  read from it. The YAML library itself is a parameter.
\<close>

section \<open>Types and defaults\<close>

type_synonym Config = InternalConfig
type_synonym PublicKVStoreConfig = InternalKVStoreConfig
type_synonym RedisConfig = InternalRedisConfig
type_synonym DynamoDBConfig = InternalDynamoDBConfig
type_synonym CassandraConfig = InternalCassandraConfig
type_synonym DatabaseConfig = InternalDatabaseConfig
type_synonym TableConfig = InternalTableConfig
type_synonym WriteBackConfig = InternalWriteBackConfig
type_synonym KafkaConfig = InternalKafkaConfig
type_synonym AutoScalingConfig = InternalAutoScalingConfig

definition DefaultConfig :: Config where
  "DefaultConfig = \<lparr>
     ic_KVStore = \<lparr>ikv_Type = ''redis'',
       ikv_RedisConfig = \<lparr>irc_Endpoints = [''localhost:6379''], irc_ClusterMode = False, irc_Password = [], irc_DB = 0,
         irc_PoolSize = 10, irc_MinIdleConns = 5\<rparr>,
       ikv_DynamoDBConfig = \<lparr>idc_Region = [], idc_TableName = [], idc_Endpoint = [], idc_AccessKeyID = [], idc_SecretAccessKey = []\<rparr>,
       ikv_CassandraConfig = \<lparr>icc_Hosts = [], icc_Keyspace = [], icc_ConsistencyLevel = [], icc_Username = [], icc_Password = []\<rparr>,
       ikv_MaxRetries = 3, ikv_DialTimeout = 5 * 1000000000, ikv_ReadTimeout = 3 * 1000000000, ikv_WriteTimeout = 3 * 1000000000\<rparr>,
     ic_Database = \<lparr>idb_Type = ''mysql'', idb_Host = ''localhost'', idb_Port = 3306, idb_Database = [], idb_Username = [],
       idb_Password = [], idb_SSLMode = [], idb_MaxOpenConns = 25, idb_MaxIdleConns = 5, idb_ConnMaxLifetime = 5 * 60000000000,
       idb_ConnMaxIdleTime = 10 * 60000000000, idb_ConnectionTimeout = 10 * 1000000000\<rparr>,
     ic_Tables = Some [],
     ic_WriteBack = \<lparr>iwb_BatchSize = 100, iwb_DrainRate = 50, iwb_MaxRetries = 5, iwb_RetryBackoffBase = 1 * 1000000000,
       iwb_RetryBackoffMax = 30 * 1000000000, iwb_DefaultTTL = 1 * 3600000000000, iwb_QueueType = ''memory'', iwb_QueueBufferSize = 10000,
       iwb_KafkaConfig = \<lparr>ikc_Brokers = [''localhost:9092''], ikc_Topic = ''shock-absorber-writeback'',
         ikc_GroupID = ''shock-absorber-writeback'', ikc_BatchSize = 100, ikc_BatchTimeout = 10 * 1000000, ikc_WriteTimeout = 10 * 1000000000,
         ikc_ReadTimeout = 10 * 1000000000, ikc_RequiredAcks = - 1, ikc_MaxMessageBytes = 1000000, ikc_MinBytes = 1,
         ikc_MaxBytes = 10 * 1024 * 1024, ikc_MaxWait = 100 * 1000000\<rparr>\<rparr>,
     ic_AutoScaling = \<lparr>ias_Enabled = False, ias_MinDrainers = 1, ias_MaxDrainers = 10, ias_CPUThresholdHigh = FFin 80,
       ias_CPUThresholdLow = FFin 30, ias_ScaleUpCooldown = 1 * 60000000000, ias_ScaleDownCooldown = 5 * 60000000000,
       ias_MonitoringInterval = 10 * 1000000000\<rparr>\<rparr>"

section \<open>The document of a configuration\<close>

text \<open>
  A YAML document as a tree. Durations are texts that the decoder reads back; they have a node of their
  own. \<open>opt\<close> is a field tagged \<^verbatim>\<open>omitempty\<close>, which is left out when it is zero.
\<close>

datatype ynode =
    YStr string
  | YInt int
  | YBool bool
  | YFloat gofloat
  | YDur int
  | YSeq "string list"
  | YMap "(string \<times> ynode) list"

definition opt :: "bool \<Rightarrow> string \<Rightarrow> ynode \<Rightarrow> (string \<times> ynode) list" where
  "opt zero name node = (if zero then [] else [(name, node)])"

definition enc_redis :: "RedisConfig \<Rightarrow> ynode" where
  "enc_redis c = YMap ([(''endpoints'', YSeq (irc_Endpoints c)), (''cluster_mode'', YBool (irc_ClusterMode c))] @
     opt (irc_Password c = []) ''password'' (YStr (irc_Password c)) @ opt (irc_DB c = 0) ''db'' (YInt (irc_DB c)) @
     opt (irc_PoolSize c = 0) ''pool_size'' (YInt (irc_PoolSize c)) @ opt (irc_MinIdleConns c = 0) ''min_idle_conns'' (YInt (irc_MinIdleConns c)))"

definition enc_dynamo :: "DynamoDBConfig \<Rightarrow> ynode" where
  "enc_dynamo c = YMap ([(''region'', YStr (idc_Region c)), (''table_name'', YStr (idc_TableName c))] @
     opt (idc_Endpoint c = []) ''endpoint'' (YStr (idc_Endpoint c)) @ opt (idc_AccessKeyID c = []) ''access_key_id'' (YStr (idc_AccessKeyID c)) @
     opt (idc_SecretAccessKey c = []) ''secret_access_key'' (YStr (idc_SecretAccessKey c)))"

definition enc_cassandra :: "CassandraConfig \<Rightarrow> ynode" where
  "enc_cassandra c = YMap ([(''hosts'', YSeq (icc_Hosts c)), (''keyspace'', YStr (icc_Keyspace c))] @
     opt (icc_ConsistencyLevel c = []) ''consistency_level'' (YStr (icc_ConsistencyLevel c)) @
     opt (icc_Username c = []) ''username'' (YStr (icc_Username c)) @ opt (icc_Password c = []) ''password'' (YStr (icc_Password c)))"

text \<open>A struct is zero when all its fields are.\<close>

definition zero_redis :: "RedisConfig \<Rightarrow> bool" where
  "zero_redis c \<longleftrightarrow> irc_Endpoints c = [] \<and> \<not> irc_ClusterMode c \<and> irc_Password c = [] \<and> irc_DB c = 0 \<and> irc_PoolSize c = 0 \<and> irc_MinIdleConns c = 0"

definition zero_dynamo :: "DynamoDBConfig \<Rightarrow> bool" where
  "zero_dynamo c \<longleftrightarrow> idc_Region c = [] \<and> idc_TableName c = [] \<and> idc_Endpoint c = [] \<and> idc_AccessKeyID c = [] \<and> idc_SecretAccessKey c = []"

definition zero_cassandra :: "CassandraConfig \<Rightarrow> bool" where
  "zero_cassandra c \<longleftrightarrow> icc_Hosts c = [] \<and> icc_Keyspace c = [] \<and> icc_ConsistencyLevel c = [] \<and> icc_Username c = [] \<and> icc_Password c = []"

definition enc_kvstore :: "PublicKVStoreConfig \<Rightarrow> ynode" where
  "enc_kvstore c = YMap ([(''type'', YStr (ikv_Type c))] @
     opt (zero_redis (ikv_RedisConfig c)) ''redis_config'' (enc_redis (ikv_RedisConfig c)) @
     opt (zero_dynamo (ikv_DynamoDBConfig c)) ''dynamodb_config'' (enc_dynamo (ikv_DynamoDBConfig c)) @
     opt (zero_cassandra (ikv_CassandraConfig c)) ''cassandra_config'' (enc_cassandra (ikv_CassandraConfig c)) @
     opt (ikv_MaxRetries c = 0) ''max_retries'' (YInt (ikv_MaxRetries c)) @ opt (ikv_DialTimeout c = 0) ''dial_timeout'' (YDur (ikv_DialTimeout c)) @
     opt (ikv_ReadTimeout c = 0) ''read_timeout'' (YDur (ikv_ReadTimeout c)) @ opt (ikv_WriteTimeout c = 0) ''write_timeout'' (YDur (ikv_WriteTimeout c)))"

definition enc_database :: "DatabaseConfig \<Rightarrow> ynode" where
  "enc_database c = YMap ([(''type'', YStr (idb_Type c)), (''host'', YStr (idb_Host c)), (''port'', YInt (idb_Port c)),
       (''database'', YStr (idb_Database c)), (''username'', YStr (idb_Username c))] @
     opt (idb_Password c = []) ''password'' (YStr (idb_Password c)) @ opt (idb_SSLMode c = []) ''ssl_mode'' (YStr (idb_SSLMode c)) @
     opt (idb_MaxOpenConns c = 0) ''max_open_conns'' (YInt (idb_MaxOpenConns c)) @
     opt (idb_MaxIdleConns c = 0) ''max_idle_conns'' (YInt (idb_MaxIdleConns c)) @
     opt (idb_ConnMaxLifetime c = 0) ''conn_max_lifetime'' (YDur (idb_ConnMaxLifetime c)) @
     opt (idb_ConnMaxIdleTime c = 0) ''conn_max_idle_time'' (YDur (idb_ConnMaxIdleTime c)) @
     opt (idb_ConnectionTimeout c = 0) ''connection_timeout'' (YDur (idb_ConnectionTimeout c)))"

definition enc_table :: "TableConfig \<Rightarrow> ynode" where
  "enc_table c = YMap (opt (itc_TTL c = 0) ''ttl'' (YDur (itc_TTL c)) @
     opt (itc_WriteBackBatchSize c = 0) ''writeback_batch_size'' (YInt (itc_WriteBackBatchSize c)) @
     opt (itc_DrainRate c = 0) ''drain_rate'' (YInt (itc_DrainRate c)) @ opt (\<not> itc_Enabled c) ''enabled'' (YBool (itc_Enabled c)) @
     opt (itc_Namespace c = []) ''namespace'' (YStr (itc_Namespace c)))"

definition enc_kafka :: "KafkaConfig \<Rightarrow> ynode" where
  "enc_kafka c = YMap [(''brokers'', YSeq (ikc_Brokers c)), (''topic'', YStr (ikc_Topic c)), (''group_id'', YStr (ikc_GroupID c)),
     (''batch_size'', YInt (ikc_BatchSize c)), (''batch_timeout'', YDur (ikc_BatchTimeout c)), (''write_timeout'', YDur (ikc_WriteTimeout c)),
     (''read_timeout'', YDur (ikc_ReadTimeout c)), (''required_acks'', YInt (ikc_RequiredAcks c)),
     (''max_message_bytes'', YInt (ikc_MaxMessageBytes c)), (''min_bytes'', YInt (ikc_MinBytes c)), (''max_bytes'', YInt (ikc_MaxBytes c)),
     (''max_wait'', YDur (ikc_MaxWait c))]"

definition zero_kafka :: "KafkaConfig \<Rightarrow> bool" where
  "zero_kafka c \<longleftrightarrow> ikc_Brokers c = [] \<and> ikc_Topic c = [] \<and> ikc_GroupID c = [] \<and> ikc_BatchSize c = 0 \<and> ikc_BatchTimeout c = 0 \<and>
     ikc_WriteTimeout c = 0 \<and> ikc_ReadTimeout c = 0 \<and> ikc_RequiredAcks c = 0 \<and> ikc_MaxMessageBytes c = 0 \<and> ikc_MinBytes c = 0 \<and>
     ikc_MaxBytes c = 0 \<and> ikc_MaxWait c = 0"

definition enc_writeback :: "WriteBackConfig \<Rightarrow> ynode" where
  "enc_writeback c = YMap ([(''batch_size'', YInt (iwb_BatchSize c)), (''drain_rate'', YInt (iwb_DrainRate c)),
       (''max_retries'', YInt (iwb_MaxRetries c)), (''retry_backoff_base'', YDur (iwb_RetryBackoffBase c)),
       (''retry_backoff_max'', YDur (iwb_RetryBackoffMax c)), (''default_ttl'', YDur (iwb_DefaultTTL c))] @
     opt (iwb_QueueType c = []) ''queue_type'' (YStr (iwb_QueueType c)) @
     opt (iwb_QueueBufferSize c = 0) ''queue_buffer_size'' (YInt (iwb_QueueBufferSize c)) @
     opt (zero_kafka (iwb_KafkaConfig c)) ''kafka_config'' (enc_kafka (iwb_KafkaConfig c)))"

definition enc_autoscaling :: "AutoScalingConfig \<Rightarrow> ynode" where
  "enc_autoscaling c = YMap [(''enabled'', YBool (ias_Enabled c)), (''min_drainers'', YInt (ias_MinDrainers c)),
     (''max_drainers'', YInt (ias_MaxDrainers c)), (''cpu_threshold_high'', YFloat (ias_CPUThresholdHigh c)),
     (''cpu_threshold_low'', YFloat (ias_CPUThresholdLow c)), (''scale_up_cooldown'', YDur (ias_ScaleUpCooldown c)),
     (''scale_down_cooldown'', YDur (ias_ScaleDownCooldown c)), (''monitoring_interval'', YDur (ias_MonitoringInterval c))]"

definition tables_of :: "Config \<Rightarrow> TableConfig gomap" where
  "tables_of c = (case ic_Tables c of None \<Rightarrow> [] | Some m \<Rightarrow> m)"

definition enc_config :: "Config \<Rightarrow> ynode" where
  "enc_config c = YMap ([(''kvstore'', enc_kvstore (ic_KVStore c)), (''database'', enc_database (ic_Database c))] @
     opt (tables_of c = []) ''tables'' (YMap (map (\<lambda>(n, t). (n, enc_table t)) (tables_of c))) @
     [(''writeback'', enc_writeback (ic_WriteBack c)), (''autoscaling'', enc_autoscaling (ic_AutoScaling c))])"

section \<open>What the internal structs read from a document\<close>

text \<open>
  The decoder finds a field under its tag, or else under its name in lower case, and by that name
  only; members it does not find are skipped, fields without a member keep their value.
\<close>

definition yaml_type_error :: gerror where
  "yaml_type_error = Errorf ''yaml: unmarshal errors'' []"

definition yd_str :: "ynode \<Rightarrow> string \<Rightarrow> string res" where
  "yd_str n x = (case n of YStr s \<Rightarrow> Inr s | _ \<Rightarrow> Inl yaml_type_error)"

definition yd_int :: "ynode \<Rightarrow> int \<Rightarrow> int res" where
  "yd_int n x = (case n of YInt i \<Rightarrow> Inr i | _ \<Rightarrow> Inl yaml_type_error)"

definition yd_bool :: "ynode \<Rightarrow> bool \<Rightarrow> bool res" where
  "yd_bool n x = (case n of YBool b \<Rightarrow> Inr b | _ \<Rightarrow> Inl yaml_type_error)"

definition yd_float :: "ynode \<Rightarrow> gofloat \<Rightarrow> gofloat res" where
  "yd_float n x = (case n of YFloat f \<Rightarrow> Inr f | _ \<Rightarrow> Inl yaml_type_error)"

definition yd_dur :: "ynode \<Rightarrow> int \<Rightarrow> int res" where
  "yd_dur n x = (case n of YDur i \<Rightarrow> Inr i | YInt i \<Rightarrow> Inr i | _ \<Rightarrow> Inl yaml_type_error)"

definition yd_seq :: "ynode \<Rightarrow> string list \<Rightarrow> string list res" where
  "yd_seq n x = (case n of YSeq xs \<Rightarrow> Inr xs | _ \<Rightarrow> Inl yaml_type_error)"

type_synonym 'a yfields = "(string \<times> (ynode \<Rightarrow> 'a \<Rightarrow> 'a res)) list"

fun yd_members :: "'a yfields \<Rightarrow> (string \<times> ynode) list \<Rightarrow> 'a \<Rightarrow> 'a res" where
  "yd_members fs [] x = Inr x"
| "yd_members fs ((k, n) # ms) x =
     (case map_of fs k of
        None \<Rightarrow> yd_members fs ms x
      | Some d \<Rightarrow> (case d n x of Inl e \<Rightarrow> Inl e | Inr y \<Rightarrow> yd_members fs ms y))"

definition yd_struct :: "'a yfields \<Rightarrow> ynode \<Rightarrow> 'a \<Rightarrow> 'a res" where
  "yd_struct fs n x = (case n of YMap ms \<Rightarrow> yd_members fs ms x | _ \<Rightarrow> Inl yaml_type_error)"

definition yfld :: "string \<Rightarrow> ('r \<Rightarrow> 'a) \<Rightarrow> (('a \<Rightarrow> 'a) \<Rightarrow> 'r \<Rightarrow> 'r) \<Rightarrow> (ynode \<Rightarrow> 'a \<Rightarrow> 'a res) \<Rightarrow> string \<times> (ynode \<Rightarrow> 'r \<Rightarrow> 'r res)" where
  "yfld name get upd dec = (name, \<lambda>n r. case dec n (get r) of Inl e \<Rightarrow> Inl e | Inr x \<Rightarrow> Inr (upd (\<lambda>_. x) r))"

definition yaml_redis :: "InternalRedisConfig yfields" where
  "yaml_redis = [yfld ''endpoints'' irc_Endpoints irc_Endpoints_update yd_seq, yfld ''clustermode'' irc_ClusterMode irc_ClusterMode_update yd_bool,
     yfld ''password'' irc_Password irc_Password_update yd_str, yfld ''db'' irc_DB irc_DB_update yd_int,
     yfld ''poolsize'' irc_PoolSize irc_PoolSize_update yd_int, yfld ''minidleconns'' irc_MinIdleConns irc_MinIdleConns_update yd_int]"

definition yaml_dynamo :: "InternalDynamoDBConfig yfields" where
  "yaml_dynamo = [yfld ''region'' idc_Region idc_Region_update yd_str, yfld ''table_name'' idc_TableName idc_TableName_update yd_str,
     yfld ''endpoint'' idc_Endpoint idc_Endpoint_update yd_str, yfld ''access_key_id'' idc_AccessKeyID idc_AccessKeyID_update yd_str,
     yfld ''secret_access_key'' idc_SecretAccessKey idc_SecretAccessKey_update yd_str]"

definition yaml_cassandra :: "InternalCassandraConfig yfields" where
  "yaml_cassandra = [yfld ''hosts'' icc_Hosts icc_Hosts_update yd_seq, yfld ''keyspace'' icc_Keyspace icc_Keyspace_update yd_str,
     yfld ''consistencylevel'' icc_ConsistencyLevel icc_ConsistencyLevel_update yd_str, yfld ''username'' icc_Username icc_Username_update yd_str,
     yfld ''password'' icc_Password icc_Password_update yd_str]"

definition yaml_kvstore :: "InternalKVStoreConfig yfields" where
  "yaml_kvstore = [yfld ''type'' ikv_Type ikv_Type_update yd_str,
     yfld ''redis_config'' ikv_RedisConfig ikv_RedisConfig_update (yd_struct yaml_redis),
     yfld ''dynamodb_config'' ikv_DynamoDBConfig ikv_DynamoDBConfig_update (yd_struct yaml_dynamo),
     yfld ''cassandra_config'' ikv_CassandraConfig ikv_CassandraConfig_update (yd_struct yaml_cassandra),
     yfld ''max_retries'' ikv_MaxRetries ikv_MaxRetries_update yd_int, yfld ''dial_timeout'' ikv_DialTimeout ikv_DialTimeout_update yd_dur,
     yfld ''read_timeout'' ikv_ReadTimeout ikv_ReadTimeout_update yd_dur, yfld ''write_timeout'' ikv_WriteTimeout ikv_WriteTimeout_update yd_dur]"

definition yaml_database :: "InternalDatabaseConfig yfields" where
  "yaml_database = [yfld ''type'' idb_Type idb_Type_update yd_str, yfld ''host'' idb_Host idb_Host_update yd_str,
     yfld ''port'' idb_Port idb_Port_update yd_int, yfld ''database'' idb_Database idb_Database_update yd_str,
     yfld ''username'' idb_Username idb_Username_update yd_str, yfld ''password'' idb_Password idb_Password_update yd_str,
     yfld ''sslmode'' idb_SSLMode idb_SSLMode_update yd_str, yfld ''maxopenconns'' idb_MaxOpenConns idb_MaxOpenConns_update yd_int,
     yfld ''maxidleconns'' idb_MaxIdleConns idb_MaxIdleConns_update yd_int,
     yfld ''connmaxlifetime'' idb_ConnMaxLifetime idb_ConnMaxLifetime_update yd_dur,
     yfld ''connmaxidletime'' idb_ConnMaxIdleTime idb_ConnMaxIdleTime_update yd_dur,
     yfld ''connectiontimeout'' idb_ConnectionTimeout idb_ConnectionTimeout_update yd_dur]"

definition yaml_table :: "InternalTableConfig yfields" where
  "yaml_table = [yfld ''ttl'' itc_TTL itc_TTL_update yd_dur, yfld ''writebackbatchsize'' itc_WriteBackBatchSize itc_WriteBackBatchSize_update yd_int,
     yfld ''drainrate'' itc_DrainRate itc_DrainRate_update yd_int, yfld ''enabled'' itc_Enabled itc_Enabled_update yd_bool,
     yfld ''namespace'' itc_Namespace itc_Namespace_update yd_str]"

fun yd_tables :: "(string \<times> ynode) list \<Rightarrow> InternalTableConfig gomap \<Rightarrow> InternalTableConfig gomap res" where
  "yd_tables [] m = Inr m"
| "yd_tables ((k, n) # ms) m =
     (case yd_struct yaml_table n zero_table_config of Inl e \<Rightarrow> Inl e | Inr t \<Rightarrow> yd_tables ms (gomap_set m k t))"

definition yd_table_map :: "ynode \<Rightarrow> InternalTableConfig gomap option \<Rightarrow> InternalTableConfig gomap option res" where
  "yd_table_map n m = (case n of
     YMap ms \<Rightarrow> (case yd_tables ms (case m of None \<Rightarrow> [] | Some m \<Rightarrow> m) of Inl e \<Rightarrow> Inl e | Inr m' \<Rightarrow> Inr (Some m'))
   | _ \<Rightarrow> Inl yaml_type_error)"

definition yaml_kafka :: "InternalKafkaConfig yfields" where
  "yaml_kafka = [yfld ''brokers'' ikc_Brokers ikc_Brokers_update yd_seq, yfld ''topic'' ikc_Topic ikc_Topic_update yd_str,
     yfld ''group_id'' ikc_GroupID ikc_GroupID_update yd_str, yfld ''batch_size'' ikc_BatchSize ikc_BatchSize_update yd_int,
     yfld ''batch_timeout'' ikc_BatchTimeout ikc_BatchTimeout_update yd_dur, yfld ''write_timeout'' ikc_WriteTimeout ikc_WriteTimeout_update yd_dur,
     yfld ''read_timeout'' ikc_ReadTimeout ikc_ReadTimeout_update yd_dur, yfld ''required_acks'' ikc_RequiredAcks ikc_RequiredAcks_update yd_int,
     yfld ''max_message_bytes'' ikc_MaxMessageBytes ikc_MaxMessageBytes_update yd_int, yfld ''min_bytes'' ikc_MinBytes ikc_MinBytes_update yd_int,
     yfld ''max_bytes'' ikc_MaxBytes ikc_MaxBytes_update yd_int, yfld ''max_wait'' ikc_MaxWait ikc_MaxWait_update yd_dur]"

definition yaml_writeback :: "InternalWriteBackConfig yfields" where
  "yaml_writeback = [yfld ''batch_size'' iwb_BatchSize iwb_BatchSize_update yd_int, yfld ''drain_rate'' iwb_DrainRate iwb_DrainRate_update yd_int,
     yfld ''max_retries'' iwb_MaxRetries iwb_MaxRetries_update yd_int,
     yfld ''retry_backoff_base'' iwb_RetryBackoffBase iwb_RetryBackoffBase_update yd_dur,
     yfld ''retry_backoff_max'' iwb_RetryBackoffMax iwb_RetryBackoffMax_update yd_dur,
     yfld ''default_ttl'' iwb_DefaultTTL iwb_DefaultTTL_update yd_dur, yfld ''queue_type'' iwb_QueueType iwb_QueueType_update yd_str,
     yfld ''queue_buffer_size'' iwb_QueueBufferSize iwb_QueueBufferSize_update yd_int,
     yfld ''kafka_config'' iwb_KafkaConfig iwb_KafkaConfig_update (yd_struct yaml_kafka)]"

definition yaml_autoscaling :: "InternalAutoScalingConfig yfields" where
  "yaml_autoscaling = [yfld ''enabled'' ias_Enabled ias_Enabled_update yd_bool, yfld ''mindrainers'' ias_MinDrainers ias_MinDrainers_update yd_int,
     yfld ''maxdrainers'' ias_MaxDrainers ias_MaxDrainers_update yd_int,
     yfld ''cputhresholdhigh'' ias_CPUThresholdHigh ias_CPUThresholdHigh_update yd_float,
     yfld ''cputhresholdlow'' ias_CPUThresholdLow ias_CPUThresholdLow_update yd_float,
     yfld ''scaleupcooldown'' ias_ScaleUpCooldown ias_ScaleUpCooldown_update yd_dur,
     yfld ''scaledowncooldown'' ias_ScaleDownCooldown ias_ScaleDownCooldown_update yd_dur,
     yfld ''monitoringinterval'' ias_MonitoringInterval ias_MonitoringInterval_update yd_dur]"

definition yaml_config :: "InternalConfig yfields" where
  "yaml_config = [yfld ''kvstore'' ic_KVStore ic_KVStore_update (yd_struct yaml_kvstore),
     yfld ''database'' ic_Database ic_Database_update (yd_struct yaml_database),
     yfld ''tables'' ic_Tables ic_Tables_update yd_table_map,
     yfld ''writeback'' ic_WriteBack ic_WriteBack_update (yd_struct yaml_writeback),
     yfld ''autoscaling'' ic_AutoScaling ic_AutoScaling_update (yd_struct yaml_autoscaling)]"

text \<open>
  What is relied on of the YAML library, for one configuration: the text it prints is not empty, and
  decoding it is decoding the document of the public tags by the internal tags.
\<close>

definition yaml_keeps :: "(Config \<Rightarrow> string res) \<Rightarrow> (string \<Rightarrow> InternalConfig \<Rightarrow> InternalConfig res) \<Rightarrow> Config \<Rightarrow> bool" where
  "yaml_keeps yaml_Marshal yaml_Unmarshal c \<longleftrightarrow>
     (case yaml_Marshal c of
        Inl _ \<Rightarrow> False
      | Inr s \<Rightarrow> s \<noteq> [] \<and> yaml_Unmarshal s defaultInternalConfig = yd_struct yaml_config (enc_config c) defaultInternalConfig)"

section \<open>What arrives\<close>

lemmas yd_atoms = yd_str_def yd_int_def yd_bool_def yd_float_def yd_dur_def yd_seq_def yfld_def

text \<open>Members are read one after the other; an omitted one changes nothing.\<close>

lemma yd_opt:
  assumes "map_of fs k = Some d" and "z \<or> d n x = Inr y"
  shows "yd_members fs (opt z k n @ ms) x = yd_members fs ms (if z then x else y)" "yd_members fs (opt z k n) x = Inr (if z then x else y)"
  using assms by (auto simp: opt_def)

lemma yd_opt_unknown:
  assumes "map_of fs k = None"
  shows "yd_members fs (opt z k n @ ms) x = yd_members fs ms x" "yd_members fs (opt z k n) x = Inr x"
  using assms by (auto simp: opt_def)

lemma DefaultConfig_internal: "DefaultConfig = defaultInternalConfig"
  by (simp add: DefaultConfig_def defaultInternalConfig_def)

lemma yd_redis: "yd_struct yaml_redis (enc_redis c) d =
    Inr (d\<lparr>irc_Endpoints := irc_Endpoints c, irc_Password := if irc_Password c = [] then irc_Password d else irc_Password c,
      irc_DB := if irc_DB c = 0 then irc_DB d else irc_DB c\<rparr>)"
  by (simp add: yd_struct_def enc_redis_def opt_def yaml_redis_def yd_atoms)

lemma yd_dynamo: "\<exists>x. yd_struct yaml_dynamo (enc_dynamo c) d = Inr x"
  by (simp add: yd_struct_def enc_dynamo_def opt_def yaml_dynamo_def yd_atoms)

lemma yd_cassandra: "\<exists>x. yd_struct yaml_cassandra (enc_cassandra c) d = Inr x"
  by (simp add: yd_struct_def enc_cassandra_def opt_def yaml_cassandra_def yd_atoms)

lemma yd_kafka: "yd_struct yaml_kafka (enc_kafka c) d = Inr c"
  by (simp add: yd_struct_def enc_kafka_def yaml_kafka_def yd_atoms)

lemma yd_kvstore:
  "\<exists>x. yd_struct yaml_kvstore (enc_kvstore c) d = Inr x \<and> ikv_Type x = ikv_Type c \<and>
     (zero_redis (ikv_RedisConfig c) \<and> ikv_RedisConfig x = ikv_RedisConfig d \<or>
      yd_struct yaml_redis (enc_redis (ikv_RedisConfig c)) (ikv_RedisConfig d) = Inr (ikv_RedisConfig x)) \<and>
     ikv_MaxRetries x = (if ikv_MaxRetries c = 0 then ikv_MaxRetries d else ikv_MaxRetries c)"
proof -
  obtain dy where dy: "yd_struct yaml_dynamo (enc_dynamo (ikv_DynamoDBConfig c)) (ikv_DynamoDBConfig d) = Inr dy" using yd_dynamo by blast
  obtain ca where ca: "yd_struct yaml_cassandra (enc_cassandra (ikv_CassandraConfig c)) (ikv_CassandraConfig d) = Inr ca" using yd_cassandra by blast
  obtain re where re: "yd_struct yaml_redis (enc_redis (ikv_RedisConfig c)) (ikv_RedisConfig d) = Inr re" using yd_redis by blast
  have get: "map_of yaml_kvstore ''type'' = Some (snd (yfld '''' ikv_Type ikv_Type_update yd_str))"
    "map_of yaml_kvstore ''redis_config'' = Some (snd (yfld '''' ikv_RedisConfig ikv_RedisConfig_update (yd_struct yaml_redis)))"
    "map_of yaml_kvstore ''dynamodb_config'' = Some (snd (yfld '''' ikv_DynamoDBConfig ikv_DynamoDBConfig_update (yd_struct yaml_dynamo)))"
    "map_of yaml_kvstore ''cassandra_config'' = Some (snd (yfld '''' ikv_CassandraConfig ikv_CassandraConfig_update (yd_struct yaml_cassandra)))"
    "map_of yaml_kvstore ''max_retries'' = Some (snd (yfld '''' ikv_MaxRetries ikv_MaxRetries_update yd_int))"
    "map_of yaml_kvstore ''dial_timeout'' = Some (snd (yfld '''' ikv_DialTimeout ikv_DialTimeout_update yd_dur))"
    "map_of yaml_kvstore ''read_timeout'' = Some (snd (yfld '''' ikv_ReadTimeout ikv_ReadTimeout_update yd_dur))"
    "map_of yaml_kvstore ''write_timeout'' = Some (snd (yfld '''' ikv_WriteTimeout ikv_WriteTimeout_update yd_dur))"
    by (simp_all add: yaml_kvstore_def yfld_def)
  show ?thesis unfolding yd_struct_def enc_kvstore_def ynode.case
    by (simp add: opt_def get yd_atoms re dy ca re [unfolded yd_struct_def])
qed

lemma yd_database: "yd_struct yaml_database (enc_database c) d =
    Inr (d\<lparr>idb_Type := idb_Type c, idb_Host := idb_Host c, idb_Port := idb_Port c, idb_Database := idb_Database c, idb_Username := idb_Username c,
      idb_Password := if idb_Password c = [] then idb_Password d else idb_Password c\<rparr>)"
  unfolding yd_struct_def enc_database_def ynode.case
  by (simp only: append_Cons append_Nil yd_members.simps)
    (simp add: yaml_database_def yd_opt_unknown yd_atoms, simp add: opt_def)

definition table_read :: "TableConfig \<Rightarrow> InternalTableConfig" where
  "table_read t = t\<lparr>itc_WriteBackBatchSize := 0, itc_DrainRate := 0\<rparr>"

lemma yd_table: "yd_struct yaml_table (enc_table t) zero_table_config = Inr (table_read t)"
  by (simp add: yd_struct_def enc_table_def opt_def yaml_table_def yd_atoms table_read_def zero_table_config_def)

lemma yd_tables_read: "yd_tables (map (\<lambda>(n, t). (n, enc_table t)) ts) m = Inr (fold (\<lambda>(n, t) m. gomap_set m n (table_read t)) ts m)"
  by (induction ts arbitrary: m) (auto simp: yd_table)

lemma yd_writeback:
  "\<exists>x. yd_struct yaml_writeback (enc_writeback c) d = Inr x \<and> iwb_BatchSize x = iwb_BatchSize c \<and> iwb_DrainRate x = iwb_DrainRate c \<and>
     iwb_MaxRetries x = iwb_MaxRetries c \<and> iwb_DefaultTTL x = iwb_DefaultTTL c \<and>
     iwb_QueueType x = (if iwb_QueueType c = [] then iwb_QueueType d else iwb_QueueType c)"
proof -
  have ka: "yd_struct yaml_kafka (enc_kafka (iwb_KafkaConfig c)) y = Inr (iwb_KafkaConfig c)" for y by (rule yd_kafka)
  show ?thesis unfolding yd_struct_def enc_writeback_def ynode.case by (simp add: opt_def yaml_writeback_def yd_atoms ka)
qed

lemma yd_autoscaling: "yd_struct yaml_autoscaling (enc_autoscaling c) d = Inr (d\<lparr>ias_Enabled := ias_Enabled c\<rparr>)"
  by (simp add: yd_struct_def enc_autoscaling_def yaml_autoscaling_def yd_atoms)

text \<open>The whole configuration that arrives.\<close>

lemma yd_config:
  "\<exists>x. yd_struct yaml_config (enc_config c) d = Inr x \<and>
     yd_struct yaml_kvstore (enc_kvstore (ic_KVStore c)) (ic_KVStore d) = Inr (ic_KVStore x) \<and>
     yd_struct yaml_database (enc_database (ic_Database c)) (ic_Database d) = Inr (ic_Database x) \<and>
     yd_struct yaml_writeback (enc_writeback (ic_WriteBack c)) (ic_WriteBack d) = Inr (ic_WriteBack x) \<and>
     ic_AutoScaling x = (ic_AutoScaling d)\<lparr>ias_Enabled := ias_Enabled (ic_AutoScaling c)\<rparr> \<and>
     (tables_of c = [] \<and> ic_Tables x = ic_Tables d \<or> ic_Tables x = Some (fold (\<lambda>(n, t) m. gomap_set m n (table_read t)) (tables_of c) (tables_of d)))"
proof -
  obtain k where k: "yd_struct yaml_kvstore (enc_kvstore (ic_KVStore c)) (ic_KVStore d) = Inr k" using yd_kvstore by blast
  obtain b where b: "yd_struct yaml_database (enc_database (ic_Database c)) (ic_Database d) = Inr b" using yd_database by blast
  obtain w where w: "yd_struct yaml_writeback (enc_writeback (ic_WriteBack c)) (ic_WriteBack d) = Inr w" using yd_writeback by blast
  have get: "map_of yaml_config ''kvstore'' = Some (snd (yfld '''' ic_KVStore ic_KVStore_update (yd_struct yaml_kvstore)))"
    "map_of yaml_config ''database'' = Some (snd (yfld '''' ic_Database ic_Database_update (yd_struct yaml_database)))"
    "map_of yaml_config ''tables'' = Some (snd (yfld '''' ic_Tables ic_Tables_update yd_table_map))"
    "map_of yaml_config ''writeback'' = Some (snd (yfld '''' ic_WriteBack ic_WriteBack_update (yd_struct yaml_writeback)))"
    "map_of yaml_config ''autoscaling'' = Some (snd (yfld '''' ic_AutoScaling ic_AutoScaling_update (yd_struct yaml_autoscaling)))"
    by (simp_all add: yaml_config_def yfld_def)
  have t: "yd_table_map (YMap (map (\<lambda>(n, t). (n, enc_table t)) ts)) (ic_Tables d) =
      Inr (Some (fold (\<lambda>(n, t) m. gomap_set m n (table_read t)) ts (tables_of d)))" for ts
    by (simp add: yd_table_map_def tables_of_def yd_tables_read)
  have "yd_struct yaml_config (enc_config c) d = Inr (d\<lparr>ic_KVStore := k, ic_Database := b,
      ic_Tables := if tables_of c = [] then ic_Tables d else Some (fold (\<lambda>(n, t) m. gomap_set m n (table_read t)) (tables_of c) (tables_of d)),
      ic_WriteBack := w, ic_AutoScaling := (ic_AutoScaling d)\<lparr>ias_Enabled := ias_Enabled (ic_AutoScaling c)\<rparr>\<rparr>)"
    unfolding enc_config_def yd_struct_def [of yaml_config] ynode.case by (simp add: opt_def get yfld_def k b w t yd_autoscaling)
  then show ?thesis using k b w by simp
qed

lemma tables_read_zero:
  assumes "\<forall>n t. map_of m n = Some t \<longrightarrow> itc_DrainRate t = 0"
  shows "map_of (fold (\<lambda>(n, t) m. gomap_set m n (table_read t)) ts m) n = Some t' \<Longrightarrow> itc_DrainRate t' = 0"
  using assms
proof (induction ts arbitrary: m)
  case (Cons nt ts)
  have "\<forall>n t. map_of (gomap_set m (fst nt) (table_read (snd nt))) n = Some t \<longrightarrow> itc_DrainRate t = 0"
    using Cons.prems(2) by (simp add: table_read_def)
  from Cons.IH [OF _ this] show ?case using Cons.prems(1) by (simp add: case_prod_unfold)
qed simp

section \<open>Properties\<close>

text \<open>
  C29. Settings are lost between the packages. The public structs tag their fields in snake case, several
  internal structs have no tags, and the decoder only accepts the exact name: of a configuration the
  client has handed over and the manager has accepted, the addresses, names, passwords and the
  write-back section arrive, but cluster mode is always off, the pools have their default sizes and
  connections their default lifetimes, the thresholds of auto-scaling are the defaults, and every table
  has the global drain rate, whatever the user set.
\<close>

theorem settings_lost_between_packages:
  assumes "yaml_keeps yaml_Marshal yaml_Unmarshal c" and "yaml_Marshal c = Inr s"
    and "LoadFromYAML reg yaml_Unmarshal s NewConfigManager = (None, cm)"
  shows "idb_Host (ic_Database (cm_config cm)) = idb_Host (ic_Database c) \<and> idb_Port (ic_Database (cm_config cm)) = idb_Port (ic_Database c) \<and>
    idb_Database (ic_Database (cm_config cm)) = idb_Database (ic_Database c) \<and> idb_Username (ic_Database (cm_config cm)) = idb_Username (ic_Database c) \<and>
    ikv_Type (ic_KVStore (cm_config cm)) = ikv_Type (ic_KVStore c) \<and> iwb_DrainRate (ic_WriteBack (cm_config cm)) = iwb_DrainRate (ic_WriteBack c) \<and>
    iwb_DefaultTTL (ic_WriteBack (cm_config cm)) = iwb_DefaultTTL (ic_WriteBack c) \<and>
    \<not> irc_ClusterMode (ikv_RedisConfig (ic_KVStore (cm_config cm))) \<and> irc_PoolSize (ikv_RedisConfig (ic_KVStore (cm_config cm))) = 10 \<and>
    irc_MinIdleConns (ikv_RedisConfig (ic_KVStore (cm_config cm))) = 5 \<and> idb_MaxOpenConns (ic_Database (cm_config cm)) = 25 \<and>
    idb_ConnMaxLifetime (ic_Database (cm_config cm)) = 5 * 60000000000 \<and> ias_CPUThresholdHigh (ic_AutoScaling (cm_config cm)) = FFin 80 \<and>
    itc_DrainRate (GetTableConfig t cm) = iwb_DrainRate (ic_WriteBack c)"
proof -
  let ?d = defaultInternalConfig
  obtain x where x: "yd_struct yaml_config (enc_config c) ?d = Inr x"
    "yd_struct yaml_kvstore (enc_kvstore (ic_KVStore c)) (ic_KVStore ?d) = Inr (ic_KVStore x)"
    "yd_struct yaml_database (enc_database (ic_Database c)) (ic_Database ?d) = Inr (ic_Database x)"
    "yd_struct yaml_writeback (enc_writeback (ic_WriteBack c)) (ic_WriteBack ?d) = Inr (ic_WriteBack x)"
    "ic_AutoScaling x = (ic_AutoScaling ?d)\<lparr>ias_Enabled := ias_Enabled (ic_AutoScaling c)\<rparr>"
    "tables_of c = [] \<and> ic_Tables x = ic_Tables ?d \<or> ic_Tables x = Some (fold (\<lambda>(n, t) m. gomap_set m n (table_read t)) (tables_of c) (tables_of ?d))"
    using yd_config by blast
  have cm: "cm_config cm = x"
    using assms x(1) by (auto simp: yaml_keeps_def LoadFromYAML_def install_def split: option.splits)
  obtain y where y: "Inr (ic_KVStore x) = (Inr y :: InternalKVStoreConfig res)" "ikv_Type y = ikv_Type (ic_KVStore c)"
    "ikv_RedisConfig y = ikv_RedisConfig (ic_KVStore ?d) \<or>
     yd_struct yaml_redis (enc_redis (ikv_RedisConfig (ic_KVStore c))) (ikv_RedisConfig (ic_KVStore ?d)) = Inr (ikv_RedisConfig y)"
    using yd_kvstore [of "ic_KVStore c" "ic_KVStore ?d"] unfolding x(2) by blast
  have k: "ikv_Type (ic_KVStore x) = ikv_Type (ic_KVStore c)"
    "ikv_RedisConfig (ic_KVStore x) = ikv_RedisConfig (ic_KVStore ?d) \<or>
     (\<exists>e p n. ikv_RedisConfig (ic_KVStore x) = (ikv_RedisConfig (ic_KVStore ?d))\<lparr>irc_Endpoints := e, irc_Password := p, irc_DB := n\<rparr>)"
    using y unfolding yd_redis by (simp, metis Inr_inject)
  have w: "iwb_DrainRate (ic_WriteBack x) = iwb_DrainRate (ic_WriteBack c)" "iwb_DefaultTTL (ic_WriteBack x) = iwb_DefaultTTL (ic_WriteBack c)"
    using yd_writeback [of "ic_WriteBack c" "ic_WriteBack ?d"] x(4) by auto
  have "itc_DrainRate t' = 0" if "map_of (tables_of x) n = Some t'" for n t'
    using that x(6) tables_read_zero [of "tables_of ?d" "tables_of c" n t'] by (auto simp: tables_of_def defaultInternalConfig_def)
  then have t: "itc_DrainRate (GetTableConfig t cm) = iwb_DrainRate (ic_WriteBack c)"
    using cm w(1) unfolding GetTableConfig_def tables_of_def by (auto simp: Let_def split: option.splits)
  have r: "\<not> irc_ClusterMode (ikv_RedisConfig (ic_KVStore x))" "irc_PoolSize (ikv_RedisConfig (ic_KVStore x)) = 10"
    "irc_MinIdleConns (ikv_RedisConfig (ic_KVStore x)) = 5" using k(2) by (auto simp: defaultInternalConfig_def)
  have b: "ic_Database x = (ic_Database ?d)\<lparr>idb_Type := idb_Type (ic_Database c), idb_Host := idb_Host (ic_Database c),
      idb_Port := idb_Port (ic_Database c), idb_Database := idb_Database (ic_Database c), idb_Username := idb_Username (ic_Database c),
      idb_Password := if idb_Password (ic_Database c) = [] then idb_Password (ic_Database ?d) else idb_Password (ic_Database c)\<rparr>"
    using x(3) unfolding yd_database by simp
  have "idb_MaxOpenConns (ic_Database ?d) = 25" "idb_ConnMaxLifetime (ic_Database ?d) = 5 * 60000000000"
    "ias_CPUThresholdHigh (ic_AutoScaling ?d) = FFin 80" by (simp_all add: defaultInternalConfig_def)
  then show ?thesis unfolding cm using k(1) w t r b x(5) by simp
qed

text \<open>A configuration for a Redis cluster with large pools.\<close>

definition ex_config :: Config where
  "ex_config = DefaultConfig\<lparr>ic_KVStore := (ic_KVStore DefaultConfig)\<lparr>ikv_RedisConfig := (ikv_RedisConfig (ic_KVStore DefaultConfig))
       \<lparr>irc_ClusterMode := True, irc_PoolSize := 200\<rparr>\<rparr>,
     ic_Database := (ic_Database DefaultConfig)\<lparr>idb_Database := ''shop'', idb_Username := ''app'', idb_MaxOpenConns := 100\<rparr>,
     ic_Tables := Some [(''users'', zero_table_config\<lparr>itc_DrainRate := 7\<rparr>)]\<rparr>"

definition ex_unmarshal :: "string \<Rightarrow> InternalConfig \<Rightarrow> InternalConfig res" where
  "ex_unmarshal s d = yd_struct yaml_config (enc_config ex_config) d"

theorem settings_lost_between_packages_witness:
  "\<exists>cm. irc_ClusterMode (ikv_RedisConfig (ic_KVStore ex_config)) \<and>
     LoadFromYAML ex_validators ex_unmarshal ''doc'' NewConfigManager = (None, cm) \<and> \<not> irc_ClusterMode (ikv_RedisConfig (ic_KVStore (cm_config cm))) \<and>
     itc_DrainRate (GetTableConfig ''users'' cm) = 50"
proof -
  have y: "yaml_keeps (\<lambda>_. Inr ''doc'') ex_unmarshal ex_config" by (simp add: yaml_keeps_def ex_unmarshal_def)
  have "fst (LoadFromYAML ex_validators ex_unmarshal ''doc'' NewConfigManager) = None" by code_simp
  then obtain cm where l: "LoadFromYAML ex_validators ex_unmarshal ''doc'' NewConfigManager = (None, cm)"
    by (metis prod.collapse)
  have "iwb_DrainRate (ic_WriteBack ex_config) = 50" "irc_ClusterMode (ikv_RedisConfig (ic_KVStore ex_config))" by code_simp+
  then show ?thesis using settings_lost_between_packages [OF y _ l] l by auto
qed

end
