(* ===== verification/Table_Props.thy ===== *)
theory Table_Props
  imports Table_World
begin

text \<open>
  The properties of a table, over every environment that keeps the contracts of the store, the queue
  and the clock, each applied to the Redis world for its witness.
\<close>

section \<open>A table in the Redis world\<close>

definition ex_world :: world where
  "ex_world = \<lparr>w_queue = \<lparr>rq_world = \<lparr>rs_server = \<lparr>rr_data = [], rr_now = 1700000000000000000\<rparr>, rs_closed = False\<rparr>, rq_closed = False\<rparr>,
     w_log = [], w_rows = (\<lambda>_. \<lparr>rows_data = [Inr [VInt64 7, VString ''bob'', VInt64 1]], rows_Err = None\<rparr>), w_down = False\<rparr>"

definition ex_table :: "string \<Rightarrow> world TableImpl" where
  "ex_table ns = fst (NewTableImpl ''users'' ex_schema world_kv world_db world_queue 0 ns world_clock utc ex_world)"

definition ex_state :: "world tstate" where
  "ex_state = \<lparr>ts_read = \<lparr>r_world = ex_world, r_pending = [], r_cleanups = [], r_fills = []\<rparr>, ts_enabled = True\<rparr>"

lemma ex_world_ok: "world_ok ex_world" "world_ready ex_world"
proof -
  have "time_ok (fst (redis_clock (w_redis ex_world)))" "\<not> IsZero (fst (redis_clock (w_redis ex_world)))" by code_simp+
  then show "world_ok ex_world"
    by (simp add: world_ok_def rref.rq_ok_def rref.glist_def list_at_def ref_keys_def ref_lookup_def ex_world_def)
  show "world_ready ex_world" by (simp add: world_ready_def ref_keys_def ref_lookup_def ex_world_def)
qed

lemma ex_table_built: "built_on world_kv world_queue world_db world_clock (ex_table ns)"
  unfolding ex_table_def by (rule NewTableImpl_built)

lemma ex_table_simps [simp]:
  "tb_tableName (ex_table ns) = ''users''" "tb_schema (ex_table ns) = ex_schema" "tb_namespace (ex_table ns) = ns"
  "tb_tz (ex_table ns) = utc" "env ex_state = ex_world" "ts_enabled ex_state" "r_pending (ts_read ex_state) = []"
  "r_fills (ts_read ex_state) = []"
  by (simp_all add: ex_table_def NewTableImpl_def ex_state_def env_def)

lemma ex_record_key: "field (Some ex_record) (sch_PrimaryKey ex_schema) = VInt64 7" "map_of ex_record (sch_PrimaryKey ex_schema) = Some (VInt64 7)"
  by code_simp+

lemma ex_record_queueable: "queueable (ex_table ns) (VInt64 7) (Some ex_record)" "loggable (VInt64 7) ''users:7''"
proof -
  have "utf8_valid ''users''" "json_plain (VInt64 7)" "json_plain (VMap ex_record)" by code_simp+
  then show "queueable (ex_table ns) (VInt64 7) (Some ex_record)" by (simp add: queueable_def)
  show "loggable (VInt64 7) ''users:7''" by code_simp
qed

lemma ex_key_free: "\<not> world_reserved ''users:7''" "\<not> wal_key ''users:7''" "\<not> wal_key ''app:users:7''"
  by (simp_all add: world_reserved_def wal_key_def)

lemma ex_ToKV:
  obtains val where "ToKV NewTranslator utc (Some ex_record) (Some ex_schema) = Inr (''users:7'', val)"
    "FromKV NewTranslator utc ''users:7'' (Some val) (Some ex_schema) = Inr (sort_key fst (stored_record utc ex_schema ex_record))"
proof -
  have "sch_TableName ex_schema @ '':'' @ show_v (VInt64 7) = ''users:7''" by code_simp
  then show ?thesis using ToKV_FromKV_stored [OF ex_record_ok(1,2) ex_record_key(2) ex_record_ok(3), of NewTranslator "''users:7''"] that
    by auto
qed

section \<open>Properties\<close>

text \<open>
  C8. What \<^verbatim>\<open>Create\<close> does, whatever the store and the queue answer. Only the key of the record and keys of
  the write-ahead log may change; the queue gets at most one operation more, the creation of exactly
  this record under its primary key; and when the call succeeds the record is cached under its key
  and that operation is the last one queued.
\<close>

theorem create_effect:
  assumes "table_env kv content ok q pending img accepts db now reserved"
    and "ok (env s)" and "built_on kv q db now t" and "ts_enabled s"
    and "ToKV NewTranslator (tb_tz t) (Some r) (Some (tb_schema t)) = Inr (key, val)" and "\<not> reserved key" and "\<not> wal_key key"
    and "queueable t (field (Some r) (sch_PrimaryKey (tb_schema t))) (Some r)"
    and "Create t (Some r) s = (e, s')"
  shows "\<exists>op. op_Operation op = OperationCreate \<and> op_Key op = field (Some r) (sch_PrimaryKey (tb_schema t)) \<and>
    op_Data op = Some r \<and> op_Table op = tb_tableName t \<and>
    (\<forall>k. k = key \<or> wal_key k \<or> content (env s') k = content (env s) k) \<and>
    (pending (env s') = pending (env s) @ [img op] \<or> e \<noteq> None \<and> pending (env s') = pending (env s)) \<and>
    (e = None \<longrightarrow> content (env s') key = Some val)"
  using table_env.Create_effect [OF assms] by (metis with_env_simps(1))

theorem create_effect_witness:
  "\<exists>op s'. Create (ex_table []) (Some ex_record) ex_state = (None, s') \<and> op_Data op = Some ex_record \<and>
     world_pending (env s') = world_pending ex_world @ [op_image op]"
proof -
  obtain val where v: "ToKV NewTranslator utc (Some ex_record) (Some ex_schema) = Inr (''users:7'', val)" by (rule ex_ToKV)
  obtain s' where c: "Create (ex_table []) (Some ex_record) ex_state = (None, s')"
    using tw.Create_live [OF _ _ ex_table_built, of ex_state "[]" ex_record "''users:7''" val] v ex_world_ok ex_record_key
      ex_record_queueable ex_key_free by auto
  show ?thesis
    using create_effect [OF tw.table_env_axioms _ ex_table_built _ _ ex_key_free(1,2) _ c] v ex_world_ok ex_record_key
      ex_record_queueable c by fastforce
qed



text \<open>
  C30. A namespace separates writers from readers. \<^verbatim>\<open>Create\<close> stores a record under table:key, while
  \<^verbatim>\<open>Read\<close> and \<^verbatim>\<open>Delete\<close> build their key with the namespace in front: with a namespace, a created record
  is not under the key that \<^verbatim>\<open>Read\<close> looks up, and deleting it leaves the cached copy where it is.
\<close>

theorem namespace_separates_create_from_delete:
  assumes "table_env kv content ok q pending img accepts db now reserved"
    and "ok (env s)" and "built_on kv q db now t" and "ts_enabled s" and "tb_namespace t \<noteq> []"
    and "sch_TableName (tb_schema t) = tb_tableName t" and "map_of r (sch_PrimaryKey (tb_schema t)) = Some pk"
    and "\<not> reserved (BuildKey [] (tb_tableName t) pk)" and "\<not> wal_key (BuildKey [] (tb_tableName t) pk)"
    and "\<not> reserved (BuildKey (tb_namespace t) (tb_tableName t) pk)" and "\<not> wal_key (BuildKey (tb_namespace t) (tb_tableName t) pk)"
    and "queueable t pk (Some r)" and "Create t (Some r) s = (None, s1)" and "Delete t pk s1 = (e, s2)"
  shows "content (env s1) (BuildKey (tb_namespace t) (tb_tableName t) pk) = content (env s) (BuildKey (tb_namespace t) (tb_tableName t) pk) \<and>
    (\<exists>val. content (env s1) (BuildKey [] (tb_tableName t) pk) = Some val \<and> content (env s2) (BuildKey [] (tb_tableName t) pk) = Some val)"
proof -
  let ?c = "BuildKey [] (tb_tableName t) pk" and ?r = "BuildKey (tb_namespace t) (tb_tableName t) pk"
  have f: "field (Some r) (sch_PrimaryKey (tb_schema t)) = pk" using assms(7) by (simp add: field_def)
  have tr: "tb_translator t = NewTranslator" using assms(3) by (simp add: built_on_def)
  obtain key val where kv: "ToKV NewTranslator (tb_tz t) (Some r) (Some (tb_schema t)) = Inr (key, val)"
    using assms(4,13) tr by (auto simp: Create_def split: sum.splits)
  have key: "key = ?c"
    using kv assms(6,7) Sprintf_default by (auto simp: ToKV_def BuildKey_def Let_def split: option.splits sum.splits)
  have ne: "?r \<noteq> ?c"
  proof
    assume "?r = ?c"
    then have "length ?r = length ?c" by simp
    then show False using assms(5) by (simp add: BuildKey_def)
  qed
  obtain w1 where w1: "s1 = with_env w1 s" "ok w1" "content w1 ?c = Some val" "content w1 ?r = content (env s) ?r"
    using table_env.Create_effect [OF assms(1-4) kv _ _ _ assms(13)] key assms(8,9,11,12) f ne by auto
  have "queueable t pk None" using assms(12) by (simp add: queueable_def)
  then have "content (env s2) ?c = content w1 ?c"
    using table_env.Delete_effect [OF assms(1) _ assms(3) _ _ assms(10,14)] w1(1,2) assms(4,9) ne by auto
  then show ?thesis using w1 by simp
qed

theorem namespace_separates_create_from_delete_witness:
  "\<exists>s1 s2 e val. Create (ex_table ''app'') (Some ex_record) ex_state = (None, s1) \<and> Delete (ex_table ''app'') (VInt64 7) s1 = (e, s2) \<and>
     world_content (env s1) ''app:users:7'' = None \<and> world_content (env s2) ''users:7'' = Some val"
proof -
  let ?t = "ex_table ''app''"
  have k: "BuildKey [] ''users'' (VInt64 7) = ''users:7''" "BuildKey ''app'' ''users'' (VInt64 7) = ''app:users:7''"
    "sch_TableName ex_schema = ''users''" by code_simp+
  obtain val where v: "ToKV NewTranslator utc (Some ex_record) (Some ex_schema) = Inr (''users:7'', val)" by (rule ex_ToKV)
  obtain s1 where c: "Create ?t (Some ex_record) ex_state = (None, s1)"
    using tw.Create_live [OF _ _ ex_table_built, of ex_state "''app''" ex_record "''users:7''" val] v ex_world_ok ex_record_key
      ex_record_queueable ex_key_free by auto
  obtain e s2 where d: "Delete ?t (VInt64 7) s1 = (e, s2)" by (cases "Delete ?t (VInt64 7) s1")
  have "\<not> world_reserved ''app:users:7''" by (simp add: world_reserved_def)
  then have "world_content (env s1) ''app:users:7'' = world_content ex_world ''app:users:7'' \<and>
      (\<exists>val. world_content (env s1) ''users:7'' = Some val \<and> world_content (env s2) ''users:7'' = Some val)"
    using namespace_separates_create_from_delete [OF tw.table_env_axioms _ ex_table_built _ _ _ _ _ _ _ _ _ c d] k ex_world_ok
      ex_record_key(2) ex_record_queueable ex_key_free by simp
  moreover have "world_content ex_world ''app:users:7'' = None"
    by (simp add: world_content_def ref.redis_content_def ref_keys_def ref_lookup_def ex_world_def)
  ultimately show ?thesis using c d by auto
qed

context live_table_env
begin

lemma Update_live:
  assumes "ok (env s)" and "built t" and "ts_enabled s" and "queueable t key u" and "loggable key kvKey"
    and "Read_shared t key s = ((Inr rec, sh), s1)" and "ready (env s1)"
    and "ToKV NewTranslator (tb_tz t) (Some (merge rec u)) (Some (tb_schema t)) = Inr (kvKey, val)" and "\<not> reserved kvKey"
  shows "\<exists>s'. Update t key u s = (None, s')"
proof -
  let ?s2 = "s1\<lparr>ts_read := share sh (merge rec u) (ts_read s1)\<rparr>"
  have q0: "ok (env ?s2)" "env ?s2 = env s1" using Read_shared_quiet [OF assms(1,2,6)] by (simp_all add: quiet_def env_def)
  obtain w1 where a: "kv_Set kv kvKey val (tb_ttl t) (env ?s2) = (None, w1)" using set_live [OF q0(1)] by blast
  have "ok (env (with_env w1 ?s2))" "ready (env (with_env w1 ?s2))"
    using set_effect [OF q0(1) assms(9) a] ready_set [OF q0(1) _ assms(9) a] assms(7) q0(2) by simp_all
  then obtain s' where l: "log_and_enqueue t OperationUpdate key u kvKey (Some val) (with_env w1 ?s2) = (None, s')"
    using log_and_enqueue_live [OF _ _ assms(2,4,5)] by blast
  have "on_env (kv_Set kv kvKey val (tb_ttl t)) ?s2 = (None, with_env w1 ?s2)" using a by (simp only: on_env_iff) blast
  then show ?thesis using assms(2,3,6,8) l by (auto simp: Update_def built_on_def Let_def split: prod.splits)
qed

end

text \<open>The merge of an update: the changed fields have their new values, the others keep theirs.\<close>

lemma merge_get: "gomap_wf u \<Longrightarrow> map_of (merge r (Some u)) c = (case map_of u c of Some v \<Rightarrow> Some v | None \<Rightarrow> map_of r c)"
proof -
  have "map_of (fold (\<lambda>(k, v) m. gomap_set m k v) us r) c = (case map_of (rev us) c of Some v \<Rightarrow> Some v | None \<Rightarrow> map_of r c)" for us r
    by (induction us arbitrary: r) (auto simp: map_add_def split: option.splits)
  from this [of u r] show "gomap_wf u \<Longrightarrow> ?thesis"
    by (simp add: merge_def map_of_rev_distinct gomap_wf_def)
qed

lemma merge_override: "queueable t key u \<Longrightarrow> map_of (merge r u) = map_of r ++ map_of (case u of None \<Rightarrow> [] | Some changes \<Rightarrow> changes)"
proof (cases u)
  case (Some changes)
  assume "queueable t key u"
  then have "gomap_wf changes" using Some by (simp add: queueable_def gomap_wf_def)
  then show ?thesis using Some by (auto simp: merge_get map_add_def fun_eq_iff)
qed (simp add: merge_def)

text \<open>
  C9. \<^verbatim>\<open>Update\<close> writes the whole record and queues the change. The record it caches is the one that was
  read with the changes merged over it: a changed field has its new value, any other keeps the old
  one. When it succeeds, the cache holds that record under its key, and the last operation queued
  carries the changes alone; other keys outside the log are as before. When it fails, the queue has
  at most that operation more. And in an environment whose calls succeed it does succeed.
\<close>

theorem update_effect:
  assumes "table_env kv content ok q pending img accepts db now reserved"
    and "ok (env s)" and "built_on kv q db now t" and "ts_enabled s" and "queueable t key u"
    and "Read t key s = (Inr rec, s1)"
    and "ToKV NewTranslator (tb_tz t) (Some (merge rec u)) (Some (tb_schema t)) = Inr (kvKey, val)"
    and "\<not> reserved kvKey" and "\<not> wal_key kvKey" and "Update t key u s = (e, s')"
  shows "\<exists>op. op_Operation op = OperationUpdate \<and> op_Key op = key \<and> op_Data op = u \<and> op_Table op = tb_tableName t \<and>
    (\<forall>k. k = kvKey \<or> wal_key k \<or> content (env s') k = content (env s) k) \<and>
    (pending (env s') = pending (env s) @ [img op] \<or> e \<noteq> None \<and> pending (env s') = pending (env s)) \<and>
    (e = None \<longrightarrow> content (env s') kvKey = Some val) \<and>
    map_of (merge rec u) = map_of rec ++ map_of (case u of None \<Rightarrow> [] | Some changes \<Rightarrow> changes) \<and>
    (\<forall>ready. live_table_env kv content ok q pending img accepts db now reserved ready \<longrightarrow> ready (env s1) \<longrightarrow> loggable key kvKey \<longrightarrow>
      e = None)"
proof -
  obtain sh where sh: "Read_shared t key s = ((Inr rec, sh), s1)"
    using assms(6) by (auto simp: Read_def split: prod.splits)
  have live: "e = None" if "live_table_env kv content ok q pending img accepts db now reserved ready" "ready (env s1)" "loggable key kvKey" for ready
    using live_table_env.Update_live [OF that(1) assms(2-5) that(3) sh that(2) assms(7,8)] assms(10) by simp
  note m = merge_override [OF assms(5), of rec]
  from table_env.Update_effect [OF assms(1-5) sh assms(7-10)] show ?thesis using live m by metis
qed

text \<open>The row the database answers with, and a change of it.\<close>

definition ex_row :: grecord where
  "ex_row = gomap_of (zip (map col_Name (sch_Columns ex_schema)) [VInt64 7, VString ''bob'', VInt64 1])"

definition ex_change :: grecord where
  "ex_change = [(''name'', VString ''eve'')]"

text \<open>The store, the clock and the queue leave the database of the world alone.\<close>

definition same_db :: "world \<Rightarrow> world \<Rightarrow> bool" where
  "same_db w w' \<longleftrightarrow> w_rows w' = w_rows w \<and> w_down w' = w_down w \<and> w_log w' = w_log w"

lemma same_db_refl [simp]: "same_db w w"
  by (simp add: same_db_def)

lemma same_db_trans: "same_db w w1 \<Longrightarrow> same_db w1 w2 \<Longrightarrow> same_db w w2"
  by (simp add: same_db_def)

lemma world_same_db:
  "kv_Set world_kv k v ttl w = (e, w') \<Longrightarrow> same_db w w'" "kv_Delete world_kv k w = (e, w') \<Longrightarrow> same_db w w'"
  "kv_Get world_kv k w = (r, w') \<Longrightarrow> same_db w w'" "world_clock w = (ts, w') \<Longrightarrow> same_db w w'"
  "q_Enqueue world_queue x w = (e, w') \<Longrightarrow> same_db w w'" "q_Dequeue world_queue n w = (d, w') \<Longrightarrow> same_db w w'"
  "q_Size world_queue w = (m, w') \<Longrightarrow> same_db w w'"
  by (auto simp: world_calls put_redis_def put_queue_def same_db_def)

lemma log_and_enqueue_same_db:
  assumes "built_on world_kv world_queue world_db world_clock t" and "log_and_enqueue t opType key dat kvKey val s = (e, s')"
    and "same_db w (env s)"
  shows "same_db w (env s')"
  using log_and_enqueue_inv [where P = "same_db w", OF assms(2,3)] assms(1) same_db_trans world_same_db(1,4,5)
  unfolding built_on_def by metis

lemma ex_reads_rows: "reads world_kv world_clock w w' \<Longrightarrow> w_rows w' = w_rows w \<and> w_down w' = w_down w"
  by (erule reads_inv) (auto simp: world_calls put_redis_def)

lemma ex_Read_row:
  assumes "world_ok (env s)" and "ts_enabled s" and "map_of (r_pending (ts_read s)) ''users:7'' = None"
    and "world_content (env s) ''users:7'' = None" and "w_rows (env s) = w_rows ex_world" and "\<not> w_down (env s)"
  shows "\<exists>s'. Read (ex_table []) (VInt64 7) s = (Inr ex_row, s') \<and> r_fills (ts_read s') = r_fills (ts_read s) @ [ex_row]"
proof -
  have k: "BuildKey [] ''users'' (VInt64 7) = ''users:7''" by code_simp
  have q: "\<exists>w'. db_Query world_db sql args w = (Inr \<lparr>rows_data = [Inr [VInt64 7, VString ''bob'', VInt64 1]], rows_Err = None\<rparr>, w')"
    if "reads world_kv world_clock (env s) w" for sql args w
    using ex_reads_rows [OF that] assms(5,6) by (simp add: world_db_def ex_world_def)
  have "length [VInt64 7, VString ''bob'', VInt64 1] = length (sch_Columns ex_schema)" by (simp add: ex_schema_def)
  then show ?thesis
    using tw.Read_miss [OF assms(1) ex_table_built assms(2), of "[]" "VInt64 7", OF _ _ q] assms(3,4) k by (auto simp: ex_row_def)
qed

text \<open>Reading leaves the world as it is.\<close>

lemma world_clock_same: "world_clock w = (ts, w') \<Longrightarrow> w' = w"
  by (auto simp: world_calls redis_clock_def put_redis_def)

lemma world_reads_same: "reads world_kv world_clock w w' \<Longrightarrow> world_ok w \<Longrightarrow> w' = w"
  unfolding reads_def
proof (induction rule: rtranclp_induct)
  case (step w1 w2)
  then show ?case using world_clock_same [of w1] world_get [of w1] unfolding read_step_def by blast
qed simp

lemma ex_Read_ready:
  assumes "Read_shared (ex_table ns) key s = ((r, sh), s')" and "world_ok (env s)" and "world_ready (env s)" and "ts_enabled s"
  shows "world_ready (env s')"
proof -
  let ?t = "ex_table ns"
  obtain x r1 where c: "Cache_Read world_kv world_clock NewTranslator (tb_tz ?t) (tb_namespace ?t) (tb_tableName ?t) key (Some (tb_schema ?t)) (ts_read s) = (x, r1)"
    by (metis surj_pair)
  have r1: "world_ready (r_world r1)"
    using world_reads_same [OF Cache_Read_reads [OF c]] assms(2,3) by (simp add: env_def)
  have b: "tb_now ?t = world_clock" "tb_kvStore ?t = world_kv" "tb_translator ?t = NewTranslator" "tb_database ?t = world_db"
    using ex_table_built [of ns] by (auto simp: built_on_def)
  have d: "ReadFromDB world_db tn k sch r1 = (y, r2) \<Longrightarrow> r_world r2 = r_world r1" for tn k sch y r2
    by (auto simp: ReadFromDB_def on_world_iff world_db_def split: prod.splits sum.splits list.splits option.splits if_splits)
  show ?thesis using assms(1,4) c r1 d
    by (auto simp: Read_shared_def on_read_def b env_def Let_def split: sum.splits prod.splits)
qed

theorem update_effect_witness:
  "\<exists>op s' val. Update (ex_table []) (VInt64 7) (Some ex_change) ex_state = (None, s') \<and> op_Data op = Some ex_change \<and>
     world_pending (env s') = world_pending ex_world @ [op_image op] \<and> world_content (env s') ''users:7'' = Some val \<and>
     map_of (merge ex_row (Some ex_change)) ''name'' = Some (VString ''eve'')"
proof -
  let ?t = "ex_table []" and ?m = "merge ex_row (Some ex_change)"
  have m: "gomap_wf ?m" "ValidateRecord utc (Some ex_schema) (Some ?m) = None" "map_of ?m (sch_PrimaryKey ex_schema) = Some (VInt64 7)"
    "storable utc ex_schema ?m" by code_simp+
  have k: "sch_TableName ex_schema @ '':'' @ show_v (VInt64 7) = ''users:7''" by code_simp
  obtain val where v: "ToKV NewTranslator utc (Some ?m) (Some ex_schema) = Inr (''users:7'', val)"
    using ToKV_FromKV_stored [OF m, of NewTranslator "[]"] k by auto
  have "json_plain (VMap ex_change)" by code_simp
  then have qu: "queueable ?t (VInt64 7) (Some ex_change)" using ex_record_queueable(1) [of "[]"] by (simp add: queueable_def)
  obtain s1 where r: "Read ?t (VInt64 7) ex_state = (Inr ex_row, s1)" using ex_Read_row [of ex_state] ex_world_ok
    by (auto simp: world_content_def ref.redis_content_def ref_keys_def ref_lookup_def ex_world_def)
  obtain sh where sh: "Read_shared ?t (VInt64 7) ex_state = ((Inr ex_row, sh), s1)" using r by (auto simp: Read_def split: prod.splits)
  have rd: "world_ready (env s1)" using ex_Read_ready [OF sh] ex_world_ok by simp
  obtain e s' where u: "Update ?t (VInt64 7) (Some ex_change) ex_state = (e, s')" by (cases "Update ?t (VInt64 7) (Some ex_change) ex_state")
  have n: "map_of ex_row ++ map_of ex_change = map_of ?m \<Longrightarrow> map_of ?m ''name'' = Some (VString ''eve'')"
    by (drule fun_cong [of _ _ "''name''"]) (simp add: ex_change_def)
  show ?thesis
    using update_effect [OF tw.table_env_axioms _ ex_table_built _ qu r _ ex_key_free(1,2) u] v u ex_world_ok
      tw.live_table_env_axioms rd ex_record_queueable(2) n by (fastforce simp del: map_add_def)
qed

text \<open>
  C24. A deleted record comes back until the deletion has drained. \<^verbatim>\<open>Delete\<close> removes the record from the
  cache and queues the deletion; a read before that is executed misses, finds the row that is still
  in the database, returns it, and starts a fill that puts the record back into the cache.
\<close>

theorem deleted_record_comes_back:
  assumes "live_table_env kv content ok q pending img accepts db now reserved ready"
    and "ok (env s)" and "built_on kv q db now t" and "ts_enabled s" and "queueable t key None"
    and "\<not> reserved (BuildKey (tb_namespace t) (tb_tableName t) key)" and "\<not> wal_key (BuildKey (tb_namespace t) (tb_tableName t) key)"
    and "map_of (r_pending (ts_read s)) (BuildKey (tb_namespace t) (tb_tableName t) key) = None" and "r_fills (ts_read s) = []"
    and "Delete t key s = (None, s1)"
    and "\<And>w. reads kv now (env s1) w \<Longrightarrow>
      \<exists>w'. db_Query db (buildSelectQuery (tb_tableName t) (tb_schema t)) [key] w = (Inr \<lparr>rows_data = Inr vs # rest, rows_Err = None\<rparr>, w')"
    and "length vs = length (sch_Columns (tb_schema t))" and "row = gomap_of (zip (map col_Name (sch_Columns (tb_schema t))) vs)"
    and "ToKV NewTranslator (tb_tz t) (Some row) (Some (tb_schema t)) = Inr (kvKey, val)"
  shows "content (env s1) (BuildKey (tb_namespace t) (tb_tableName t) key) = None \<and>
    (\<exists>s2. Read t key s1 = (Inr row, s2) \<and> content (env (table_fill t s2)) kvKey = Some val)"
proof -
  let ?k = "BuildKey (tb_namespace t) (tb_tableName t) key"
  have base: "table_env kv content ok q pending img accepts db now reserved" using assms(1) by (simp add: live_table_env_def)
  have kvc: "kv_contract kv content ok" using base by (simp add: table_env_def)
  obtain w1 where w1: "s1 = with_env w1 s" "ok w1" "content w1 ?k = None"
    using table_env.Delete_effect [OF base assms(2-6,10)] assms(7) by auto
  obtain s2 where s2: "Read t key s1 = (Inr row, s2)" "ok (env s2)" "r_fills (ts_read s2) = [row]"
    using table_env.Read_miss [OF base _ assms(3), of s1 key vs rest] w1 assms(4,8,9,11-13) by auto
  obtain w2 where w2: "kv_Set kv kvKey val (tb_ttl t) (env s2) = (None, w2)" using live_table_env.set_live [OF assms(1) s2(2)] by blast
  have "env (table_fill t s2) = w2"
    using s2(3) w2 assms(3,14)
    by (simp add: table_fill_def run_fill_def populateCache_def built_on_def on_world_def env_def)
  moreover have "content w2 kvKey = Some val" using kv_contract.set [OF kvc s2(2) w2] by auto
  ultimately show ?thesis using w1 s2(1) by auto
qed

theorem deleted_record_comes_back_witness:
  "\<exists>s1 s2 val. Delete (ex_table []) (VInt64 7) ex_state = (None, s1) \<and> Read (ex_table []) (VInt64 7) s1 = (Inr ex_row, s2) \<and>
     world_content (env (table_fill (ex_table []) s2)) ''users:7'' = Some val"
proof -
  let ?t = "ex_table []" and ?vs = "[VInt64 7, VString ''bob'', VInt64 1]"
  have k: "BuildKey [] ''users'' (VInt64 7) = ''users:7''" by code_simp
  have qu: "queueable ?t (VInt64 7) None" using ex_record_queueable(1) [of "[]"] by (simp add: queueable_def)
  obtain w1 where d1: "kv_Delete world_kv ''users:7'' ex_world = (None, w1)" using tw.delete_live [OF ex_world_ok(1)] by blast
  have w1: "world_ok w1" "world_ready w1" using world_delete [OF ex_world_ok(1) d1] ex_world_ok(2) by auto
  obtain s1 where l: "log_and_enqueue ?t OperationDelete (VInt64 7) None ''users:7'' None (with_env w1 ex_state) = (None, s1)"
    using tw.log_and_enqueue_live [OF _ _ ex_table_built qu ex_record_queueable(2), of "with_env w1 ex_state" OperationDelete None] w1 by auto
  have "on_env (kv_Delete (tb_kvStore ?t) ''users:7'') ex_state = (None, with_env w1 ex_state)"
    using d1 ex_table_built [of "[]"] by (simp add: on_env_iff built_on_def)
  then have d: "Delete ?t (VInt64 7) ex_state = (None, s1)" using k l by (simp add: Delete_def)
  have "same_db ex_world w1" using d1 by (rule world_same_db(2))
  then have "same_db ex_world (env s1)" by (intro log_and_enqueue_same_db [OF ex_table_built l]) simp
  then have rows: "w_rows (env s1) = w_rows ex_world \<and> \<not> w_down (env s1)" by (simp add: same_db_def ex_world_def)
  have m: "gomap_wf ex_row" "ValidateRecord utc (Some ex_schema) (Some ex_row) = None" "map_of ex_row (sch_PrimaryKey ex_schema) = Some (VInt64 7)"
    "storable utc ex_schema ex_row" by code_simp+
  have "sch_TableName ex_schema @ '':'' @ show_v (VInt64 7) = ''users:7''" by code_simp
  then obtain val where v: "ToKV NewTranslator utc (Some ex_row) (Some ex_schema) = Inr (''users:7'', val)"
    using ToKV_FromKV_stored [OF m, of NewTranslator "[]"] by auto
  have q: "\<exists>w'. db_Query world_db (buildSelectQuery (tb_tableName ?t) (tb_schema ?t)) [VInt64 7] w = (Inr \<lparr>rows_data = [Inr ?vs], rows_Err = None\<rparr>, w')"
    if "reads world_kv world_clock (env s1) w" for w
    using ex_reads_rows [OF that] rows by (simp add: world_db_def ex_world_def)
  have "length ?vs = length (sch_Columns (tb_schema ?t))" "ex_row = gomap_of (zip (map col_Name (sch_Columns (tb_schema ?t))) ?vs)"
    by (simp_all add: ex_schema_def ex_row_def)
  from deleted_record_comes_back [OF tw.live_table_env_axioms _ ex_table_built _ qu _ _ _ _ d q this, of "''users:7''" val]
  show ?thesis using d v k ex_key_free ex_world_ok by auto
qed

lemma world_keeps_closed:
  "kv_Set world_kv k v ttl w = (e, w') \<Longrightarrow> rq_closed (w_queue w') = rq_closed (w_queue w)"
  "world_clock w = (ts, w') \<Longrightarrow> rq_closed (w_queue w') = rq_closed (w_queue w)"
  by (auto simp: world_calls put_redis_def)

text \<open>
  C31. A failed enqueue leaves the record cached. When the queue has been closed, \<^verbatim>\<open>Create\<close> reports the
  failure to enqueue, but it does not take back what it has written: the record is in the cache,
  where reads will find it, and no operation is queued, so it never reaches the database.
\<close>

theorem failed_enqueue_leaves_record_cached:
  assumes "world_ok (env s)" and "rq_closed (w_queue (env s))" and "built_on world_kv world_queue world_db world_clock t"
    and "ts_enabled s" and "ToKV NewTranslator (tb_tz t) (Some r) (Some (tb_schema t)) = Inr (key, val)"
    and "\<not> world_reserved key" and "\<not> wal_key key"
    and "queueable t (field (Some r) (sch_PrimaryKey (tb_schema t))) (Some r)"
    and "loggable (field (Some r) (sch_PrimaryKey (tb_schema t))) key"
  shows "\<exists>s'. Create t (Some r) s = (Some (Wrapf ''failed to enqueue write operation: %w'' [] ErrQueueClosed), s') \<and>
    world_content (env s') key = Some val \<and> world_pending (env s') = world_pending (env s)"
proof -
  let ?pk = "field (Some r) (sch_PrimaryKey (tb_schema t))"
  obtain w1 where a: "kv_Set world_kv key val (tb_ttl t) (env s) = (None, w1)" using tw.set_live [OF assms(1)] by blast
  have w1: "world_ok w1" "world_content w1 key = Some val" "world_pending w1 = world_pending (env s)"
    using world_set [OF assms(1) a] assms(6) by auto
  have cl1: "rq_closed (w_queue w1)" using a assms(2) by (auto simp: world_calls put_redis_def)
  obtain w2 where l: "append_wal t OperationCreate ?pk (Some r) key (Some val) (with_env w1 s) = (None, with_env w2 s)"
    using tw.append_wal_live [OF _ assms(3,8,9), of "with_env w1 s" OperationCreate "Some val"] w1(1) by auto
  have w2: "world_ok w2" "world_content w2 key = Some val" "world_pending w2 = world_pending (env s)"
    using tw.append_wal_effect [OF _ assms(3) l] w1 assms(7) by auto
  have cl2: "rq_closed (w_queue w2)"
    using append_wal_inv [where P = "\<lambda>w. rq_closed (w_queue w)", OF l] cl1 assms(3) world_keeps_closed
    unfolding built_on_def by (metis with_env_simps(1))
  obtain ts w3 where c: "world_clock w2 = (ts, w3)" by (cases "world_clock w2")
  have w3: "world_content w3 = world_content w2" "world_pending w3 = world_pending w2" "rq_closed (w_queue w3)"
    using tw.clock [OF w2(1) c] c cl2 by (auto simp: world_calls put_redis_def)
  have "q_Enqueue world_queue x w3 = (Some ErrQueueClosed, w3)" for x
    using w3(3) by (simp add: world_calls rq_Enqueue_def put_queue_def)
  then have e: "enqueue_op t OperationCreate ?pk (Some r) (with_env w2 s) =
      (Some (Wrapf ''failed to enqueue write operation: %w'' [] ErrQueueClosed), with_env w3 s)"
    using c assms(3) by (simp add: enqueue_op_def built_on_def on_env_def on_read_def on_world_def env_def with_env_def Let_def)
  have "on_env (kv_Set (tb_kvStore t) key val (tb_ttl t)) s = (None, with_env w1 s)" using a assms(3) by (simp add: on_env_iff built_on_def)
  then have "Create t (Some r) s = (Some (Wrapf ''failed to enqueue write operation: %w'' [] ErrQueueClosed), with_env w3 s)"
    using assms(3-5) l e by (simp add: Create_def built_on_def log_and_enqueue_def)
  then show ?thesis using w2 w3 by simp
qed

theorem failed_enqueue_leaves_record_cached_witness:
  "\<exists>s' val err. Create (ex_table []) (Some ex_record)
       (with_env (ex_world\<lparr>w_queue := (w_queue ex_world)\<lparr>rq_closed := True\<rparr>\<rparr>) ex_state) = (Some err, s') \<and>
     world_content (env s') ''users:7'' = Some val \<and> world_pending (env s') = []"
proof -
  let ?w = "ex_world\<lparr>w_queue := (w_queue ex_world)\<lparr>rq_closed := True\<rparr>\<rparr>"
  obtain val where v: "ToKV NewTranslator utc (Some ex_record) (Some ex_schema) = Inr (''users:7'', val)" by (rule ex_ToKV)
  have p: "world_pending ?w = []"
    by (simp add: world_pending_def rref.rq_pending_def rref.glist_def list_at_def ref_keys_def ref_lookup_def ex_world_def)
  have "world_ok ?w" using ex_world_ok(1) by (simp add: world_ok_def rref.rq_ok_def rref.glist_def)
  from failed_enqueue_leaves_record_cached [OF _ _ ex_table_built, of "with_env ?w ex_state" "[]" ex_record "''users:7''" val]
  show ?thesis using v ex_record_key ex_record_queueable ex_key_free p \<open>world_ok ?w\<close> by auto
qed

end
