(* ===== verification/Table_Writeback.thy ===== *)
theory Table_Writeback
  imports Table_Props
begin

text \<open>
  The way of a write through the queue: an operation is encoded as JSON when it is queued, and the
  statement that finally reaches the database is built from what the decoder makes of it. This theory
  says for which values the statement is the one a direct write would have executed, and shows
  values for which the write is refused after it was acknowledged.
\<close>

section \<open>Values that survive the queue\<close>

text \<open>
  Values that convert to the same database value before and after JSON, by the type of their column:
  text is UTF-8, and an integer is one that a float64 holds.
\<close>

definition wb_exact :: "string \<Rightarrow> goval \<Rightarrow> bool" where
  "wb_exact ty v \<longleftrightarrow>
     (case v of
        VNil \<Rightarrow> True
      | VBool _ \<Rightarrow> True
      | VString s \<Rightarrow> utf8_valid s
      | VTime t \<Rightarrow> time_ok t \<and> db_switch ty = C_DATE
      | _ \<Rightarrow> (case int_of_goval v of
                None \<Rightarrow> False
              | Some i \<Rightarrow>
                  (case db_switch ty of
                     C_INT \<Rightarrow> \<bar>i\<bar> \<le> 2 ^ 53
                   | C_BIGINT \<Rightarrow> \<bar>i\<bar> \<le> 2 ^ 53
                   | C_SMALLINT \<Rightarrow> - (2 ^ 31) \<le> i \<and> i < 2 ^ 31 \<and> \<not> is_err (toInt16 v)
                   | _ \<Rightarrow> False)))"

definition record_exact :: "schema \<Rightarrow> grecord \<Rightarrow> bool" where
  "record_exact s r \<longleftrightarrow>
     list_all (\<lambda>c. case map_of r (col_Name c) of None \<Rightarrow> True | Some v \<Rightarrow> wb_exact (col_Type c) v) (sch_Columns s)"

section \<open>Lemmas\<close>

lemma toInt_word: "int_of_goval v = Some i \<Longrightarrow> toInt v = Inr (word_of_int i) \<and> toInt64 v = Inr (word_of_int i)"
  by (cases v) (auto intro!: bit_word_eqI simp: bit_simps)

lemma json_image_int: "int_of_goval v = Some i \<Longrightarrow> json_image v = VFloat64 (FFin (of_int i))"
  by (cases v) (auto simp del: of_int_sint)

lemma json_image_VNil [simp]: "json_image v = VNil \<longleftrightarrow> v = VNil"
  by (cases v) auto

lemma Convert_int_image:
  assumes "int_of_goval v = Some i" and "wb_exact ty v"
  shows "ConvertToDBValue tz (json_image v) ty = ConvertToDBValue tz v ty"
proof -
  have n: "v \<noteq> VNil" using assms(1) by auto
  have c: "case db_switch ty of
                     C_INT \<Rightarrow> \<bar>i\<bar> \<le> 2 ^ 53
                   | C_BIGINT \<Rightarrow> \<bar>i\<bar> \<le> 2 ^ 53
                   | C_SMALLINT \<Rightarrow> - (2 ^ 31) \<le> i \<and> i < 2 ^ 31 \<and> \<not> is_err (toInt16 v)
                   | _ \<Rightarrow> False"
    using assms by (cases v) (auto simp: wb_exact_def)
  have s: "toInt16 v = Inr (word_of_int i)" if "\<not> is_err (toInt16 v)"
    using that toInt16_word [OF assms(1)] unfolding not_err_iff by blast
  show ?thesis
    using c n toInt_word [OF assms(1)] s f_to_sint_of_int [of 64 i] f_to_sint_of_int [of 32 i]
    by (cases "db_switch ty")
      (auto simp: ConvertToDBValue_def json_image_int [OF assms(1)] simp del: f_to_sint.simps)
qed

lemma Convert_image:
  assumes "wb_exact ty v"
  shows "ConvertToDBValue tz (json_image v) ty = ConvertToDBValue tz v ty"
proof (cases "int_of_goval v")
  case (Some i)
  then show ?thesis using Convert_int_image assms by blast
next
  case None
  then show ?thesis using assms
    by (cases v) (auto simp: wb_exact_def ConvertToDBValue_def first_some_time)
qed

lemma map_image_get: "gomap_wf r \<Longrightarrow> map_of (map_image r) c = map_option json_image (map_of r c)"
proof -
  assume "gomap_wf r"
  then have d: "distinct (map fst (map (\<lambda>(k, v). (k, json_image v)) r))"
    by (simp add: gomap_wf_def comp_def case_prod_unfold)
  have "map_of (map (\<lambda>(k, v). (k, json_image v)) r) c = map_option json_image (map_of r c)" by (induction r) auto
  then show ?thesis using map_of_wf_sort [OF d] by (simp add: map_image_def)
qed

lemma column_ok_image:
  assumes "gomap_wf r" and "case map_of r (col_Name c) of None \<Rightarrow> True | Some v \<Rightarrow> wb_exact (col_Type c) v"
  shows "column_ok tz (map_image r) c = column_ok tz r c"
  using assms Convert_image by (auto simp: column_ok_def map_image_get split: option.splits)

lemma insert_columns_image:
  assumes "gomap_wf r" and "list_all (\<lambda>c. case map_of r (col_Name c) of None \<Rightarrow> True | Some v \<Rightarrow> wb_exact (col_Type c) v) cols"
  shows "insert_columns tz (map_image r) cols = insert_columns tz r cols"
  using assms(2)
proof (induction cols)
  case (Cons c cols)
  then show ?case using Convert_image
    by (cases "map_of r (col_Name c)") (auto simp: map_image_get [OF assms(1)] split: sum.split)
qed simp

lemma ToDB_image:
  assumes "gomap_wf r" and "ValidateRecord tz (Some s) (Some r) = None" and "record_exact s r"
  shows "ToDB tr tz (Some (map_image r)) (Some s) = ToDB tr tz (Some r) (Some s)"
proof -
  have "ValidateRecord tz (Some s) (Some (map_image r)) = None"
    using assms column_ok_image [OF assms(1)]
    by (auto simp: ValidateRecord_None map_image_get record_exact_def list_all_iff)
  then show ?thesis using assms insert_columns_image [OF assms(1)]
    by (simp add: ToDB_def record_exact_def)
qed

lemma toBool_float: "is_err (toBool (VFloat64 f))"
  by (simp add: toBool_def)

section \<open>Properties\<close>

text \<open>
  C5. The write-back of a creation is the direct write. For a creation that \<^verbatim>\<open>json.Marshal\<close> encodes
  without loss (UTF-8 text, integers up to \<open>2\<^sup>5\<^sup>3\<close> in size, no floats), of a record that validates and
  whose values suit their columns (strings, booleans, nil; integers in integer columns; times in date
  columns), the bytes put on the queue decode to an operation whose execution issues the same
  statement with the same arguments, and so has the same outcome, as \<^verbatim>\<open>Create\<close> on the table with the
  cache switched off.
\<close>

theorem write_back_equals_direct_write:
  assumes "op_Operation op = OperationCreate" and "op_Data op = Some r" and "op_plain op" and "gomap_wf r"
    and "ValidateRecord (tb_tz t) (Some (tb_schema t)) (Some r) = None" and "record_exact (tb_schema t) r"
  shows "\<exists>d op' err u. marshal_write_op op = Inr d \<and> unmarshal_write_op d = Inr op' \<and>
    Create t (Some r) (s\<lparr>ts_enabled := False\<rparr>) = (err, u) \<and>
    ExecuteWriteOperation t op' s = (err, u\<lparr>ts_enabled := ts_enabled s\<rparr>)"
proof -
  obtain d where d: "marshal_write_op op = Inr d" "unmarshal_write_op d = Inr (op_image op)"
    using unmarshal_marshal_write_op [OF assms(3)] by blast
  have "write_statement t (op_Operation (op_image op)) (op_Key (op_image op)) (op_Data (op_image op)) =
      write_statement t OperationCreate VNil (Some r)"
    using assms(1,2) ToDB_image [OF assms(4-6)] by (simp add: write_statement_def op_image_def)
  then have "\<exists>err u. Create t (Some r) (s\<lparr>ts_enabled := False\<rparr>) = (err, u) \<and>
      ExecuteWriteOperation t (op_image op) s = (err, u\<lparr>ts_enabled := ts_enabled s\<rparr>)"
    by (cases s) (auto simp: ExecuteWriteOperation_def writeToDatabase_def Create_def on_env_def on_read_def on_world_def
        split: sum.splits prod.splits)
  then show ?thesis using d by blast
qed

definition ex_safe_record :: grecord where
  "ex_safe_record = [(''id'', VInt64 7), (''name'', VString ''bob''), (''active'', VBool True)]"

theorem write_back_equals_direct_write_witness:
  "\<exists>d op' err u. marshal_write_op (table_op (ex_table []) OperationCreate (VInt64 7) (Some ex_safe_record) zero_time) = Inr d \<and>
     unmarshal_write_op d = Inr op' \<and>
     Create (ex_table []) (Some ex_safe_record) (ex_state\<lparr>ts_enabled := False\<rparr>) = (err, u) \<and>
     ExecuteWriteOperation (ex_table []) op' ex_state = (err, u\<lparr>ts_enabled := ts_enabled ex_state\<rparr>)"
proof -
  have "gomap_wf ex_safe_record" "ValidateRecord utc (Some ex_schema) (Some ex_safe_record) = None" "record_exact ex_schema ex_safe_record"
    by code_simp+
  moreover have "op_plain (table_op (ex_table []) OperationCreate (VInt64 7) (Some ex_safe_record) zero_time)" by code_simp
  ultimately show ?thesis by (intro write_back_equals_direct_write) (auto simp: table_op_def)
qed

text \<open>
  An integer in a boolean column is acknowledged and then lost. The cache and a direct write accept
  it, but through the queue it becomes a float64, which no boolean column takes: executing the queued
  operation fails before any statement is issued, so the row never reaches the database.
\<close>

theorem queued_integer_boolean_is_lost:
  assumes "c \<in> set (sch_Columns (tb_schema t))" and "db_switch (col_Type c) = C_BOOLEAN"
    and "map_of r (col_Name c) = Some v" and "int_of_goval v = Some i" and "gomap_wf r"
    and "op_Operation op = OperationCreate" and "op_Data op = Some r"
  shows "ConvertToDBValue (tb_tz t) v (col_Type c) = Inr (VBool (i \<noteq> 0)) \<and>
    (\<exists>err. ExecuteWriteOperation t (op_image op) s = (Some err, s))"
proof -
  have n: "v \<noteq> VNil" using assms(4) by auto
  have "\<not> column_ok (tb_tz t) (map_image r) c"
    using assms(2,3,5) toBool_float n
    by (auto simp: column_ok_def map_image_get json_image_int [OF assms(4)] ConvertToDBValue_def is_err_iff)
  then have "ValidateRecord (tb_tz t) (Some (tb_schema t)) (Some (map_image r)) \<noteq> None"
    using assms(1) by (auto simp: ValidateRecord_None list_all_iff)
  then obtain err where "ToDB (tb_translator t) (tb_tz t) (Some (map_image r)) (Some (tb_schema t)) = Inl err"
    by (auto simp: ToDB_def)
  then have "ExecuteWriteOperation t (op_image op) s = (Some err, s)"
    using assms(6,7) by (simp add: ExecuteWriteOperation_def writeToDatabase_def write_statement_def op_image_def)
  moreover have "toBool v = Inr (i \<noteq> 0)" using assms(4) by (cases v) (auto simp: toBool_def)
  ultimately show ?thesis using n assms(2) by (auto simp: ConvertToDBValue_def)
qed

theorem queued_integer_boolean_is_lost_witness:
  "\<exists>err. ExecuteWriteOperation (ex_table []) (op_image (table_op (ex_table []) OperationCreate (VInt64 7) (Some ex_record) zero_time)) ex_state
     = (Some err, ex_state)"
proof -
  let ?c = "\<lparr>col_Name = ''active'', col_Type = ''BOOLEAN'', col_Nullable = True, col_Default = VNil\<rparr>"
  have "?c \<in> set (sch_Columns ex_schema)" "db_switch (col_Type ?c) = C_BOOLEAN" "map_of ex_record (col_Name ?c) = Some (VInt 1)"
    "int_of_goval (VInt 1) = Some 1" by code_simp+
  then show ?thesis
    using queued_integer_boolean_is_lost [of ?c "ex_table []" ex_record "VInt 1" 1] ex_record_ok(1) by (auto simp: table_op_def)
qed

end
