(* ===== verification/Drainer.thy ===== *)
theory Drainer
  imports Table_Writeback "HOL-Library.Sublist"
begin

text \<open>
  \<^verbatim>\<open>pkg/shockabsorber/drainer.go\<close>: the background worker that takes operations from a write-back queue
  and executes them on the database. The state \<open>'s\<close> is the one the queue and the executor share. The
  rate limiter of \<^verbatim>\<open>golang.org/x/time/rate\<close> is the parameter \<open>wait\<close>, called with the limit and the
  burst it was built with. The loop may run for ever, so it is given the signals it will see at the
  head of its iterations, one per iteration: whether the stop channel is closed or the context done.

  \<^verbatim>\<open>Start\<close> and \<^verbatim>\<open>Stop\<close> hand over between goroutines through two channels; a transition system
  interleaves their steps.
\<close>

section \<open>Operations\<close>

record DrainerConfig =
  drc_DrainRate :: int
  drc_BatchSize :: int
  drc_PollInterval :: int
  drc_MaxRetries :: int
  drc_RetryBackoff :: int

definition DefaultDrainerConfig :: DrainerConfig where
  "DefaultDrainerConfig = \<lparr>drc_DrainRate = 50, drc_BatchSize = 1, drc_PollInterval = 100 * 1000000, drc_MaxRetries = 3,
     drc_RetryBackoff = 1000000000\<rparr>"

record 's WriteBackExecutor =
  wbe_ExecuteWriteOperation :: "write_op \<Rightarrow> 's \<Rightarrow> gerror option \<times> 's"
  wbe_GetWriteBackQueue :: "'s wbqueue"

record 's Drainer =
  dn_tableName :: string
  dn_queue :: "'s wbqueue"
  dn_table :: "'s WriteBackExecutor"
  dn_config :: DrainerConfig

definition NewDrainer :: "string \<Rightarrow> 's wbqueue \<Rightarrow> 's WriteBackExecutor \<Rightarrow> DrainerConfig \<Rightarrow> 's Drainer" where
  "NewDrainer tableName queue executor config0 =
     (let config1 = (if drc_DrainRate config0 \<le> 0 then config0\<lparr>drc_DrainRate := drc_DrainRate DefaultDrainerConfig\<rparr> else config0);
          config2 = (if drc_BatchSize config1 \<le> 0 then config1\<lparr>drc_BatchSize := drc_BatchSize DefaultDrainerConfig\<rparr> else config1);
          config3 = (if drc_PollInterval config2 \<le> 0 then config2\<lparr>drc_PollInterval := drc_PollInterval DefaultDrainerConfig\<rparr> else config2)
      in \<lparr>dn_tableName = tableName, dn_queue = queue, dn_table = executor, dn_config = config3\<rparr>)"

definition QueueSize :: "'s Drainer \<Rightarrow> 's \<Rightarrow> int \<times> 's" where
  "QueueSize d s = q_Size (dn_queue d) s"

definition GetConfig :: "'s Drainer \<Rightarrow> DrainerConfig" where
  "GetConfig d = dn_config d"

text \<open>
  The operations of one batch. The flag of the result says that the worker has returned, which it does
  when the limiter reports the end of the context; the operation at hand and the rest of the batch
  are then not executed. Any other error of the limiter skips the operation, and so does an error of
  the executor. The size of the queue is asked for the log.
\<close>

fun process_ops :: "'s Drainer \<Rightarrow> ('s \<Rightarrow> gerror option \<times> 's) \<Rightarrow> write_op list \<Rightarrow> int \<Rightarrow> 's \<Rightarrow> (bool \<times> int) \<times> 's" where
  "process_ops d wait [] operationCount s = ((False, operationCount), s)"
| "process_ops d wait (op # ops) operationCount s =
     (case wait s of
        (Some err, s1) \<Rightarrow>
          if err = ContextCanceled \<or> err = ContextDeadlineExceeded then ((True, operationCount), s1)
          else process_ops d wait ops operationCount s1
      | (None, s1) \<Rightarrow>
          (let (size, s2) = q_Size (dn_queue d) s1;
               (err, s3) = wbe_ExecuteWriteOperation (dn_table d) op s2
           in process_ops d wait ops (operationCount + 1) s3))"

text \<open>The default case of the select.\<close>

definition drain_once :: "'s Drainer \<Rightarrow> ('s \<Rightarrow> gerror option \<times> 's) \<Rightarrow> int \<Rightarrow> 's \<Rightarrow> (bool \<times> int) \<times> 's" where
  "drain_once d wait operationCount s =
     (let (queueSize, s1) = q_Size (dn_queue d) s in
      if queueSize = 0 then ((False, operationCount), s1)
      else case q_Dequeue (dn_queue d) (drc_BatchSize (dn_config d)) s1 of
        ((operations, Some err), s2) \<Rightarrow> ((False, operationCount), s2)
      | ((operations, None), s2) \<Rightarrow> process_ops d wait operations operationCount s2)"

fun drain_run :: "'s Drainer \<Rightarrow> ('s \<Rightarrow> gerror option \<times> 's) \<Rightarrow> bool list \<Rightarrow> int \<Rightarrow> 's \<Rightarrow> int \<times> 's" where
  "drain_run d wait [] operationCount s = (operationCount, s)"
| "drain_run d wait (signal # signals) operationCount s =
     (if signal then (operationCount, s)
      else case drain_once d wait operationCount s of
        ((True, n), s1) \<Rightarrow> (n, s1)
      | ((False, n), s1) \<Rightarrow> drain_run d wait signals n s1)"

text \<open>The worker, with the limiter it builds.\<close>

definition run :: "(int \<Rightarrow> int \<Rightarrow> 's \<Rightarrow> gerror option \<times> 's) \<Rightarrow> 's Drainer \<Rightarrow> bool list \<Rightarrow> 's \<Rightarrow> int \<times> 's" where
  "run limiter d signals s = drain_run d (limiter (drc_DrainRate (dn_config d)) 1) signals 0 s"

section \<open>Start and Stop\<close>

text \<open>
  Channels and contexts are numbered. A worker has the context \<^verbatim>\<open>Start\<close> was called with. It evaluates
  the channel it will close when its deferred call is set up, at the beginning of \<^verbatim>\<open>run\<close>, but reads the
  stop channel afresh in every iteration: it is spawned, at the head of its loop, or in the middle of
  an iteration. A call of \<^verbatim>\<open>Stop\<close> that found the drainer running has two steps left: to close the stop
  channel, and to wait for the done channel.
\<close>

datatype stop_pc = Marked | Waiting nat

datatype worker_pc = Spawned | Polling nat | Working nat

record drainer_life =
  dl_running :: bool
  dl_stopCh :: nat
  dl_doneCh :: nat
  dl_next :: nat
  dl_closed :: "nat list"
  dl_workers :: "(nat \<times> worker_pc) list"
  dl_stops :: "stop_pc list"
  dl_cancelled :: "nat list"
  dl_panicked :: bool

definition life_init :: drainer_life where
  "life_init = \<lparr>dl_running = False, dl_stopCh = 0, dl_doneCh = 1, dl_next = 2, dl_closed = [], dl_workers = [], dl_stops = [],
     dl_cancelled = [], dl_panicked = False\<rparr>"

definition close_chan :: "nat \<Rightarrow> drainer_life \<Rightarrow> drainer_life" where
  "close_chan ch s = (if ch \<in> set (dl_closed s) then s\<lparr>dl_panicked := True\<rparr> else s\<lparr>dl_closed := ch # dl_closed s\<rparr>)"

text \<open>\<^verbatim>\<open>Start\<close> and the part of \<^verbatim>\<open>Stop\<close> under the mutex.\<close>

definition life_Start :: "nat \<Rightarrow> drainer_life \<Rightarrow> drainer_life" where
  "life_Start ctx s =
     (if dl_running s then s
      else s\<lparr>dl_running := True, dl_stopCh := dl_next s, dl_doneCh := dl_next s + 1, dl_next := dl_next s + 2,
             dl_workers := dl_workers s @ [(ctx, Spawned)]\<rparr>)"

definition life_Stop :: "drainer_life \<Rightarrow> drainer_life" where
  "life_Stop s = (if \<not> dl_running s then s else s\<lparr>dl_running := False, dl_stops := dl_stops s @ [Marked]\<rparr>)"

text \<open>
  The steps; \<open>serial\<close> restricts the callers to one call of \<^verbatim>\<open>Start\<close> or \<^verbatim>\<open>Stop\<close> at a time, and \<open>cancel\<close> is the
  environment ending a context. At the head of its loop a worker returns when the present stop channel
  is closed or its context is done, and starts an iteration otherwise; the iteration ends, or the
  worker returns from it when the limiter reports the end of the context. A worker that returns closes
  the channel it remembers.
\<close>

inductive life_step :: "bool \<Rightarrow> drainer_life \<Rightarrow> drainer_life \<Rightarrow> bool" for serial where
  start: "\<not> serial \<or> dl_stops s = [] \<Longrightarrow> life_step serial s (life_Start ctx s)"
| stop_mark: "\<not> serial \<or> dl_stops s = [] \<Longrightarrow> life_step serial s (life_Stop s)"
| stop_close: "dl_stops s = xs @ Marked # ys \<Longrightarrow>
     life_step serial s (close_chan (dl_stopCh s) (s\<lparr>dl_stops := xs @ Waiting (dl_doneCh s) # ys\<rparr>))"
| stop_done: "dl_stops s = xs @ Waiting ch # ys \<Longrightarrow> ch \<in> set (dl_closed s) \<Longrightarrow> life_step serial s (s\<lparr>dl_stops := xs @ ys\<rparr>)"
| worker_begin: "dl_workers s = xs @ (ctx, Spawned) # ys \<Longrightarrow>
     life_step serial s (s\<lparr>dl_workers := xs @ (ctx, Polling (dl_doneCh s)) # ys\<rparr>)"
| worker_exit: "dl_workers s = xs @ (ctx, Polling ch) # ys \<Longrightarrow> dl_stopCh s \<in> set (dl_closed s) \<Longrightarrow>
     life_step serial s (close_chan ch (s\<lparr>dl_workers := xs @ ys\<rparr>))"
| worker_cancel: "dl_workers s = xs @ (ctx, Polling ch) # ys \<Longrightarrow> ctx \<in> set (dl_cancelled s) \<Longrightarrow>
     life_step serial s (close_chan ch (s\<lparr>dl_workers := xs @ ys\<rparr>))"
| worker_iterate: "dl_workers s = xs @ (ctx, Polling ch) # ys \<Longrightarrow> dl_stopCh s \<notin> set (dl_closed s) \<Longrightarrow> ctx \<notin> set (dl_cancelled s) \<Longrightarrow>
     life_step serial s (s\<lparr>dl_workers := xs @ (ctx, Working ch) # ys\<rparr>)"
| worker_done: "dl_workers s = xs @ (ctx, Working ch) # ys \<Longrightarrow>
     life_step serial s (s\<lparr>dl_workers := xs @ (ctx, Polling ch) # ys\<rparr>)"
| worker_abort: "dl_workers s = xs @ (ctx, Working ch) # ys \<Longrightarrow> ctx \<in> set (dl_cancelled s) \<Longrightarrow>
     life_step serial s (close_chan ch (s\<lparr>dl_workers := xs @ ys\<rparr>))"
| cancel: "life_step serial s (s\<lparr>dl_cancelled := ctx # dl_cancelled s\<rparr>)"

section \<open>The drainers of the tables\<close>

text \<open>
  A drainer of the manager is its worker's data and whether it is running; \<^verbatim>\<open>Start\<close> and \<^verbatim>\<open>Stop\<close> are
  here whole calls, one after the other.
\<close>

record 's managed =
  md_drainer :: "'s Drainer"
  md_running :: bool

record 's DrainerManager =
  dm_drainers :: "'s managed gomap"
  dm_config :: DrainerConfig

definition NewDrainerManager :: "DrainerConfig \<Rightarrow> 's DrainerManager" where
  "NewDrainerManager config = \<lparr>dm_drainers = [], dm_config = config\<rparr>"

definition Drainer_Start :: "'s managed \<Rightarrow> gerror option \<times> 's managed" where
  "Drainer_Start d = (None, d\<lparr>md_running := True\<rparr>)"

definition Drainer_Stop :: "'s managed \<Rightarrow> gerror option \<times> 's managed" where
  "Drainer_Stop d = (None, d\<lparr>md_running := False\<rparr>)"

definition IsRunning :: "'s managed \<Rightarrow> bool" where
  "IsRunning d = md_running d"

definition AddDrainer :: "string \<Rightarrow> 's wbqueue \<Rightarrow> 's WriteBackExecutor \<Rightarrow> 's DrainerManager \<Rightarrow> 's managed \<times> 's DrainerManager" where
  "AddDrainer tableName queue executor dm =
     (case map_of (dm_drainers dm) tableName of
        Some existing \<Rightarrow> (existing, dm)
      | None \<Rightarrow> (let drainer = \<lparr>md_drainer = NewDrainer tableName queue executor (dm_config dm), md_running = False\<rparr>
                 in (drainer, dm\<lparr>dm_drainers := gomap_set (dm_drainers dm) tableName drainer\<rparr>)))"

definition GetDrainer :: "string \<Rightarrow> 's DrainerManager \<Rightarrow> 's managed option" where
  "GetDrainer tableName dm = map_of (dm_drainers dm) tableName"

definition StartAll :: "'s DrainerManager \<Rightarrow> gerror option \<times> 's DrainerManager" where
  "StartAll dm = (None, dm\<lparr>dm_drainers := map (\<lambda>(n, d). (n, snd (Drainer_Start d))) (dm_drainers dm)\<rparr>)"

definition StopAll :: "'s DrainerManager \<Rightarrow> gerror option \<times> 's DrainerManager" where
  "StopAll dm = (None, dm\<lparr>dm_drainers := map (\<lambda>(n, d). (n, snd (Drainer_Stop d))) (dm_drainers dm)\<rparr>)"

definition RemoveDrainer :: "string \<Rightarrow> 's DrainerManager \<Rightarrow> gerror option \<times> 's DrainerManager" where
  "RemoveDrainer tableName dm =
     (case map_of (dm_drainers dm) tableName of
        None \<Rightarrow> (None, dm)
      | Some drainer \<Rightarrow>
          (case Drainer_Stop drainer of
             (Some err, _) \<Rightarrow> (Some err, dm)
           | (None, _) \<Rightarrow> (None, dm\<lparr>dm_drainers := gomap_delete (dm_drainers dm) tableName\<rparr>)))"

definition Drainer_Count :: "'s DrainerManager \<Rightarrow> int" where
  "Drainer_Count dm = int (length (dm_drainers dm))"

section \<open>Draining\<close>

text \<open>
  What the worker relies on: the contract of the queue, and an executor that leaves a journal of what
  it does. \<open>effect\<close> is what executing an operation adds to the journal; an execution that fails may
  add nothing. The limiter may fail in any way, with the end of the context or with another error.
\<close>

locale drain_env = queue_contract q pending ok image accepts
  for q :: "'s wbqueue" and pending :: "'s \<Rightarrow> write_op list" and ok :: "'s \<Rightarrow> bool" and image :: "write_op \<Rightarrow> write_op"
    and accepts :: "write_op \<Rightarrow> bool" +
  fixes exec :: "write_op \<Rightarrow> 's \<Rightarrow> gerror option \<times> 's" and wait :: "'s \<Rightarrow> gerror option \<times> 's"
    and journal :: "'s \<Rightarrow> 'l list" and effect :: "write_op \<Rightarrow> 'l list"
  assumes exec: "ok s \<Longrightarrow> exec op s = (e, s') \<Longrightarrow> ok s' \<and> pending s' = pending s \<and>
      (journal s' = journal s @ effect op \<or> e \<noteq> None \<and> journal s' = journal s)"
    and wait: "ok s \<Longrightarrow> wait s = (e, s') \<Longrightarrow> ok s' \<and> pending s' = pending s \<and> journal s' = journal s"
    and size: "ok s \<Longrightarrow> q_Size q s = (n, s') \<Longrightarrow> ok s' \<and> pending s' = pending s \<and> journal s' = journal s"
    and dequeue_journal: "ok s \<Longrightarrow> q_Dequeue q n s = (r, s') \<Longrightarrow> journal s' = journal s"
begin

text \<open>\<open>tried\<close> are the operations given to the executor, \<open>dn\<close> those of them that had their effect.\<close>

lemma process_ops_part:
  assumes "dn_queue d = q" and "wbe_ExecuteWriteOperation (dn_table d) = exec" and "ok s"
    and "process_ops d wait ops n s = ((r, m), s')"
  shows "ok s' \<and> pending s' = pending s \<and> (\<exists>tried dn. subseq tried ops \<and> subseq dn tried \<and> m = n + int (length tried) \<and>
    journal s' = journal s @ concat (map effect dn))"
  using assms(3,4)
proof (induction ops arbitrary: n s)
  case Nil
  then show ?case by (auto intro!: exI [of _ "[]"])
next
  case (Cons op ops)
  obtain e1 s1 where a: "wait s = (e1, s1)" by (cases "wait s")
  note w = wait [OF Cons.prems(1) a]
  have skip: ?case if "ok s1" "process_ops d wait ops n s1 = ((r, m), s')"
    using Cons.IH [OF that] w by (metis list_emb_Cons)
  show ?case
  proof (cases e1)
    case (Some err)
    then show ?thesis using Cons.prems(2) a w skip by (auto split: if_splits intro!: exI [of _ "[]"])
  next
    case None
    obtain z s2 where b: "q_Size q s1 = (z, s2)" by (cases "q_Size q s1")
    note z = size [OF _ b]
    obtain e3 s3 where c: "exec op s2 = (e3, s3)" by (cases "exec op s2")
    note x = exec [OF _ c]
    have p: "process_ops d wait ops (n + 1) s3 = ((r, m), s')" using Cons.prems(2) assms(1,2) a b c None by simp
    have ok: "ok s3" using w z x by simp
    obtain tried dn where t: "ok s'" "pending s' = pending s3" "subseq tried ops" "subseq dn tried" "m = n + 1 + int (length tried)"
      "journal s' = journal s3 @ concat (map effect dn)"
      using Cons.IH [OF ok p] by blast
    have "journal s' = journal s @ concat (map effect (op # dn)) \<or> journal s' = journal s @ concat (map effect dn)"
      using t(6) x w z by auto
    moreover have "subseq (op # dn) (op # tried)" "subseq dn (op # tried)" "subseq (op # tried) (op # ops)" using t(3,4) by auto
    moreover have "m = n + int (length (op # tried))" "pending s' = pending s" using t(2,5) w z x by simp_all
    ultimately show ?thesis using t(1) by blast
  qed
qed

lemma drain_once_part:
  assumes "dn_queue d = q" and "wbe_ExecuteWriteOperation (dn_table d) = exec" and "ok s"
    and "drain_once d wait n s = ((r, m), s')"
  shows "ok s' \<and> (\<exists>taken tried dn. pending s = taken @ pending s' \<and> subseq tried taken \<and> subseq dn tried \<and>
    m = n + int (length tried) \<and> journal s' = journal s @ concat (map effect dn))"
proof -
  obtain z s1 where a: "q_Size q s = (z, s1)" by (cases "q_Size q s")
  note z = size [OF assms(3) a]
  show ?thesis
  proof (cases "z = 0")
    case True
    then show ?thesis using assms(1,4) a z by (auto simp: drain_once_def intro!: exI [of _ "[]"])
  next
    case False
    obtain xs e s2 where b: "q_Dequeue q (drc_BatchSize (dn_config d)) s1 = ((xs, e), s2)" by (metis surj_pair)
    obtain lost where l: "ok s2" "pending s1 = xs @ lost @ pending s2" "journal s2 = journal s1"
      using dequeue [OF _ b] dequeue_journal [OF _ b] z by auto
    show ?thesis
    proof (cases e)
      case (Some err)
      then show ?thesis using assms(1,4) a b l z False
        by (intro conjI exI [of _ "xs @ lost"] exI [of _ "[]"]) (auto simp: drain_once_def)
    next
      case None
      then have "process_ops d wait xs n s2 = ((r, m), s')" using assms(1,4) a b False by (simp add: drain_once_def)
      from process_ops_part [OF assms(1,2) l(1) this] obtain tried dn where t: "ok s'" "pending s' = pending s2" "subseq tried xs"
        "subseq dn tried" "m = n + int (length tried)" "journal s' = journal s2 @ concat (map effect dn)" by blast
      moreover have "subseq tried (xs @ lost)" using t(3) by (metis append_Nil2 list_emb_append_mono list_emb_Nil)
      ultimately show ?thesis using l z by (intro conjI exI [of _ "xs @ lost"] exI [of _ tried] exI [of _ dn]) auto
    qed
  qed
qed

text \<open>In whatever way the calls fail, what has been executed is in the order of the queue, and nothing is executed twice.\<close>

lemma drain_run_part:
  assumes "dn_queue d = q" and "wbe_ExecuteWriteOperation (dn_table d) = exec"
    and "ok s" and "drain_run d wait signals n s = (m, s')"
  shows "\<exists>taken tried dn. pending s = taken @ pending s' \<and> subseq tried taken \<and> subseq dn tried \<and>
    m = n + int (length tried) \<and> journal s' = journal s @ concat (map effect dn)"
  using assms(3,4)
proof (induction signals arbitrary: n s)
  case (Cons b signals)
  show ?case
  proof (cases b)
    case True
    then show ?thesis using Cons.prems by (auto intro!: exI [of _ "[]"])
  next
    case False
    obtain r k s1 where o: "drain_once d wait n s = ((r, k), s1)" by (metis surj_pair)
    obtain ys zs ws where ys: "ok s1" "pending s = ys @ pending s1" "subseq zs ys" "subseq ws zs" "k = n + int (length zs)"
      "journal s1 = journal s @ concat (map effect ws)"
      using drain_once_part [OF assms(1,2) Cons.prems(1) o] by blast
    show ?thesis
    proof (cases r)
      case True
      then have "m = k" "s' = s1" using Cons.prems(2) False o by simp_all
      then show ?thesis using ys by blast
    next
      case r: False
      have "drain_run d wait signals k s1 = (m, s')" using Cons.prems(2) False o r by simp
      from Cons.IH [OF ys(1) this] obtain xs us vs where xs: "pending s1 = xs @ pending s'" "subseq us xs" "subseq vs us"
        "m = k + int (length us)" "journal s' = journal s1 @ concat (map effect vs)" by blast
      have "subseq (zs @ us) (ys @ xs)" "subseq (ws @ vs) (zs @ us)" using ys xs by (auto intro: list_emb_append_mono)
      then show ?thesis using xs ys by (intro exI [of _ "ys @ xs"] exI [of _ "zs @ us"] exI [of _ "ws @ vs"]) auto
    qed
  qed
qed (auto intro!: exI [of _ "[]"])

end

text \<open>
  A steady environment: the limiter lets the worker pass, every execution has its effect, the size
  tells whether the queue is empty, and the queue delivers what it holds.
\<close>

locale steady_drain_env = drain_env q pending ok image accepts exec wait journal effect + lossless_queue q pending ok image accepts
  for q :: "'s wbqueue" and pending :: "'s \<Rightarrow> write_op list" and ok :: "'s \<Rightarrow> bool" and image :: "write_op \<Rightarrow> write_op"
    and accepts :: "write_op \<Rightarrow> bool" and exec :: "write_op \<Rightarrow> 's \<Rightarrow> gerror option \<times> 's" and wait :: "'s \<Rightarrow> gerror option \<times> 's"
    and journal :: "'s \<Rightarrow> 'l list" and effect :: "write_op \<Rightarrow> 'l list" +
  assumes exec_steady: "ok s \<Longrightarrow> exec op s = (e, s') \<Longrightarrow> journal s' = journal s @ effect op"
    and wait_passes: "ok s \<Longrightarrow> wait s = (e, s') \<Longrightarrow> e = None"
    and size_zero: "ok s \<Longrightarrow> q_Size q s = (n, s') \<Longrightarrow> n = 0 \<longleftrightarrow> pending s = []"
    and dequeue_live: "ok s \<Longrightarrow> pending s \<noteq> [] \<Longrightarrow> 0 < n \<Longrightarrow> q_Dequeue q n s = ((xs, e), s') \<Longrightarrow> e = None \<and> xs \<noteq> []"
begin

lemma process_ops_all:
  assumes "dn_queue d = q" and "wbe_ExecuteWriteOperation (dn_table d) = exec" and "ok s"
    and "process_ops d wait ops n s = ((r, m), s')"
  shows "\<not> r \<and> m = n + int (length ops) \<and> ok s' \<and> pending s' = pending s \<and> journal s' = journal s @ concat (map effect ops)"
  using assms(3,4)
proof (induction ops arbitrary: n s)
  case (Cons op ops)
  obtain e1 s1 where a: "wait s = (e1, s1)" by (cases "wait s")
  note w = wait [OF Cons.prems(1) a] wait_passes [OF Cons.prems(1) a]
  obtain z s2 where b: "q_Size q s1 = (z, s2)" by (cases "q_Size q s1")
  note z = size [OF _ b]
  obtain e3 s3 where c: "exec op s2 = (e3, s3)" by (cases "exec op s2")
  note x = exec [OF _ c] exec_steady [OF _ c]
  have "process_ops d wait ops (n + 1) s3 = ((r, m), s')" using Cons.prems(2) assms(1,2) a b c w by simp
  from Cons.IH [OF _ this] show ?case using w z x by simp
qed simp

lemma drain_once_progress:
  assumes "dn_queue d = q" and "wbe_ExecuteWriteOperation (dn_table d) = exec" and "0 < drc_BatchSize (dn_config d)" and "ok s"
    and "drain_once d wait n s = ((r, m), s')"
  shows "\<not> r \<and> ok s' \<and> (\<exists>xs. pending s = xs @ pending s' \<and> journal s' = journal s @ concat (map effect xs) \<and>
    m = n + int (length xs) \<and> (pending s = [] \<or> xs \<noteq> []))"
proof -
  obtain z s1 where a: "q_Size q s = (z, s1)" by (cases "q_Size q s")
  note z = size [OF assms(4) a] size_zero [OF assms(4) a]
  show ?thesis
  proof (cases "z = 0")
    case True
    then show ?thesis using assms(1,5) a z by (auto simp: drain_once_def)
  next
    case False
    obtain xs e s2 where b: "q_Dequeue q (drc_BatchSize (dn_config d)) s1 = ((xs, e), s2)" by (metis surj_pair)
    have l: "e = None" "xs \<noteq> []" using dequeue_live [OF _ _ assms(3) b] z False by auto
    have p: "ok s2" "pending s1 = xs @ pending s2" "journal s2 = journal s1"
      using dequeue [OF _ b] lossless [OF _ b] dequeue_journal [OF _ b] z by auto
    have "process_ops d wait xs n s2 = ((r, m), s')" using assms(1,5) a b False l(1) by (simp add: drain_once_def)
    from process_ops_all [OF assms(1,2) p(1) this] show ?thesis using p z l(2) by auto
  qed
qed

text \<open>Nothing is lost, reordered or executed twice, and without a signal everything is executed in the end.\<close>

lemma drain_run_prefix:
  assumes "dn_queue d = q" and "wbe_ExecuteWriteOperation (dn_table d) = exec" and "0 < drc_BatchSize (dn_config d)"
    and "ok s" and "drain_run d wait signals n s = (m, s')"
  shows "ok s' \<and> (\<exists>xs. pending s = xs @ pending s' \<and> journal s' = journal s @ concat (map effect xs) \<and> m = n + int (length xs) \<and>
    (list_all Not signals \<longrightarrow> length (pending s) \<le> length signals \<longrightarrow> pending s' = []))"
  using assms(4,5)
proof (induction signals arbitrary: n s)
  case (Cons b signals)
  show ?case
  proof (cases b)
    case True
    then show ?thesis using Cons.prems by auto
  next
    case False
    obtain r k s1 where o: "drain_once d wait n s = ((r, k), s1)" by (metis surj_pair)
    obtain ys where ys: "\<not> r" "ok s1" "pending s = ys @ pending s1" "journal s1 = journal s @ concat (map effect ys)"
      "k = n + int (length ys)" "pending s = [] \<or> ys \<noteq> []"
      using drain_once_progress [OF assms(1-3) Cons.prems(1) o] by blast
    have "drain_run d wait signals k s1 = (m, s')" using Cons.prems(2) False o ys(1) by simp
    from Cons.IH [OF ys(2) this] obtain xs where xs: "ok s'" "pending s1 = xs @ pending s'"
      "journal s' = journal s1 @ concat (map effect xs)" "m = k + int (length xs)"
      "list_all Not signals \<longrightarrow> length (pending s1) \<le> length signals \<longrightarrow> pending s' = []" by blast
    have "length (pending s1) \<le> length signals" if "length (pending s) \<le> Suc (length signals)"
      using that ys(3,6) by (cases ys) auto
    then show ?thesis using xs ys by (intro conjI exI [of _ "ys @ xs"]) auto
  qed
qed auto

end

text \<open>The executor a table is, and its drainer.\<close>

definition table_executor :: "'w TableImpl \<Rightarrow> 'w tstate WriteBackExecutor" where
  "table_executor t = \<lparr>wbe_ExecuteWriteOperation = ExecuteWriteOperation t,
     wbe_GetWriteBackQueue = q_via env with_env (GetWriteBackQueue t)\<rparr>"

definition statement_of :: "'w TableImpl \<Rightarrow> write_op \<Rightarrow> (string \<times> goval list) list" where
  "statement_of t op = (case write_statement t (op_Operation op) (op_Key op) (op_Data op) of Inl _ \<Rightarrow> [] | Inr st \<Rightarrow> [st])"

definition drain_ok :: "world tstate \<Rightarrow> bool" where
  "drain_ok s \<longleftrightarrow> world_ok (env s) \<and> \<not> w_down (env s) \<and> \<not> rq_closed (w_queue (env s))"

section \<open>The worker in the Redis world\<close>

lemma on_env_via: "on_env f s = via env with_env f s"
  by (simp add: on_env_def on_read_def on_world_def via_def env_def with_env_def Let_def split: prod.splits)

lemma world_dequeue_closed: "q_Dequeue world_queue n w = (r, w') \<Longrightarrow> rq_closed (w_queue w') = rq_closed (w_queue w)"
  by (auto simp: world_calls put_queue_def rq_Dequeue_def rq_dequeue_key_def Let_def split: if_splits option.splits prod.splits)

lemma world_enqueue_closed: "q_Enqueue world_queue x w = (e, w') \<Longrightarrow> rq_closed (w_queue w') = rq_closed (w_queue w)"
  using ref_Enqueue_frame by (auto simp: world_calls put_queue_def)

lemma decoded_Nil:
  assumes "list_all (\<lambda>d. \<not> is_err (unmarshal_write_op d)) ds"
  shows "decoded ds = [] \<longleftrightarrow> ds = []"
  using rref.decoded_length [OF assms] by (metis length_0_conv)

lemma world_size_zero:
  assumes "world_ok w" and "\<not> rq_closed (w_queue w)" and "q_Size world_queue w = (n, w')"
  shows "n = 0 \<longleftrightarrow> world_pending w = []"
proof -
  note calls = world_calls rq_Size_def rq_length_def world_global queue_on_redis_def NewRedisQueue_def redis_list_ops_def ListLength_def
    on_server_def ref_client_def world_ok_def getGlobalQueueKey_def
  have dec: "world_pending w = [] \<longleftrightarrow> rref.glist (w_queue w) = []"
    using decoded_Nil assms(1) by (auto simp: world_pending_def rref.rq_pending_def world_ok_def rref.rq_ok_def)
  show ?thesis
  proof (cases "ref_list (rs_server (w_redis w)) ''wbq:global''")
    case (Inl err)
    then have "rref.glist (w_queue w) = []"
      by (auto simp: rref.glist_def world_global ref_list_def list_at_def ref_keys_def split: option.splits redis_val.splits)
    moreover have "n = 0" using assms Inl by (auto simp: calls)
    ultimately show ?thesis using dec by simp
  next
    case (Inr xs)
    have "rref.glist (w_queue w) = xs" using ref_list_at [OF Inr] by (simp add: rref.glist_def world_global)
    moreover have "n = int (length xs)" using assms Inr by (auto simp: calls)
    ultimately show ?thesis using dec by simp
  qed
qed

lemma world_dequeue_lossless:
  assumes "world_ok w" and "q_Dequeue world_queue n w = ((xs, e), w')"
  shows "world_pending w = xs @ world_pending w'"
  using rref_lossless.lossless assms by (auto simp: world_calls world_ok_def world_pending_def put_queue_def)

lemma world_dequeue_live:
  assumes "world_ok w" and "\<not> rq_closed (w_queue w)" and "world_pending w \<noteq> []" and "0 < n"
    and "q_Dequeue world_queue n w = ((xs, e), w')"
  shows "e = None \<and> xs \<noteq> []"
proof -
  let ?r = "w_redis w" and ?k = "''wbq:global''"
  have dec: "list_all (\<lambda>d. \<not> is_err (unmarshal_write_op d)) (rref.glist (w_queue w))" using assms(1) by (simp add: world_ok_def rref.rq_ok_def)
  obtain d ds where l: "rref.glist (w_queue w) = d # ds"
    using assms(3) by (cases "rref.glist (w_queue w)") (auto simp: world_pending_def rref.rq_pending_def)
  obtain op where op: "unmarshal_write_op d = Inr op" using dec l by (auto simp: not_err_iff)
  have lk: "list_at (ref_keys (rs_server ?r)) ?k = d # ds" using l by (simp add: rref.glist_def world_global)
  then have rl: "ref_list (rs_server ?r) ?k = Inr (d # ds)"
    by (auto simp: list_at_def ref_keys_def ref_list_def split: option.splits redis_val.splits if_splits)
  then have pop: "\<exists>r1. ListPop ref_client ?k ?r = (Inr (Some d), r1)"
    using assms(1) by (auto simp: ListPop_def on_server_def ref_client_def world_ok_def)
  obtain m where m: "nat (if n \<le> 0 then 100 else n) = Suc m" using assms(4) by (cases "nat n") auto
  obtain ys r' where p: "pop_loop (redis_list_ops ref_client) ?k (Suc m) [] ?r = (ys, r')" by (metis surj_pair)
  have "xs = ys \<and> e = None" using assms(2,5) p m
    by (auto simp: world_calls rq_Dequeue_def rq_dequeue_key_def queue_on_redis_def NewRedisQueue_def getGlobalQueueKey_def Let_def)
  moreover have "ys \<noteq> []"
  proof -
    obtain r1 where r1: "ListPop ref_client ?k ?r = (Inr (Some d), r1)" using pop by blast
    have "pop_loop (redis_list_ops ref_client) ?k m [op] r1 = (ys, r')" using p r1 op by (simp add: redis_list_ops_def)
    from rref.pop_loop_prefix [OF this] show ?thesis by auto
  qed
  ultimately show ?thesis by simp
qed

abbreviation "table_queue \<equiv> q_via env with_env world_queue"

lemma table_exec_effect:
  assumes "built_on world_kv world_queue world_db world_clock t" and "drain_ok s" and "ExecuteWriteOperation t op s = (e, s')"
  shows "drain_ok s' \<and> world_pending (env s') = world_pending (env s) \<and> w_log (env s') = w_log (env s) @ statement_of t op"
proof (cases "write_statement t (op_Operation op) (op_Key op) (op_Data op)")
  case (Inl err)
  then show ?thesis using assms(2,3) by (auto simp: ExecuteWriteOperation_def writeToDatabase_def statement_of_def)
next
  case (Inr st)
  have db: "tb_database t = world_db" using assms(1) by (simp add: built_on_def)
  obtain sql args where st: "st = (sql, args)" by (cases st)
  have ok: "world_ok (env s)" "\<not> w_down (env s)" using assms(2) by (auto simp: drain_ok_def)
  have x: "db_Exec world_db sql args (env s) =
      (Inr \<lparr>res_LastInsertId = Inr 0, res_RowsAffected = Inr 1\<rparr>, (env s)\<lparr>w_log := w_log (env s) @ [(sql, args)]\<rparr>)"
    using ok(2) by (simp add: world_db_def)
  have "s' = with_env ((env s)\<lparr>w_log := w_log (env s) @ [(sql, args)]\<rparr>) s"
    using assms(3) Inr st db x by (auto simp: ExecuteWriteOperation_def writeToDatabase_def on_env_via via_def)
  then show ?thesis using tw.exec [OF ok(1) x] assms(2) Inr st by (auto simp: drain_ok_def statement_of_def)
qed

text \<open>Every limiter that leaves the world alone makes an environment for the worker.\<close>

lemma table_drain_env:
  assumes "built_on world_kv world_queue world_db world_clock t" and "\<And>s. snd (wait s) = s"
  shows "drain_env table_queue (\<lambda>s. world_pending (env s)) drain_ok op_image rq_accepts (ExecuteWriteOperation t)
    wait (\<lambda>s. w_log (env s)) (statement_of t)"
proof (unfold_locales, goal_cases)
  case (1 s x e s')
  then obtain w' where w': "q_Enqueue world_queue (Some x) (env s) = (e, w')" "s' = with_env w' s"
    by (auto simp: q_via_def via_iff)
  show ?case using tw.enqueue [OF _ 1(2) w'(1)] world_same_db(5) [OF w'(1)] world_enqueue_closed [OF w'(1)] 1(1) w'(2)
    by (auto simp: drain_ok_def same_db_def)
next
  case (2 s n xs e s')
  then obtain w' where w': "q_Dequeue world_queue n (env s) = ((xs, e), w')" "s' = with_env w' s"
    by (auto simp: q_via_def via_iff)
  show ?case using tw.dequeue [OF _ w'(1)] world_same_db(6) [OF w'(1)] world_dequeue_closed [OF w'(1)] 2(1) w'(2)
    by (auto simp: drain_ok_def same_db_def)
next
  case (3 s op e s')
  then show ?case using table_exec_effect [OF assms(1)] by blast
next
  case (4 s e s')
  then show ?case using assms(2) [of s] by simp
next
  case (5 s n s')
  then obtain w' where w': "q_Size world_queue (env s) = (n, w')" "s' = with_env w' s" by (auto simp: q_via_def via_iff)
  show ?case using world_size [OF w'(1)] 5(1) w'(2) by (auto simp: with_env_def env_def)
next
  case (6 s n r s')
  then obtain w' where w': "q_Dequeue world_queue n (env s) = (r, w')" "s' = with_env w' s" by (auto simp: q_via_def via_iff)
  show ?case using world_same_db(6) [OF w'(1)] w'(2) by (simp add: same_db_def)
qed

lemma table_steady:
  assumes "built_on world_kv world_queue world_db world_clock t"
  shows "steady_drain_env table_queue (\<lambda>s. world_pending (env s)) drain_ok op_image rq_accepts (ExecuteWriteOperation t)
    (\<lambda>s. (None, s)) (\<lambda>s. w_log (env s)) (statement_of t)"
proof (rule steady_drain_env.intro)
  have d: "drain_env table_queue (\<lambda>s. world_pending (env s)) drain_ok op_image rq_accepts (ExecuteWriteOperation t)
      (\<lambda>s. (None, s)) (\<lambda>s. w_log (env s)) (statement_of t)"
    by (rule table_drain_env [OF assms]) simp
  show "drain_env table_queue (\<lambda>s. world_pending (env s)) drain_ok op_image rq_accepts (ExecuteWriteOperation t)
      (\<lambda>s. (None, s)) (\<lambda>s. w_log (env s)) (statement_of t)"
    by (rule d)
  have q: "queue_contract table_queue (\<lambda>s. world_pending (env s)) drain_ok op_image rq_accepts" using d by (simp add: drain_env_def)
  show "lossless_queue table_queue (\<lambda>s. world_pending (env s)) drain_ok op_image rq_accepts"
    by (intro lossless_queue.intro q lossless_queue_axioms.intro) (auto simp: q_via_def via_iff drain_ok_def dest: world_dequeue_lossless)
  show "steady_drain_env_axioms table_queue (\<lambda>s. world_pending (env s)) drain_ok (ExecuteWriteOperation t)
      (\<lambda>s. (None, s)) (\<lambda>s. w_log (env s)) (statement_of t)"
  proof (unfold_locales, goal_cases)
    case (1 s op e s')
    then show ?case using table_exec_effect [OF assms] by blast
  next
    case (2 s e s')
    then show ?case by simp
  next
    case (3 s n s')
    then show ?case using world_size_zero by (auto simp: q_via_def via_iff drain_ok_def)
  next
    case (4 s n xs e s')
    then obtain w' where w': "q_Dequeue world_queue n (env s) = ((xs, e), w')" by (auto simp: q_via_def via_iff)
    show ?case using world_dequeue_live [OF _ _ 4(2,3) w'] 4(1) by (simp add: drain_ok_def)
  qed
qed

interpretation td: steady_drain_env table_queue "\<lambda>s. world_pending (env s)" drain_ok op_image rq_accepts
  "ExecuteWriteOperation (ex_table ns)" "\<lambda>s. (None, s)" "\<lambda>s. w_log (env s)" "statement_of (ex_table ns)"
  by (rule table_steady [OF ex_table_built])

text \<open>The same table with a limiter whose context is done.\<close>

interpretation tc: drain_env table_queue "\<lambda>s. world_pending (env s)" drain_ok op_image rq_accepts
  "ExecuteWriteOperation (ex_table ns)" "\<lambda>s. (Some ContextCanceled, s)" "\<lambda>s. w_log (env s)" "statement_of (ex_table ns)"
  by (rule table_drain_env [OF ex_table_built]) simp

lemma NewDrainer_simps [simp]:
  "dn_queue (NewDrainer n q x c) = q" "dn_table (NewDrainer n q x c) = x" "0 < drc_BatchSize (dn_config (NewDrainer n q x c))"
  by (auto simp: NewDrainer_def DefaultDrainerConfig_def Let_def)

lemma table_executor_simps [simp]: "wbe_ExecuteWriteOperation (table_executor t) = ExecuteWriteOperation t"
  by (simp add: table_executor_def)

section \<open>Properties\<close>

text \<open>
  C2. What the worker executes. Whatever signals it sees, whatever the limiter answers and whichever
  calls of the queue or the executor fail: the operations taken off the queue are its first ones and
  the rest is still queued; those given to the executor are among the ones taken, in their order and
  each at most once, and are what the worker counts; and what the journal gains is the effect of some
  of these, again in their order and once. Operations that were taken and not executed are lost. In a
  steady environment (a limiter that lets every operation pass, a queue that delivers what it holds,
  an executor whose calls have their effect) all that was taken is executed, and when no signal stops
  the worker, as many iterations as there are operations leave nothing queued.
\<close>

theorem drainer_drains_in_order:
  assumes "drain_env q pending ok img accepts exec wait journal effect"
    and "wbe_ExecuteWriteOperation executor = exec" and "\<forall>r. limiter r 1 = wait" and "ok s"
    and "run limiter (NewDrainer tableName q executor config) signals s = (count, s')"
  shows "\<exists>taken tried dn. pending s = taken @ pending s' \<and> subseq tried taken \<and> subseq dn tried \<and>
    count = int (length tried) \<and> journal s' = journal s @ concat (map effect dn) \<and>
    (steady_drain_env q pending ok img accepts exec wait journal effect \<longrightarrow> tried = taken \<and> dn = taken \<and>
      (list_all Not signals \<longrightarrow> length (pending s) \<le> length signals \<longrightarrow> pending s' = []))"
proof -
  let ?d = "NewDrainer tableName q executor config"
  have r: "drain_run ?d wait signals 0 s = (count, s')" using assms(3,5) by (simp add: run_def)
  have d: "dn_queue ?d = q" "wbe_ExecuteWriteOperation (dn_table ?d) = exec" "0 < drc_BatchSize (dn_config ?d)" using assms(2) by simp_all
  show ?thesis
  proof (cases "steady_drain_env q pending ok img accepts exec wait journal effect")
    case True
    from steady_drain_env.drain_run_prefix [OF True d assms(4) r] show ?thesis by auto
  next
    case False
    from drain_env.drain_run_part [OF assms(1) d(1,2) assms(4) r] show ?thesis using False by auto
  qed
qed

lemma Create_drain_ok:
  assumes "built_on world_kv world_queue world_db world_clock t" and "ts_enabled s" and "Create t r s = (e, s')"
  shows "same_db (env s) (env s') \<and> rq_closed (w_queue (env s')) = rq_closed (w_queue (env s))"
proof -
  let ?P = "\<lambda>w. same_db (env s) w \<and> rq_closed (w_queue w) = rq_closed (w_queue (env s))"
  have b: "tb_now t = world_clock" "tb_kvStore t = world_kv" "tb_writeQueue t = world_queue" using assms(1) by (auto simp: built_on_def)
  show ?thesis
  proof (rule Create_inv [where P = ?P, OF assms(3,2)], goal_cases)
    case (2 w ts w')
    then show ?case using world_same_db(4) world_keeps_closed(2) same_db_trans unfolding b by blast
  next
    case (3 w k v ttl e w')
    then show ?case using world_same_db(1) world_keeps_closed(1) same_db_trans unfolding b by blast
  next
    case (4 w x e w')
    then show ?case using world_same_db(5) world_enqueue_closed same_db_trans unfolding b by blast
  next
    case (5 w n w')
    then show ?case using world_size [of w n w'] unfolding b by simp
  qed simp
qed

text \<open>A record created in the empty world, and the state the worker starts from.\<close>

lemma ex_created:
  obtains s1 op where "Create (ex_table []) (Some ex_record) ex_state = (None, s1)" "drain_ok s1" "world_pending (env s1) = [op_image op]"
    "op_Data op = Some ex_record"
proof -
  obtain val where v: "ToKV NewTranslator utc (Some ex_record) (Some ex_schema) = Inr (''users:7'', val)" by (rule ex_ToKV)
  obtain s1 where c: "Create (ex_table []) (Some ex_record) ex_state = (None, s1)"
    using tw.Create_live [OF _ _ ex_table_built, of ex_state "[]" ex_record "''users:7''" val] v ex_world_ok ex_record_key
      ex_record_queueable ex_key_free by auto
  obtain op where op: "world_ok (env s1)" "op_Data op = Some ex_record" "world_pending (env s1) = world_pending ex_world @ [op_image op]"
    using tw.Create_effect [OF _ ex_table_built _ _ ex_key_free(1,2) _ c] v ex_world_ok ex_record_key ex_record_queueable by auto
  have "world_pending ex_world = []"
    by (simp add: world_pending_def rref.rq_pending_def rref.glist_def list_at_def ref_keys_def ref_lookup_def ex_world_def)
  moreover have "drain_ok s1" using Create_drain_ok [OF ex_table_built _ c] op(1) by (simp add: drain_ok_def same_db_def ex_world_def)
  ultimately show ?thesis using that c op by simp
qed

theorem drainer_drains_in_order_witness:
  "\<exists>s1 s2. Create (ex_table []) (Some ex_record) ex_state = (None, s1) \<and>
     run (\<lambda>_ _ s. (None, s)) (NewDrainer ''users'' table_queue (table_executor (ex_table [])) DefaultDrainerConfig) [False] s1 = (1, s2) \<and>
     world_pending (env s2) = []"
proof -
  let ?d = "NewDrainer ''users'' table_queue (table_executor (ex_table [])) DefaultDrainerConfig"
  obtain s1 op where s1: "Create (ex_table []) (Some ex_record) ex_state = (None, s1)" "drain_ok s1" "world_pending (env s1) = [op_image op]"
    by (rule ex_created)
  obtain n s2 where r: "run (\<lambda>_ _ s. (None, s)) ?d [False] s1 = (n, s2)" by (metis surj_pair)
  have "\<exists>taken tried dn. world_pending (env s1) = taken @ world_pending (env s2) \<and> subseq tried taken \<and> subseq dn tried \<and>
      n = int (length tried) \<and> w_log (env s2) = w_log (env s1) @ concat (map (statement_of (ex_table [])) dn) \<and>
      (steady_drain_env table_queue (\<lambda>s. world_pending (env s)) drain_ok op_image rq_accepts (ExecuteWriteOperation (ex_table []))
        (\<lambda>s. (None, s)) (\<lambda>s. w_log (env s)) (statement_of (ex_table [])) \<longrightarrow> tried = taken \<and> dn = taken \<and>
        (list_all Not [False] \<longrightarrow> length (world_pending (env s1)) \<le> length [False] \<longrightarrow> world_pending (env s2) = []))"
    by (rule drainer_drains_in_order [OF td.drain_env_axioms _ _ s1(2) r]) simp_all
  moreover have "length (world_pending (env s1)) = 1" using s1(3) by simp
  ultimately obtain taken where "world_pending (env s1) = taken @ world_pending (env s2)" "n = int (length taken)" "world_pending (env s2) = []"
    using td.steady_drain_env_axioms by auto
  then have "n = 1 \<and> world_pending (env s2) = []" using s1(3) by auto
  then show ?thesis using s1(1) r by blast
qed

text \<open>A batch that is taken: the operations leave the queue before any of them is executed.\<close>

lemma drain_once_takes:
  assumes "world_ok (env s)" and "\<not> rq_closed (w_queue (env s))" and "world_pending (env s) \<noteq> []"
  obtains xs w2 where "xs \<noteq> []" "world_pending (env s) = xs @ world_pending w2" "same_db (env s) w2"
    "drain_once (NewDrainer tableName table_queue executor config) wait n s =
       process_ops (NewDrainer tableName table_queue executor config) wait xs n (with_env w2 s)"
proof -
  let ?d = "NewDrainer tableName table_queue executor config"
  have sz: "q_Size table_queue s = (fst (q_Size world_queue (env s)), s)"
    using world_size [of "env s"] by (cases "q_Size world_queue (env s)") (auto simp: q_via_def via_def with_env_def env_def)
  have nz: "fst (q_Size world_queue (env s)) \<noteq> 0" using world_size_zero [OF assms(1,2)] assms(3) by (metis prod.collapse)
  obtain xs e w2 where dq: "q_Dequeue world_queue (drc_BatchSize (dn_config ?d)) (env s) = ((xs, e), w2)" by (metis surj_pair)
  have l: "e = None" "xs \<noteq> []" using world_dequeue_live [OF assms(1-3) _ dq] by simp_all
  have "q_Dequeue table_queue (drc_BatchSize (dn_config ?d)) s = ((xs, None), with_env w2 s)"
    using dq l(1) by (simp add: q_via_def via_def)
  then have "drain_once ?d wait n s = process_ops ?d wait xs n (with_env w2 s)" using nz sz by (simp add: drain_once_def)
  then show ?thesis using that l(2) world_dequeue_lossless [OF assms(1) dq] world_same_db(6) [OF dq] by blast
qed

text \<open>
  A context that ends while the worker waits for the limiter costs it the batch: the operations are
  off the queue, none is executed, and the worker returns.
\<close>

theorem cancelled_wait_loses_batch:
  assumes "world_ok (env s)" and "\<not> rq_closed (w_queue (env s))" and "world_pending (env s) \<noteq> []"
    and "drain_once (NewDrainer tableName table_queue executor config) (\<lambda>s. (Some ContextCanceled, s)) n s = ((stopped, m), s')"
  shows "stopped \<and> m = n \<and> length (world_pending (env s')) < length (world_pending (env s)) \<and> w_log (env s') = w_log (env s)"
proof -
  obtain xs w2 where xs: "xs \<noteq> []" "world_pending (env s) = xs @ world_pending w2" "same_db (env s) w2"
    "drain_once (NewDrainer tableName table_queue executor config) (\<lambda>s. (Some ContextCanceled, s)) n s =
       process_ops (NewDrainer tableName table_queue executor config) (\<lambda>s. (Some ContextCanceled, s)) xs n (with_env w2 s)"
    by (rule drain_once_takes [OF assms(1-3)])
  then show ?thesis using assms(4) by (cases xs) (auto simp: same_db_def)
qed

text \<open>
  C25. A write that fails is lost. While the database is down, the worker takes operations off the queue,
  fails to execute them and goes on: they are neither executed nor put back, whatever the configured
  number of retries; the worker behaves the same for every value of \<^verbatim>\<open>MaxRetries\<close> and \<^verbatim>\<open>RetryBackoff\<close>.
\<close>

theorem failed_write_is_lost:
  assumes "built_on world_kv world_queue world_db world_clock t" and "world_ok (env s)" and "\<not> rq_closed (w_queue (env s))"
    and "w_down (env s)" and "world_pending (env s) \<noteq> []"
    and "drain_once (NewDrainer tableName table_queue (table_executor t) config) (\<lambda>s. (None, s)) n s = (r, s')"
  shows "length (world_pending (env s')) < length (world_pending (env s)) \<and> w_log (env s') = w_log (env s) \<and>
    drain_once (NewDrainer tableName table_queue (table_executor t) (config\<lparr>drc_MaxRetries := m, drc_RetryBackoff := b\<rparr>)) (\<lambda>s. (None, s)) n s = (r, s')"
proof -
  let ?d = "NewDrainer tableName table_queue (table_executor t) config"
  let ?d' = "NewDrainer tableName table_queue (table_executor t) (config\<lparr>drc_MaxRetries := m, drc_RetryBackoff := b\<rparr>)"
  have same: "process_ops ?d' w ops k x = process_ops ?d w ops k x" for w ops k x
    by (induction ops arbitrary: k x) (auto split: prod.splits option.splits)
  have "drc_BatchSize (dn_config ?d') = drc_BatchSize (dn_config ?d)" by (simp add: NewDrainer_def Let_def)
  then have eq: "drain_once ?d' (\<lambda>s. (None, s)) n s = drain_once ?d (\<lambda>s. (None, s)) n s"
    by (simp only: drain_once_def same NewDrainer_simps)
  have db: "tb_database t = world_db" using assms(1) by (simp add: built_on_def)
  have ex: "\<exists>e. ExecuteWriteOperation t op x = (e, x)" if "w_down (env x)" for op x
    using that db by (auto simp: ExecuteWriteOperation_def writeToDatabase_def on_env_via via_def world_db_def with_env_def env_def
        split: sum.split)
  have sz: "q_Size table_queue x = (fst (q_Size world_queue (env x)), x)" for x
    using world_size [of "env x"] by (cases "q_Size world_queue (env x)") (auto simp: q_via_def via_def with_env_def env_def)
  have proc: "snd (process_ops ?d (\<lambda>s. (None, s)) ops k x) = x" if "w_down (env x)" for ops k x
    using that
  proof (induction ops arbitrary: k)
    case (Cons op ops)
    then show ?case using ex [of x op] sz [of x] by auto
  qed simp
  obtain xs w2 where xs: "xs \<noteq> []" "world_pending (env s) = xs @ world_pending w2" "same_db (env s) w2"
    "drain_once ?d (\<lambda>s. (None, s)) n s = process_ops ?d (\<lambda>s. (None, s)) xs n (with_env w2 s)"
    by (rule drain_once_takes [OF assms(2,3,5)])
  moreover have "snd (process_ops ?d (\<lambda>s. (None, s)) xs n (with_env w2 s)) = with_env w2 s"
    using xs(3) assms(4) by (intro proc) (simp add: same_db_def)
  ultimately have "s' = with_env w2 s" using assms(6) by (metis snd_conv)
  then show ?thesis using xs assms(6) eq by (simp add: same_db_def)
qed

theorem failed_write_is_lost_witness:
  "\<exists>s1 r s'. world_pending (env s1) \<noteq> [] \<and> w_down (env s1) \<and>
     drain_once (NewDrainer ''users'' table_queue (table_executor (ex_table [])) DefaultDrainerConfig) (\<lambda>s. (None, s)) 0 s1 = (r, s') \<and>
     world_pending (env s') = [] \<and> w_log (env s') = []"
proof -
  let ?d = "NewDrainer ''users'' table_queue (table_executor (ex_table [])) DefaultDrainerConfig"
  obtain s0 op where s0: "Create (ex_table []) (Some ex_record) ex_state = (None, s0)" "drain_ok s0" "world_pending (env s0) = [op_image op]"
    by (rule ex_created)
  let ?s1 = "with_env ((env s0)\<lparr>w_down := True\<rparr>) s0"
  have p: "world_pending (env ?s1) = [op_image op]" using s0(3) by (simp add: world_pending_def)
  have ok: "world_ok (env ?s1)" "\<not> rq_closed (w_queue (env ?s1))" "w_down (env ?s1)" "world_pending (env ?s1) \<noteq> []"
    using s0(2) p by (auto simp: drain_ok_def world_ok_def)
  have lg: "w_log (env ?s1) = []" using Create_drain_ok [OF ex_table_built _ s0(1)] by (simp add: same_db_def ex_world_def)
  obtain r s' where d: "drain_once ?d (\<lambda>s. (None, s)) 0 ?s1 = (r, s')" by (metis surj_pair)
  have "length (world_pending (env s')) < length (world_pending (env ?s1)) \<and> w_log (env s') = w_log (env ?s1)"
    using failed_write_is_lost [OF ex_table_built ok d] by blast
  then show ?thesis using p d lg ok by (intro exI [of _ ?s1] exI [of _ r] exI [of _ s']) auto
qed

section \<open>Starting and stopping\<close>

text \<open>What holds when the calls of \<^verbatim>\<open>Start\<close> and \<^verbatim>\<open>Stop\<close> do not overlap.\<close>

definition life_inv :: "drainer_life \<Rightarrow> bool" where
  "life_inv s \<longleftrightarrow> \<not> dl_panicked s \<and> dl_stopCh s < dl_next s \<and> dl_doneCh s < dl_next s \<and> dl_stopCh s \<noteq> dl_doneCh s \<and>
     (\<forall>c \<in> set (dl_closed s). c < dl_next s) \<and>
     (dl_stops s = [] \<and> (if dl_running s then dl_stopCh s \<notin> set (dl_closed s) else dl_workers s = []) \<or>
      dl_stops s = [Marked] \<and> \<not> dl_running s \<and> dl_stopCh s \<notin> set (dl_closed s) \<or>
      dl_stops s = [Waiting (dl_doneCh s)] \<and> \<not> dl_running s) \<and>
     (dl_workers s = [] \<or> (\<exists>ctx. dl_workers s = [(ctx, Spawned)] \<or> dl_workers s = [(ctx, Polling (dl_doneCh s))] \<or>
        dl_workers s = [(ctx, Working (dl_doneCh s))]) \<and> dl_doneCh s \<notin> set (dl_closed s))"

lemma singleton_split: "xs @ y # ys = [z] \<longleftrightarrow> xs = [] \<and> ys = [] \<and> y = z" "[z] = xs @ y # ys \<longleftrightarrow> xs = [] \<and> ys = [] \<and> y = z"
  by (auto simp: append_eq_Cons_conv Cons_eq_append_conv)

lemma life_inv_step: "life_step True s s' \<Longrightarrow> life_inv s \<Longrightarrow> life_inv s'"
proof (induction rule: life_step.induct)
  case (start s)
  then show ?case by (auto simp: life_inv_def life_Start_def less_Suc_eq split: if_splits)
next
  case (stop_mark s)
  then show ?case by (auto simp: life_inv_def life_Stop_def)
qed (auto simp: life_inv_def close_chan_def singleton_split split: if_splits)

lemma life_inv_init: "life_inv life_init"
  by (simp add: life_inv_def life_init_def)

lemma life_inv_reachable: "(life_step True)\<^sup>*\<^sup>* life_init s \<Longrightarrow> life_inv s"
  by (induction rule: rtranclp_induct) (auto intro: life_inv_init life_inv_step)

text \<open>
  C10. One worker at a time. As long as calls of \<^verbatim>\<open>Start\<close> and \<^verbatim>\<open>Stop\<close> do not overlap, in every reachable
  state no channel has been closed twice, at most one worker exists, and once \<^verbatim>\<open>Stop\<close> has returned no
  worker is left; restarts and cancelled contexts included.
\<close>

theorem drainer_single_worker:
  assumes "(life_step True)\<^sup>*\<^sup>* life_init s"
  shows "\<not> dl_panicked s \<and> length (dl_workers s) \<le> 1 \<and> (dl_stops s = [] \<and> \<not> dl_running s \<longrightarrow> dl_workers s = [])"
  using life_inv_reachable [OF assms] by (auto simp: life_inv_def)

theorem drainer_single_worker_witness:
  "length (dl_workers (life_Start 0 life_init)) \<le> 1 \<and> \<not> dl_panicked (life_Start 0 life_init)"
proof -
  have "(life_step True)\<^sup>*\<^sup>* life_init (life_Start 0 life_init)"
    by (intro r_into_rtranclp life_step.start) (simp add: life_init_def)
  from drainer_single_worker [OF this] show ?thesis by simp
qed

text \<open>
  C37. Overlapping calls break the hand-over. \<^verbatim>\<open>Stop\<close> closes the stop channel after it has released the
  mutex, so a \<^verbatim>\<open>Start\<close> in between makes it close the channel of the new worker: both workers end while
  the drainer counts as running, and the next \<^verbatim>\<open>Stop\<close> closes a closed channel, which panics.
\<close>

theorem start_during_stop_panics:
  "\<exists>s. (life_step False)\<^sup>*\<^sup>* life_init s \<and> dl_panicked s"
proof -
  let ?R = "(life_step False)\<^sup>*\<^sup>* life_init"
  note ext = rtranclp.rtrancl_into_rtrancl
  define mk where "mk r c d n cl ws st = \<lparr>dl_running = r, dl_stopCh = c, dl_doneCh = d, dl_next = n, dl_closed = cl,
    dl_workers = map (Pair 0) ws, dl_stops = st, dl_cancelled = [], dl_panicked = False\<rparr>" for r c d n cl ws st
  have "?R (mk False 0 1 2 [] [] [])" by (simp add: mk_def life_init_def)
  from ext [OF this life_step.start [of _ _ 0]] have "?R (mk True 2 3 4 [] [Spawned] [])" by (simp add: mk_def life_Start_def)
  from ext [OF this life_step.worker_begin [of _ "[]" 0 "[]"]] have "?R (mk True 2 3 4 [] [Polling 3] [])" by (simp add: mk_def)
  from ext [OF this life_step.stop_mark] have "?R (mk False 2 3 4 [] [Polling 3] [Marked])" by (simp add: mk_def life_Stop_def)
  from ext [OF this life_step.start [of _ _ 0]] have "?R (mk True 4 5 6 [] [Polling 3, Spawned] [Marked])" by (simp add: mk_def life_Start_def)
  from ext [OF this life_step.stop_close [of _ "[]" "[]"]] have "?R (mk True 4 5 6 [4] [Polling 3, Spawned] [Waiting 5])"
    by (simp add: mk_def close_chan_def)
  from ext [OF this life_step.worker_exit [of _ "[]" 0 3 "[(0, Spawned)]"]] have "?R (mk True 4 5 6 [3, 4] [Spawned] [Waiting 5])"
    by (simp add: mk_def close_chan_def)
  from ext [OF this life_step.worker_begin [of _ "[]" 0 "[]"]] have "?R (mk True 4 5 6 [3, 4] [Polling 5] [Waiting 5])" by (simp add: mk_def)
  from ext [OF this life_step.worker_exit [of _ "[]" 0 5 "[]"]] have "?R (mk True 4 5 6 [5, 3, 4] [] [Waiting 5])"
    by (simp add: mk_def close_chan_def)
  from ext [OF this life_step.stop_done [of _ "[]" 5 "[]"]] have "?R (mk True 4 5 6 [5, 3, 4] [] [])" by (simp add: mk_def)
  from ext [OF this life_step.stop_mark] have "?R (mk False 4 5 6 [5, 3, 4] [] [Marked])" by (simp add: mk_def life_Stop_def)
  from ext [OF this life_step.stop_close [of _ "[]" "[]"]]
  have "?R ((mk False 4 5 6 [5, 3, 4] [] [Waiting 5])\<lparr>dl_panicked := True\<rparr>)" by (simp add: mk_def close_chan_def)
  then show ?thesis by (rule exI [of _ "(mk False 4 5 6 [5, 3, 4] [] [Waiting 5])\<lparr>dl_panicked := True\<rparr>", OF conjI]) (simp add: mk_def)
qed

text \<open>
  A cancelled worker is not restarted. When the context of a worker is done it ends without clearing
  the flag, so the drainer still counts as running and \<^verbatim>\<open>Start\<close> does nothing.
\<close>

theorem cancelled_drainer_stays_down:
  "\<exists>s. (life_step True)\<^sup>*\<^sup>* life_init s \<and> dl_running s \<and> dl_workers s = [] \<and> (\<forall>ctx. life_Start ctx s = s)"
proof -
  let ?R = "(life_step True)\<^sup>*\<^sup>* life_init"
  note ext = rtranclp.rtrancl_into_rtrancl
  define mk where "mk cl ws cn = \<lparr>dl_running = True, dl_stopCh = 2, dl_doneCh = 3, dl_next = 4, dl_closed = cl,
    dl_workers = ws, dl_stops = [], dl_cancelled = cn, dl_panicked = False\<rparr>" for cl ws cn
  have "?R life_init" by simp
  from ext [OF this life_step.start [of _ _ 0]] have "?R (mk [] [(0, Spawned)] [])" by (simp add: mk_def life_init_def life_Start_def)
  from ext [OF this life_step.worker_begin [of _ "[]" 0 "[]"]] have "?R (mk [] [(0, Polling 3)] [])" by (simp add: mk_def)
  from ext [OF this life_step.cancel [of _ _ 0]] have "?R (mk [] [(0, Polling 3)] [0])" by (simp add: mk_def)
  from ext [OF this life_step.worker_cancel [of _ "[]" 0 3 "[]"]] have "?R (mk [3] [] [0])" by (simp add: mk_def close_chan_def)
  then show ?thesis by (intro exI [of _ "mk [3] [] [0]"]) (simp add: mk_def life_Start_def)
qed

text \<open>
  The hand-over of a call of \<^verbatim>\<open>Stop\<close>: it has closed the stop channel by the time it waits, and a worker
  that is gone has closed its done channel.
\<close>

definition handover_inv :: "drainer_life \<Rightarrow> bool" where
  "handover_inv s \<longleftrightarrow> (\<forall>ch. Waiting ch \<in> set (dl_stops s) \<longrightarrow> dl_stopCh s \<in> set (dl_closed s)) \<and>
     (dl_running s \<or> dl_stops s \<noteq> [] \<longrightarrow> dl_workers s = [] \<longrightarrow> dl_doneCh s \<in> set (dl_closed s))"

lemma handover_step: "life_step True s s' \<Longrightarrow> life_inv s \<Longrightarrow> handover_inv s \<Longrightarrow> handover_inv s'"
proof (induction rule: life_step.induct)
  case (start s)
  then show ?case by (auto simp: life_inv_def handover_inv_def life_Start_def split: if_splits)
next
  case (stop_mark s)
  then show ?case by (auto simp: handover_inv_def life_Stop_def split: if_splits)
qed (auto simp: life_inv_def handover_inv_def close_chan_def singleton_split split: if_splits)

lemma handover_reachable: "(life_step True)\<^sup>*\<^sup>* life_init s \<Longrightarrow> life_inv s \<and> handover_inv s"
proof (induction rule: rtranclp_induct)
  case base
  show ?case by (simp add: life_inv_init) (simp add: handover_inv_def life_init_def)
qed (auto intro: life_inv_step handover_step)

text \<open>
  The steps of the program while a call of \<^verbatim>\<open>Stop\<close> is under way; the environment ends no context. What is
  left to do before the call has returned and the worker has ended, once the stop channel is closed.
\<close>

abbreviation stopping :: "drainer_life \<Rightarrow> drainer_life \<Rightarrow> bool" where
  "stopping s s' \<equiv> dl_stops s \<noteq> [] \<and> life_step True s s' \<and> dl_cancelled s' = dl_cancelled s"

definition stop_work :: "drainer_life \<Rightarrow> nat" where
  "stop_work s = length (dl_stops s) + sum_list (map (\<lambda>(_, w). case w of Polling _ \<Rightarrow> 1 | _ \<Rightarrow> 2) (dl_workers s))"

lemma close_chan_simps [simp]:
  "stop_work (close_chan ch s) = stop_work s" "dl_running (close_chan ch s) = dl_running s" "dl_stops (close_chan ch s) = dl_stops s"
  "dl_cancelled (close_chan ch s) = dl_cancelled s" "dl_workers (close_chan ch s) = dl_workers s" "dl_stopCh (close_chan ch s) = dl_stopCh s"
  "dl_doneCh (close_chan ch s) = dl_doneCh s"
  by (simp_all add: stop_work_def close_chan_def)

abbreviation waits :: "drainer_life \<Rightarrow> bool" where
  "waits s \<equiv> dl_stops s = [Waiting (dl_doneCh s)]"

lemma waiting_decreases:
  assumes "stopping s s'" and "waits s" and "dl_stopCh s \<in> set (dl_closed s)"
  shows "stop_work s' < stop_work s \<and> dl_running s' = dl_running s \<and> (dl_stops s' = [] \<or> waits s')"
  using assms by (auto elim!: life_step.cases) (auto simp: stop_work_def singleton_split)

lemma waiting_bound:
  assumes "life_inv s" and "handover_inv s" and "waits s" and "(stopping ^^ n) s s'"
  shows "n + stop_work s' \<le> stop_work s \<and> life_inv s' \<and> handover_inv s' \<and> \<not> dl_running s' \<and> (dl_stops s' = [] \<or> waits s')"
  using assms(4)
proof (induction n arbitrary: s')
  case 0
  then show ?case using assms by (auto simp: life_inv_def)
next
  case (Suc n)
  then obtain t where t: "(stopping ^^ n) s t" "stopping t s'" by (auto elim: relpowp_Suc_E)
  have i: "n + stop_work t \<le> stop_work s" "life_inv t" "handover_inv t" "\<not> dl_running t" "waits t" using Suc.IH [OF t(1)] t(2) by auto
  have c: "dl_stopCh t \<in> set (dl_closed t)" using i(3,5) by (auto simp: handover_inv_def)
  have "life_inv s'" "handover_inv s'" using life_inv_step handover_step t(2) i(2,3) by blast+
  then show ?case using waiting_decreases [OF t(2) i(5) c] i(1,4) by auto
qed

lemma waiting_progress:
  assumes "life_inv s" and "handover_inv s" and "waits s"
  shows "\<exists>s'. stopping s s'"
proof -
  have c: "dl_stopCh s \<in> set (dl_closed s)" using assms(2,3) by (auto simp: handover_inv_def)
  consider "dl_workers s = []" | ctx where "dl_workers s = [(ctx, Spawned)]" | ctx where "dl_workers s = [(ctx, Polling (dl_doneCh s))]"
    | ctx where "dl_workers s = [(ctx, Working (dl_doneCh s))]"
    using assms(1) by (auto simp: life_inv_def)
  then show ?thesis
  proof cases
    case 1
    then have "dl_doneCh s \<in> set (dl_closed s)" using assms(2,3) by (auto simp: handover_inv_def)
    then show ?thesis using assms(3) life_step.stop_done [of s "[]" "dl_doneCh s" "[]" True] by fastforce
  next
    case 2
    then show ?thesis using assms(3) life_step.worker_begin [of s "[]" ctx "[]" True] by fastforce
  next
    case 3
    then show ?thesis using assms(3) c life_step.worker_exit [of s "[]" ctx "dl_doneCh s" "[]" True] by fastforce
  next
    case 4
    then show ?thesis using assms(3) life_step.worker_done [of s "[]" ctx "dl_doneCh s" "[]" True] by fastforce
  qed
qed

text \<open>A waiting call returns within the steps that are left.\<close>

lemma waiting_returns:
  assumes "life_inv s" and "handover_inv s" and "waits s"
  shows "\<exists>n s'. n \<le> stop_work s \<and> (stopping ^^ n) s s' \<and> dl_stops s' = []"
proof -
  have "\<exists>n s'. (stopping ^^ n) s s' \<and> (dl_stops s' = [] \<or> k \<le> n)" for k
  proof (induction k)
    case (Suc k)
    then obtain n t where t: "(stopping ^^ n) s t" "dl_stops t = [] \<or> k \<le> n" by blast
    show ?case
    proof (cases "dl_stops t = []")
      case False
      then obtain u where "stopping t u" using waiting_bound [OF assms t(1)] waiting_progress [of t] by blast
      then have "(stopping ^^ Suc n) s u" using t(1) by (rule relpowp_Suc_I [rotated])
      then show ?thesis using t(2) False by (meson Suc_le_mono)
    qed (use t in blast)
  qed (auto intro: exI [of _ 0])
  then obtain n s' where n: "(stopping ^^ n) s s'" "dl_stops s' = [] \<or> Suc (stop_work s) \<le> n" by blast
  then show ?thesis using waiting_bound [OF assms n(1)] by (intro exI [of _ n] exI [of _ s']) auto
qed

lemma marked_closes:
  assumes "life_inv s" and "handover_inv s" and "dl_stops s = [Marked]"
  shows "\<exists>s'. stopping s s' \<and> life_inv s' \<and> handover_inv s' \<and> waits s' \<and> stop_work s' = stop_work s"
proof -
  let ?s' = "close_chan (dl_stopCh s) (s\<lparr>dl_stops := [Waiting (dl_doneCh s)]\<rparr>)"
  have l: "life_step True s ?s'" using life_step.stop_close [of s "[]" "[]" True] assms(3) by simp
  have "stop_work ?s' = stop_work s" using assms(3) by (simp add: stop_work_def)
  then show ?thesis using l life_inv_step [OF l assms(1)] handover_step [OF l assms(1,2)] assms(3) by (intro exI [of _ ?s']) simp
qed

text \<open>
  C16. A call of \<^verbatim>\<open>Stop\<close> returns. As long as calls of \<^verbatim>\<open>Start\<close> and \<^verbatim>\<open>Stop\<close> do not overlap, and without any
  context being ended: a call that has not yet closed the stop channel can close it next; once it
  waits, the schedule does not matter: no more than three steps of the program can follow, as long as
  the call is under way one is possible, and when it is over the drainer does not run and has no
  worker. So the call can always return, within four steps. (An iteration of the worker that is under
  way is one step: the calls it makes return.)
\<close>

theorem stop_terminates:
  assumes "(life_step True)\<^sup>*\<^sup>* life_init s" and "dl_stops s \<noteq> []"
  shows "(waits s \<or> dl_stops s = [Marked] \<and> (\<exists>s'. stopping s s' \<and> waits s')) \<and>
    (waits s \<longrightarrow> (\<forall>n t. (stopping ^^ n) s t \<longrightarrow> n \<le> 3 \<and>
      (if dl_stops t = [] then \<not> dl_running t \<and> dl_workers t = [] else \<exists>u. stopping t u))) \<and>
    (\<exists>n s'. n \<le> 4 \<and> (stopping ^^ n) s s' \<and> dl_stops s' = [] \<and> \<not> dl_running s' \<and> dl_workers s' = [])"
proof -
  have i: "life_inv s" "handover_inv s" using handover_reachable [OF assms(1)] by simp_all
  have w: "stop_work s \<le> 3" using i(1) by (auto simp: life_inv_def stop_work_def)
  have ended: "\<not> dl_running t \<and> dl_workers t = []" if "life_inv t" "\<not> dl_running t" "dl_stops t = []" for t
    using that by (auto simp: life_inv_def)
  consider (marked) "dl_stops s = [Marked]" | (waiting) "waits s" using i(1) assms(2) by (auto simp: life_inv_def)
  then show ?thesis
  proof cases
    case marked
    obtain s1 where s1: "stopping s s1" "life_inv s1" "handover_inv s1" "waits s1" "stop_work s1 = stop_work s"
      using marked_closes [OF i marked] by blast
    obtain n s' where n: "n \<le> stop_work s1" "(stopping ^^ n) s1 s'" "dl_stops s' = []" using waiting_returns [OF s1(2-4)] by blast
    have "(stopping ^^ Suc n) s s'" using s1(1) n(2) by (rule relpowp_Suc_I2)
    moreover have "Suc n \<le> 4" using n(1) s1(5) w by simp
    moreover have "\<not> dl_running s' \<and> dl_workers s' = []" using waiting_bound [OF s1(2-4) n(2)] ended n(3) by blast
    ultimately have "\<exists>n s'. n \<le> 4 \<and> (stopping ^^ n) s s' \<and> dl_stops s' = [] \<and> \<not> dl_running s' \<and> dl_workers s' = []"
      using n(3) by blast
    moreover have "\<not> waits s" using marked by simp
    ultimately show ?thesis using marked s1(1,4) by blast
  next
    case waiting
    obtain n s' where n: "n \<le> stop_work s" "(stopping ^^ n) s s'" "dl_stops s' = []" using waiting_returns [OF i waiting] by blast
    have "m \<le> 3 \<and> (if dl_stops t = [] then \<not> dl_running t \<and> dl_workers t = [] else \<exists>u. stopping t u)" if "(stopping ^^ m) s t" for m t
      using waiting_bound [OF i waiting that] waiting_progress [of t] ended [of t] w by auto
    moreover have "n \<le> 4" using n(1) w by simp
    ultimately show ?thesis using waiting n(2,3) by (metis (no_types, lifting))
  qed
qed

theorem stop_terminates_witness:
  "\<exists>s n s'. s = life_Stop (life_Start 0 life_init) \<and> dl_workers s \<noteq> [] \<and> dl_cancelled s = [] \<and> n \<le> 4 \<and>
     (stopping ^^ n) s s' \<and> dl_stops s' = [] \<and> \<not> dl_running s' \<and> dl_workers s' = []"
proof -
  let ?s = "life_Stop (life_Start 0 life_init)"
  have "life_step True life_init (life_Start 0 life_init)" by (rule life_step.start) (simp add: life_init_def)
  moreover have "life_step True (life_Start 0 life_init) ?s" by (rule life_step.stop_mark) (simp add: life_init_def life_Start_def)
  ultimately have "(life_step True)\<^sup>*\<^sup>* life_init ?s" by (meson r_into_rtranclp rtranclp_trans)
  moreover have s: "dl_stops ?s \<noteq> []" "dl_workers ?s \<noteq> []" "dl_cancelled ?s = []"
    by (simp_all add: life_init_def life_Start_def life_Stop_def)
  ultimately show ?thesis using stop_terminates [of ?s] by blast
qed

end
