(* ===== verification/Public_Client.thy ===== *)
theory Public_Client
  imports Internal_Client Public_Config Drainer
begin

text \<open>
  \<^verbatim>\<open>pkg/shockabsorber/client.go\<close> and \<^verbatim>\<open>table.go\<close>: the client that an application sees. It wraps the internal
  client, remembers the tables it has handed out, and gives each a drainer. A table of the public
  package wraps a table of the internal one and is represented by it. Every operation holds the mutex of
  the wrapper. Drainers are objects: one that \<^verbatim>\<open>EnableKV\<close> replaces in the manager's map is not stopped and
  keeps existing, in \<open>cw_replaced\<close>. \<open>yaml_Marshal\<close> is the encoder of the YAML package.
\<close>

section \<open>Tables\<close>

type_synonym 's tableWrapper = "'s core_table"

definition tw_Create :: "'s tableWrapper \<Rightarrow> grecord option \<Rightarrow> 's \<Rightarrow> gerror option \<times> 's" where
  "tw_Create tw record = ct_Create tw record"

definition tw_Read :: "'s tableWrapper \<Rightarrow> goval \<Rightarrow> 's \<Rightarrow> grecord res \<times> 's" where
  "tw_Read tw key = ct_Read tw key"

definition tw_Update :: "'s tableWrapper \<Rightarrow> goval \<Rightarrow> grecord option \<Rightarrow> 's \<Rightarrow> gerror option \<times> 's" where
  "tw_Update tw key updates = ct_Update tw key updates"

definition tw_Delete :: "'s tableWrapper \<Rightarrow> goval \<Rightarrow> 's \<Rightarrow> gerror option \<times> 's" where
  "tw_Delete tw key = ct_Delete tw key"

definition tw_EnableKV :: "'s tableWrapper \<Rightarrow> 's \<Rightarrow> gerror option \<times> 's" where
  "tw_EnableKV tw = ct_EnableKV tw"

definition tw_DisableKV :: "'s tableWrapper \<Rightarrow> 's \<Rightarrow> gerror option \<times> 's" where
  "tw_DisableKV tw = ct_DisableKV tw"

definition tw_FindByField :: "'s tableWrapper \<Rightarrow> string \<Rightarrow> goval \<Rightarrow> 's \<Rightarrow> grecord res \<times> 's" where
  "tw_FindByField tw fieldName fieldValue = ct_FindByField tw fieldName fieldValue"

definition tableExecutor :: "'s core_table \<Rightarrow> 's WriteBackExecutor" where
  "tableExecutor table = \<lparr>wbe_ExecuteWriteOperation = ct_ExecuteWriteOperation table, wbe_GetWriteBackQueue = ct_GetWriteBackQueue table\<rparr>"

section \<open>Options\<close>

type_synonym TableOption = "TableConfig \<Rightarrow> TableConfig"

definition WithTTL :: "int \<Rightarrow> TableOption" where
  "WithTTL ttl config = config\<lparr>itc_TTL := ttl\<rparr>"

definition WithNamespace :: "string \<Rightarrow> TableOption" where
  "WithNamespace namespace config = config\<lparr>itc_Namespace := namespace\<rparr>"

definition WithWriteBackBatchSize :: "int \<Rightarrow> TableOption" where
  "WithWriteBackBatchSize batchSize config = config\<lparr>itc_WriteBackBatchSize := batchSize\<rparr>"

definition WithDrainRate :: "int \<Rightarrow> TableOption" where
  "WithDrainRate drainRate config = config\<lparr>itc_DrainRate := drainRate\<rparr>"

text \<open>The configuration of a table: its entry, or zeros; the defaults for what is zero; the options in their order.\<close>

definition with_defaults :: "WriteBackConfig \<Rightarrow> TableConfig \<Rightarrow> TableConfig" where
  "with_defaults wb c0 =
     (let c1 = (if itc_TTL c0 = 0 then c0\<lparr>itc_TTL := iwb_DefaultTTL wb\<rparr> else c0);
          c2 = (if itc_WriteBackBatchSize c1 = 0 then c1\<lparr>itc_WriteBackBatchSize := iwb_BatchSize wb\<rparr> else c1)
      in if itc_DrainRate c2 = 0 then c2\<lparr>itc_DrainRate := iwb_DrainRate wb\<rparr> else c2)"

definition table_settings :: "Config \<Rightarrow> string \<Rightarrow> TableOption list \<Rightarrow> TableConfig" where
  "table_settings config tableName opts =
     fold (\<lambda>opt c. opt c) opts (with_defaults (ic_WriteBack config)
       (case map_of (tables_of config) tableName of None \<Rightarrow> zero_table_config | Some c \<Rightarrow> c))"

definition table_data :: "TableConfig \<Rightarrow> TableConfigData" where
  "table_data c = \<lparr>tcd_TTL = itc_TTL c, tcd_WriteBackBatchSize = itc_WriteBackBatchSize c, tcd_DrainRate = itc_DrainRate c,
     tcd_Enabled = itc_Enabled c, tcd_Namespace = itc_Namespace c\<rparr>"

section \<open>The client\<close>

record 'e clientWrapper =
  cw_impl :: "'e ClientImpl"
  cw_config :: Config
  cw_drainerManager :: "'e cstate DrainerManager"
  cw_tables :: "'e cstate tableWrapper gomap"
  cw_started :: bool
  cw_replaced :: "'e cstate managed list"

definition GetYAML :: "(Config \<Rightarrow> string res) \<Rightarrow> Config \<Rightarrow> string res" where
  "GetYAML yaml_Marshal config = yaml_Marshal config"

definition client_drainer_config :: "WriteBackConfig \<Rightarrow> int \<Rightarrow> DrainerConfig" where
  "client_drainer_config wb drainRate = \<lparr>drc_DrainRate = drainRate, drc_BatchSize = 1, drc_PollInterval = 100 * 1000000,
     drc_MaxRetries = iwb_MaxRetries wb, drc_RetryBackoff = iwb_RetryBackoffBase wb\<rparr>"

definition NewClient :: "'e libs \<Rightarrow> (Config \<Rightarrow> string res) \<Rightarrow> Config option \<Rightarrow> 'e cstate \<Rightarrow> 'e clientWrapper res \<times> 'e cstate" where
  "NewClient L yaml_Marshal config s =
     (case config of
        None \<Rightarrow> (Inl (Errorf ''config cannot be nil'' []), s)
      | Some cfg \<Rightarrow>
          (case NewClientImpl L (Some (GetYAML yaml_Marshal cfg)) s of
             (Inl err, s1) \<Rightarrow> (Inl err, s1)
           | (Inr impl, s1) \<Rightarrow>
               (Inr \<lparr>cw_impl = impl, cw_config = cfg,
                  cw_drainerManager = NewDrainerManager (client_drainer_config (ic_WriteBack cfg) (iwb_DrainRate (ic_WriteBack cfg))),
                  cw_tables = [], cw_started = False, cw_replaced = []\<rparr>, s1)))"

text \<open>The queue of an internal table is never nil.\<close>

definition pc_EnableKV :: "'e libs \<Rightarrow> string \<Rightarrow> TableOption list \<Rightarrow> 'e clientWrapper \<Rightarrow> 'e cstate \<Rightarrow>
    'e cstate tableWrapper res \<times> 'e clientWrapper \<times> 'e cstate" where
  "pc_EnableKV L tableName opts cw s =
     (let tableConfig = table_settings (cw_config cw) tableName opts in
      case cl_EnableKV L tableName (table_data tableConfig) (cw_impl cw) s of
        (Inl err, impl, s1) \<Rightarrow> (Inl err, cw\<lparr>cw_impl := impl\<rparr>, s1)
      | (Inr internalTable, impl, s1) \<Rightarrow>
          (let queue = ct_GetWriteBackQueue internalTable;
               drainer0 = \<lparr>md_drainer = NewDrainer tableName queue (tableExecutor internalTable)
                   (client_drainer_config (ic_WriteBack (cw_config cw)) (itc_DrainRate tableConfig)), md_running = False\<rparr>;
               drainer = (if cw_started cw then snd (Drainer_Start drainer0) else drainer0);
               dm = cw_drainerManager cw;
               replaced = (case map_of (dm_drainers dm) tableName of None \<Rightarrow> [] | Some d \<Rightarrow> [d])
           in (Inr internalTable,
               cw\<lparr>cw_impl := impl, cw_tables := gomap_set (cw_tables cw) tableName internalTable,
                  cw_drainerManager := dm\<lparr>dm_drainers := gomap_set (dm_drainers dm) tableName drainer\<rparr>,
                  cw_replaced := cw_replaced cw @ replaced\<rparr>, s1)))"

definition pc_DisableKV :: "'e libs \<Rightarrow> string \<Rightarrow> 'e clientWrapper \<Rightarrow> 'e cstate \<Rightarrow> gerror option \<times> 'e clientWrapper \<times> 'e cstate" where
  "pc_DisableKV L tableName cw s =
     (case RemoveDrainer tableName (cw_drainerManager cw) of
        (Some err, dm) \<Rightarrow> (Some (Wrapf ''failed to stop drainer for table %s: %w'' [tableName] err), cw\<lparr>cw_drainerManager := dm\<rparr>, s)
      | (None, dm) \<Rightarrow>
          (let (e, impl, s1) = cl_DisableKV L tableName (cw_impl cw) s
           in (e, cw\<lparr>cw_drainerManager := dm, cw_tables := gomap_delete (cw_tables cw) tableName, cw_impl := impl\<rparr>, s1)))"

definition pc_GetTable :: "string \<Rightarrow> 'e clientWrapper \<Rightarrow> 'e cstate tableWrapper res" where
  "pc_GetTable tableName cw =
     (case map_of (cw_tables cw) tableName of Some tw \<Rightarrow> Inr tw | None \<Rightarrow> cl_GetTable tableName (cw_impl cw))"

definition pc_Start :: "'e clientWrapper \<Rightarrow> gerror option \<times> 'e clientWrapper" where
  "pc_Start cw =
     (if cw_started cw then (None, cw)
      else case StartAll (cw_drainerManager cw) of
        (Some err, dm) \<Rightarrow> (Some (Wrapf ''failed to start drainers: %w'' [] err), cw\<lparr>cw_drainerManager := dm\<rparr>)
      | (None, dm) \<Rightarrow> (None, cw\<lparr>cw_drainerManager := dm, cw_started := True\<rparr>))"

definition pc_Stop :: "'e clientWrapper \<Rightarrow> gerror option \<times> 'e clientWrapper" where
  "pc_Stop cw =
     (if \<not> cw_started cw then (None, cw)
      else case StopAll (cw_drainerManager cw) of
        (Some err, dm) \<Rightarrow> (Some (Wrapf ''failed to stop drainers: %w'' [] err), cw\<lparr>cw_drainerManager := dm\<rparr>)
      | (None, dm) \<Rightarrow> (None, cw\<lparr>cw_drainerManager := dm, cw_started := False\<rparr>))"

definition pc_IsRunning :: "'e clientWrapper \<Rightarrow> bool" where
  "pc_IsRunning cw = cw_started cw"

text \<open>The error of \<^verbatim>\<open>Stop\<close> is only printed.\<close>

definition pc_Close :: "'e libs \<Rightarrow> 'e cstate map_order \<Rightarrow> 'e clientWrapper \<Rightarrow> 'e cstate \<Rightarrow> gerror option \<times> 'e clientWrapper \<times> 'e cstate" where
  "pc_Close L iter cw s =
     (let (_, cw1) = pc_Stop cw; (e, impl, s1) = cl_Close L iter (cw_impl cw1) s in (e, cw1\<lparr>cw_impl := impl\<rparr>, s1))"

definition pc_GetInternalTable :: "string \<Rightarrow> 'e clientWrapper \<Rightarrow> 'e cstate core_table res" where
  "pc_GetInternalTable tableName cw = cl_GetTable tableName (cw_impl cw)"

definition pc_GetDrainer :: "string \<Rightarrow> 'e clientWrapper \<Rightarrow> 'e cstate managed option" where
  "pc_GetDrainer tableName cw = GetDrainer tableName (cw_drainerManager cw)"

section \<open>Lemmas\<close>

text \<open>
  Tables and drainers of a client go together: a name has a drainer exactly when it has a table, the
  drainer works on the queue of that table, and runs exactly when the client has been started; as long
  as the client is open these are the names that the internal client has enabled, with its tables.
\<close>

definition drainer_for :: "bool \<Rightarrow> string \<Rightarrow> 's managed \<Rightarrow> 's core_table \<Rightarrow> bool" where
  "drainer_for started n d t \<longleftrightarrow> md_running d = started \<and> dn_tableName (md_drainer d) = n \<and>
     dn_queue (md_drainer d) = ct_GetWriteBackQueue t \<and> dn_table (md_drainer d) = tableExecutor t"

definition enabled_table :: "'s TableRegistry \<Rightarrow> string \<Rightarrow> 's core_table option" where
  "enabled_table tr n = (case map_of (tr_tables tr) n of None \<Rightarrow> None | Some m \<Rightarrow> if tm_Enabled m then Some (tm_Table m) else None)"

definition wrapper_inv :: "nat set \<Rightarrow> 'e clientWrapper \<Rightarrow> 'e cstate \<Rightarrow> bool" where
  "wrapper_inv X cw s \<longleftrightarrow> client_inv X (cw_impl cw) s \<and>
     (\<forall>n. rel_option (drainer_for (cw_started cw) n) (map_of (dm_drainers (cw_drainerManager cw)) n) (map_of (cw_tables cw) n)) \<and>
     (\<not> ci_closed (cw_impl cw) \<longrightarrow> map_of (cw_tables cw) = enabled_table (ci_tableRegistry (cw_impl cw)))"

lemma map_of_mapped: "map_of (map (\<lambda>(n, d). (n, f d)) ds) n = map_option f (map_of ds n)"
  by (induction ds) auto

lemma drainer_switched:
  "rel_option (drainer_for a n) x y \<Longrightarrow> rel_option (drainer_for b n) (map_option (\<lambda>d. d\<lparr>md_running := b\<rparr>) x) y"
  by (cases x; cases y) (auto simp: drainer_for_def)

lemma wrapper_inv_drainers:
  assumes "wrapper_inv X cw s"
  shows "wrapper_inv X (cw\<lparr>cw_drainerManager := (cw_drainerManager cw)\<lparr>dm_drainers :=
    map (\<lambda>(n, d). (n, d\<lparr>md_running := b\<rparr>)) (dm_drainers (cw_drainerManager cw))\<rparr>, cw_started := b\<rparr>) s"
  using assms by (auto simp: wrapper_inv_def map_of_mapped intro: drainer_switched)

lemma pc_Start_eq:
  "pc_Start cw = (None, if cw_started cw then cw else cw\<lparr>cw_drainerManager := (cw_drainerManager cw)\<lparr>dm_drainers :=
     map (\<lambda>(n, d). (n, d\<lparr>md_running := True\<rparr>)) (dm_drainers (cw_drainerManager cw))\<rparr>, cw_started := True\<rparr>)"
  by (simp add: pc_Start_def StartAll_def Drainer_Start_def)

lemma pc_Stop_eq:
  "pc_Stop cw = (None, if \<not> cw_started cw then cw else cw\<lparr>cw_drainerManager := (cw_drainerManager cw)\<lparr>dm_drainers :=
     map (\<lambda>(n, d). (n, d\<lparr>md_running := False\<rparr>)) (dm_drainers (cw_drainerManager cw))\<rparr>, cw_started := False\<rparr>)"
  by (simp add: pc_Stop_def StopAll_def Drainer_Stop_def)

lemma pc_Stop_inv: "wrapper_inv X cw s \<Longrightarrow> wrapper_inv X (snd (pc_Stop cw)) s \<and> \<not> cw_started (snd (pc_Stop cw))"
  using wrapper_inv_drainers [of X cw s False] by (simp add: pc_Stop_eq)

lemma pc_Start_inv: "wrapper_inv X cw s \<Longrightarrow> wrapper_inv X (snd (pc_Start cw)) s"
  using wrapper_inv_drainers [of X cw s True] by (simp add: pc_Start_eq)

text \<open>The operations of the internal client on one name leave the other names alone.\<close>

lemma cl_EnableKV_others:
  assumes "cl_EnableKV L n cfg c s = (r, c', s')" and "n' \<noteq> n"
  shows "map_of (tr_tables (ci_tableRegistry c')) n' = map_of (tr_tables (ci_tableRegistry c)) n'"
  using assms
  by (auto simp: cl_EnableKV_def dest!: tr_EnableKV_cases tr_Register_cases split: if_splits option.splits sum.splits prod.splits)

lemma cl_DisableKV_others:
  assumes "cl_DisableKV L n c s = (e, c', s')"
  shows "ci_closed c' = ci_closed c \<and> (n' \<noteq> n \<longrightarrow> map_of (tr_tables (ci_tableRegistry c')) n' = map_of (tr_tables (ci_tableRegistry c)) n')"
  using assms by (auto simp: cl_DisableKV_def Let_def dest!: tr_DisableKV_cases split: if_splits prod.splits)

lemma cl_DisableKV_off:
  assumes "client_inv X c s" and "cl_DisableKV L n c s = (e, c', s')" and "\<not> ci_closed c'"
  shows "enabled_table (ci_tableRegistry c') n = None"
proof (cases "n = []")
  case True
  have "map_of (tr_tables (ci_tableRegistry c)) [] = None"
    using assms(1) reg_ok_get [of "ci_tableRegistry c" "[]"] by (cases "map_of (tr_tables (ci_tableRegistry c)) []") (auto simp: client_inv_def meta_ok_def)
  then show ?thesis using assms(2) True by (simp add: cl_DisableKV_def enabled_table_def)
next
  case False
  obtain e1 tr s2 where t: "tr_DisableKV (client_now L) n (ci_tableRegistry c) s = (e1, tr, s2)" by (metis surj_pair)
  have "ci_tableRegistry c' = tr" using assms(2,3) False t by (auto simp: cl_DisableKV_def split: if_splits)
  moreover have "map_of (tr_tables tr) n = None \<or> (\<exists>m. map_of (tr_tables tr) n = Some m \<and> \<not> tm_Enabled m)"
  proof (cases "map_of (tr_tables (ci_tableRegistry c)) n")
    case None
    then show ?thesis using conjunct2 [OF conjunct2 [OF client_inv_disable [OF assms(1) t]]] by simp
  next
    case (Some m)
    then show ?thesis using conjunct2 [OF conjunct2 [OF client_inv_disable [OF assms(1) t]]] by auto
  qed
  ultimately show ?thesis by (auto simp: enabled_table_def)
qed

lemma pc_EnableKV_inv:
  assumes "wrapper_inv X cw s" and "pc_EnableKV L n opts cw s = (r, cw', s')"
  shows "wrapper_inv X cw' s' \<and> cw_started cw' = cw_started cw \<and>
    (case r of
       Inl _ \<Rightarrow> cw' = cw
     | Inr t \<Rightarrow> pc_GetTable n cw' = Inr t \<and> cl_GetTable n (cw_impl cw') = Inr t \<and>
         (\<exists>d. pc_GetDrainer n cw' = Some d \<and> drainer_for (cw_started cw) n d t) \<and>
         cw_replaced cw' = cw_replaced cw @ (case pc_GetDrainer n cw of None \<Rightarrow> [] | Some d \<Rightarrow> [d]))"
proof -
  obtain r0 impl s1 where e: "cl_EnableKV L n (table_data (table_settings (cw_config cw) n opts)) (cw_impl cw) s = (r0, impl, s1)" by (metis surj_pair)
  have ef: "enable_effect X n (cw_impl cw) s r0 impl s1" using cl_EnableKV_effect [OF _ e] assms(1) by (simp add: wrapper_inv_def)
  show ?thesis
  proof (cases r0)
    case (Inl err)
    then have "impl = cw_impl cw" "client_inv X impl s1" using ef by (auto simp: enable_effect_def)
    then show ?thesis using assms e Inl by (auto simp: pc_EnableKV_def wrapper_inv_def Let_def)
  next
    case (Inr t)
    then obtain m where m: "map_of (tr_tables (ci_tableRegistry impl)) n = Some m" "tm_Table m = t" "tm_Enabled m" "n \<noteq> []" "\<not> ci_closed impl"
      "client_inv X impl s1" using ef by (auto simp: enable_effect_def)
    have nc: "\<not> ci_closed (cw_impl cw)" using e Inr by (auto simp: cl_EnableKV_def split: if_splits)
    have "enabled_table (ci_tableRegistry impl) = (enabled_table (ci_tableRegistry (cw_impl cw)))(n := Some t)"
      using cl_EnableKV_others [OF e] m(1-3) by (auto simp: enabled_table_def fun_eq_iff)
    then show ?thesis using assms e Inr m nc
      by (auto simp: pc_EnableKV_def wrapper_inv_def Let_def drainer_for_def NewDrainer_def Drainer_Start_def pc_GetTable_def pc_GetDrainer_def
          GetDrainer_def cl_GetTable_def tr_Get_def)
  qed
qed

lemma pc_DisableKV_inv:
  assumes "wrapper_inv X cw s" and "pc_DisableKV L n cw s = (e, cw', s')"
  shows "wrapper_inv X cw' s' \<and> cw_started cw' = cw_started cw \<and> cw_replaced cw' = cw_replaced cw \<and> pc_GetDrainer n cw' = None \<and>
    cl_DisableKV L n (cw_impl cw) s = (e, cw_impl cw', s')"
proof -
  obtain impl s1 where d: "cl_DisableKV L n (cw_impl cw) s = (e, impl, s')"
    and cw': "cw_impl cw' = impl" "cw_tables cw' = gomap_delete (cw_tables cw) n" "cw_started cw' = cw_started cw" "cw_replaced cw' = cw_replaced cw"
      "map_of (dm_drainers (cw_drainerManager cw')) = (map_of (dm_drainers (cw_drainerManager cw)))(n := None)"
    using assms(2) by (auto simp: pc_DisableKV_def RemoveDrainer_def Drainer_Stop_def Let_def fun_eq_iff split: option.splits prod.splits)
  have inv: "client_inv X impl s'" if "client_inv X (cw_impl cw) s"
    using client_inv_step [OF client_step.disable [OF d, of X]] that by simp
  note o = cl_DisableKV_others [OF d]
  have "\<not> ci_closed impl \<longrightarrow> enabled_table (ci_tableRegistry impl) n = None"
    using cl_DisableKV_off [where X = X, OF _ d] assms(1) by (simp add: wrapper_inv_def)
  then have "\<not> ci_closed impl \<longrightarrow> enabled_table (ci_tableRegistry impl) = (enabled_table (ci_tableRegistry (cw_impl cw)))(n := None)"
    using o assms(1) by (auto simp: enabled_table_def fun_eq_iff wrapper_inv_def)
  then show ?thesis using assms(1) cw' d o inv by (auto simp: wrapper_inv_def pc_GetDrainer_def GetDrainer_def)
qed

lemma pc_Close_inv:
  assumes "wrapper_inv X cw s" and "mset (iter (tr_tables (ci_tableRegistry (cw_impl cw)))) = mset (tr_tables (ci_tableRegistry (cw_impl cw)))"
    and "pc_Close L iter cw s = (e, cw', s')"
  shows "wrapper_inv X cw' s' \<and> \<not> cw_started cw' \<and> ci_closed (cw_impl cw') \<and> cw_replaced cw' = cw_replaced cw"
proof -
  let ?cw = "snd (pc_Stop cw)"
  have i: "cw_impl ?cw = cw_impl cw" "cw_replaced ?cw = cw_replaced cw" by (simp_all add: pc_Stop_eq)
  obtain impl where c: "cl_Close L iter (cw_impl cw) s = (e, impl, s')" "cw' = ?cw\<lparr>cw_impl := impl\<rparr>"
    using assms(3) i by (auto simp: pc_Close_def Let_def split: prod.splits)
  have "client_inv X impl s' \<and> ci_closed impl" using cl_Close_effect [where X = X, OF _ assms(2) c(1)] assms(1) by (simp add: wrapper_inv_def)
  then show ?thesis using pc_Stop_inv [OF assms(1)] i c(2) by (auto simp: wrapper_inv_def)
qed

text \<open>A client in use, as in the internal package; the caller switches the tables \<open>X\<close> themselves.\<close>

inductive wrapper_step :: "'e libs \<Rightarrow> nat set \<Rightarrow> 'e clientWrapper \<times> 'e cstate \<Rightarrow> 'e clientWrapper \<times> 'e cstate \<Rightarrow> bool" for L X where
  enable: "pc_EnableKV L n opts cw s = (r, cw', s') \<Longrightarrow> wrapper_step L X (cw, s) (cw', s')"
| disable: "pc_DisableKV L n cw s = (e, cw', s') \<Longrightarrow> wrapper_step L X (cw, s) (cw', s')"
| start: "pc_Start cw = (e, cw') \<Longrightarrow> wrapper_step L X (cw, s) (cw', s)"
| stop: "pc_Stop cw = (e, cw') \<Longrightarrow> wrapper_step L X (cw, s) (cw', s)"
| close: "mset (iter (tr_tables (ci_tableRegistry (cw_impl cw)))) = mset (tr_tables (ci_tableRegistry (cw_impl cw))) \<Longrightarrow>
    pc_Close L iter cw s = (e, cw', s') \<Longrightarrow> wrapper_step L X (cw, s) (cw', s')"
| switch: "i \<in> X \<Longrightarrow> i < cs_next s \<Longrightarrow> tw_EnableKV (client_table i t) s = (e, s') \<or> tw_DisableKV (client_table i t) s = (e, s') \<Longrightarrow>
    wrapper_step L X (cw, s) (cw, s')"
| other: "cs_next s' = cs_next s \<Longrightarrow> \<forall>i. client_on i s' = client_on i s \<Longrightarrow> wrapper_step L X (cw, s) (cw, s')"

lemma wrapper_inv_step: "wrapper_step L X x y \<Longrightarrow> wrapper_inv X (fst x) (snd x) \<Longrightarrow> wrapper_inv X (fst y) (snd y)"
proof (induction rule: wrapper_step.induct)
  case (enable n opts cw s r cw' s')
  then show ?case using pc_EnableKV_inv by fastforce
next
  case (disable n cw s e cw' s')
  then show ?case using pc_DisableKV_inv by fastforce
next
  case (start cw e cw' s)
  then show ?case using pc_Start_inv by fastforce
next
  case (stop cw e cw' s)
  then show ?case using pc_Stop_inv by fastforce
next
  case (close iter cw s e cw' s')
  then show ?case using pc_Close_inv by fastforce
next
  case (switch i s t e s' cw)
  then have "client_step L X (cw_impl cw, s) (cw_impl cw, s')"
    by (intro client_step.switch) (simp_all add: tw_EnableKV_def tw_DisableKV_def)
  then show ?case using client_inv_step switch(4) by (fastforce simp: wrapper_inv_def)
next
  case (other s' s cw)
  then show ?case by (auto simp: wrapper_inv_def intro: client_inv_frame [of X "cw_impl cw" s])
qed

lemma wrapper_inv_reachable:
  assumes "NewClient L yaml_Marshal config s0 = (Inr cw0, s1)" and "cs_next s0 = 0" and "(wrapper_step L X)\<^sup>*\<^sup>* (cw0, s1) (cw, s)"
  shows "wrapper_inv X cw s"
proof -
  obtain cfg impl where n: "NewClientImpl L (Some (GetYAML yaml_Marshal cfg)) s0 = (Inr impl, s1)" "cw_impl cw0 = impl" "cw_tables cw0 = []"
    "dm_drainers (cw_drainerManager cw0) = []"
    using assms(1) by (auto simp: NewClient_def NewDrainerManager_def split: option.splits sum.splits prod.splits)
  have "tr_tables (ci_tableRegistry impl) = []"
    using n(1) by (auto simp: NewClientImpl_def initializeConnections_def NewTableRegistry_def Let_def split: option.splits sum.splits prod.splits if_splits)
  then have "wrapper_inv X cw0 s1" using client_inv_new [OF n(1) assms(2)] n by (simp add: wrapper_inv_def enabled_table_def fun_eq_iff)
  moreover have "(wrapper_step L X)\<^sup>*\<^sup>* x y \<Longrightarrow> wrapper_inv X (fst x) (snd x) \<Longrightarrow> wrapper_inv X (fst y) (snd y)" for x y
    by (induction rule: rtranclp_induct) (auto dest: wrapper_inv_step)
  ultimately show ?thesis using assms(3) by fastforce
qed

section \<open>Properties\<close>

text \<open>
  C15. Every enabled table has its drainer. In every state that a new client can reach, the tables' own
  switches included: a name has a drainer exactly when the client has handed out a table for it, the
  drainer takes from the queue of that very table and executes on it, and it is marked as running
  exactly when the client is; as long as the client is open, these are exactly the tables that the
  registry has as enabled, and those whose own switch has not been used are switched on. (The mark
  stays when the worker ends because its context is done.)
\<close>

theorem drainers_match_tables:
  assumes "NewClient L yaml_Marshal config s0 = (Inr cw0, s1)" and "cs_next s0 = 0" and "(wrapper_step L X)\<^sup>*\<^sup>* (cw0, s1) (cw, s)"
  shows "(case pc_GetDrainer n cw of
       None \<Rightarrow> map_of (cw_tables cw) n = None
     | Some d \<Rightarrow> \<exists>t. pc_GetTable n cw = Inr t \<and> map_of (cw_tables cw) n = Some t \<and> IsRunning d = pc_IsRunning cw \<and>
         dn_queue (md_drainer d) = ct_GetWriteBackQueue t \<and> dn_table (md_drainer d) = tableExecutor t) \<and>
    (\<not> ci_closed (cw_impl cw) \<longrightarrow>
       (pc_GetDrainer n cw \<noteq> None \<longleftrightarrow> Table_Registry.IsEnabled n (ci_tableRegistry (cw_impl cw)) = Inr True) \<and>
       (\<forall>t. map_of (cw_tables cw) n = Some t \<longrightarrow> cl_GetTable n (cw_impl cw) = Inr t \<and> (ct_id t \<notin> X \<longrightarrow> ts_enabled (cs_heap s (ct_id t)))))"
proof -
  have inv: "wrapper_inv X cw s" by (rule wrapper_inv_reachable [OF assms])
  then have rel: "rel_option (drainer_for (cw_started cw) n) (pc_GetDrainer n cw) (map_of (cw_tables cw) n)"
    and ci: "client_inv X (cw_impl cw) s" and en: "\<not> ci_closed (cw_impl cw) \<Longrightarrow> map_of (cw_tables cw) n = enabled_table (ci_tableRegistry (cw_impl cw)) n"
    by (simp_all add: wrapper_inv_def pc_GetDrainer_def GetDrainer_def)
  have "cl_GetTable n (cw_impl cw) = Inr t \<and> (ct_id t \<notin> X \<longrightarrow> client_on (ct_id t) s)" if t: "\<not> ci_closed (cw_impl cw)" "map_of (cw_tables cw) n = Some t" for t
  proof -
    obtain m where m: "map_of (tr_tables (ci_tableRegistry (cw_impl cw))) n = Some m" "tm_Enabled m" "tm_Table m = t"
      using en t by (auto simp: enabled_table_def split: option.splits if_splits)
    moreover have "n \<noteq> []" using m(1) ci reg_ok_get by (fastforce simp: client_inv_def meta_ok_def)
    ultimately show ?thesis using client_invD [OF ci m(1)] t by (auto simp: cl_GetTable_def tr_Get_def)
  qed
  moreover have "\<not> ci_closed (cw_impl cw) \<Longrightarrow>
      map_of (cw_tables cw) n \<noteq> None \<longleftrightarrow> Table_Registry.IsEnabled n (ci_tableRegistry (cw_impl cw)) = Inr True"
    using en by (auto simp: enabled_table_def Table_Registry.IsEnabled_def split: option.splits if_splits)
  ultimately show ?thesis using rel
    by (cases "pc_GetDrainer n cw"; cases "map_of (cw_tables cw) n")
      (auto simp: drainer_for_def IsRunning_def pc_IsRunning_def pc_GetTable_def client_on_def)
qed

text \<open>A client that has been started and then given a table.\<close>

lemma ex_public_code:
  "case NewClient ex_libs (\<lambda>_. Inr ''kvstore: {}'') (Some DefaultConfig) ex_cstate of
     (Inr cw, s) \<Rightarrow> (case pc_EnableKV ex_libs ''orders'' [] (snd (pc_Start cw)) s of (Inr t, _) \<Rightarrow> True | _ \<Rightarrow> False) | _ \<Rightarrow> False"
  by code_simp

lemma ex_public:
  obtains cw0 s0 t cw s where "NewClient ex_libs (\<lambda>_. Inr ''kvstore: {}'') (Some DefaultConfig) ex_cstate = (Inr cw0, s0)"
    "pc_EnableKV ex_libs ''orders'' [] (snd (pc_Start cw0)) s0 = (Inr t, cw, s)" "(wrapper_step ex_libs {})\<^sup>*\<^sup>* (cw0, s0) (cw, s)"
    "cw_started cw" "\<exists>d. pc_GetDrainer ''orders'' cw = Some d" "wrapper_inv {} cw s"
proof -
  obtain r cw0 s0 where n: "NewClient ex_libs (\<lambda>_. Inr ''kvstore: {}'') (Some DefaultConfig) ex_cstate = (r, s0)" by (metis surj_pair)
  obtain cw0 where r: "r = Inr cw0" using ex_public_code n by (auto split: sum.splits)
  obtain r1 cw s where e: "pc_EnableKV ex_libs ''orders'' [] (snd (pc_Start cw0)) s0 = (r1, cw, s)" by (metis surj_pair)
  obtain t where t: "r1 = Inr t" using ex_public_code n r e by (auto split: sum.splits)
  have st: "wrapper_step ex_libs {} (cw0, s0) (snd (pc_Start cw0), s0)" "wrapper_step ex_libs {} (snd (pc_Start cw0), s0) (cw, s)"
    using wrapper_step.start [of cw0 None] wrapper_step.enable [OF e] by (simp_all add: pc_Start_eq)
  then have reach: "(wrapper_step ex_libs {})\<^sup>*\<^sup>* (cw0, s0) (cw, s)" by (meson r_into_rtranclp rtranclp_trans)
  have nn: "NewClient ex_libs (\<lambda>_. Inr ''kvstore: {}'') (Some DefaultConfig) ex_cstate = (Inr cw0, s0)" using n r by simp
  have i0: "wrapper_inv {} (snd (pc_Start cw0)) s0"
    using wrapper_inv_reachable [OF nn ex_next] st(1) by (meson r_into_rtranclp)
  have "cw_started (snd (pc_Start cw0))" by (simp add: pc_Start_eq)
  then show ?thesis using that [OF nn _ reach] e t pc_EnableKV_inv [OF i0 e] by auto
qed

theorem drainers_match_tables_witness:
  "\<exists>cw0 s0 t cw s d. NewClient ex_libs (\<lambda>_. Inr ''kvstore: {}'') (Some DefaultConfig) ex_cstate = (Inr cw0, s0) \<and>
     pc_EnableKV ex_libs ''orders'' [] (snd (pc_Start cw0)) s0 = (Inr t, cw, s) \<and> pc_GetDrainer ''orders'' cw = Some d \<and>
     IsRunning d \<and> (\<exists>t'. pc_GetTable ''orders'' cw = Inr t' \<and> dn_queue (md_drainer d) = ct_GetWriteBackQueue t')"
proof -
  obtain cw0 s0 t cw s where n: "NewClient ex_libs (\<lambda>_. Inr ''kvstore: {}'') (Some DefaultConfig) ex_cstate = (Inr cw0, s0)"
    "pc_EnableKV ex_libs ''orders'' [] (snd (pc_Start cw0)) s0 = (Inr t, cw, s)" "(wrapper_step ex_libs {})\<^sup>*\<^sup>* (cw0, s0) (cw, s)"
    "cw_started cw" and d: "\<exists>d. pc_GetDrainer ''orders'' cw = Some d" by (rule ex_public)
  then obtain d where "pc_GetDrainer ''orders'' cw = Some d" by blast
  with drainers_match_tables [OF n(1) ex_next n(3), of "''orders''"] n show ?thesis by (auto simp: pc_IsRunning_def)
qed

text \<open>
  C27. Enabling a table a second time leaks its drainer. When the client is running and the table has a
  drainer already, \<^verbatim>\<open>EnableKV\<close> puts a new one into the manager without stopping the old one: both now take
  from the same queue, and after the client has been closed the old one is still running, with no
  reference left by which it could be stopped.
\<close>

theorem reenable_leaks_drainer:
  assumes "NewClient L yaml_Marshal config s0 = (Inr cw0, s1)" and "cs_next s0 = 0" and "(wrapper_step L X)\<^sup>*\<^sup>* (cw0, s1) (cw, s)"
    and "pc_IsRunning cw" and "pc_GetDrainer n cw = Some d" and "pc_EnableKV L n opts cw s = (Inr t, cw1, s2)"
    and "mset (iter (tr_tables (ci_tableRegistry (cw_impl cw1)))) = mset (tr_tables (ci_tableRegistry (cw_impl cw1)))"
    and "pc_Close L iter cw1 s2 = (e, cw2, s3)"
  shows "IsRunning d \<and> (\<exists>d'. pc_GetDrainer n cw1 = Some d' \<and> IsRunning d' \<and> dn_queue (md_drainer d') = dn_queue (md_drainer d)) \<and>
    d \<in> set (cw_replaced cw2) \<and> \<not> pc_IsRunning cw2 \<and> (\<forall>k d'. pc_GetDrainer k cw2 = Some d' \<longrightarrow> \<not> IsRunning d')"
proof -
  have inv: "wrapper_inv X cw s" by (rule wrapper_inv_reachable [OF assms(1-3)])
  note e = pc_EnableKV_inv [OF inv assms(6)]
  have c: "wrapper_inv X cw2 s3" "\<not> cw_started cw2" "cw_replaced cw2 = cw_replaced cw1"
    using pc_Close_inv [OF conjunct1 [OF e] assms(7,8)] by simp_all
  have rel: "rel_option (drainer_for (cw_started x) k) (pc_GetDrainer k x) (map_of (cw_tables x) k)" if "wrapper_inv X x y" for x y k
    using that by (simp add: wrapper_inv_def pc_GetDrainer_def GetDrainer_def)
  obtain t0 where t0: "map_of (cw_tables cw) n = Some t0" "drainer_for (cw_started cw) n d t0"
    using rel [OF inv, of n] assms(5) by (cases "map_of (cw_tables cw) n") auto
  have nc: "\<not> ci_closed (cw_impl cw)" using assms(6) by (auto simp: pc_EnableKV_def cl_EnableKV_def Let_def split: if_splits)
  then obtain m where m: "map_of (tr_tables (ci_tableRegistry (cw_impl cw))) n = Some m" "tm_Enabled m" "tm_Table m = t0"
    using inv t0(1) by (auto simp: wrapper_inv_def enabled_table_def split: option.splits if_splits)
  have "t = t0" using assms(6) m nc
    by (auto simp: pc_EnableKV_def cl_EnableKV_def tr_Get_def GetMetadata_def Let_def split: if_splits)
  then have "\<exists>d'. pc_GetDrainer n cw1 = Some d' \<and> md_running d' \<and> dn_queue (md_drainer d') = dn_queue (md_drainer d)"
    using e t0(2) assms(4) by (auto simp: drainer_for_def pc_IsRunning_def)
  moreover have "\<not> md_running d'" if "pc_GetDrainer k cw2 = Some d'" for k d'
    using rel [OF c(1), of k] that c(2) by (cases "map_of (cw_tables cw2) k") (auto simp: drainer_for_def)
  ultimately show ?thesis using e c t0(2) assms(4,5) by (auto simp: IsRunning_def pc_IsRunning_def drainer_for_def)
qed

theorem reenable_leaks_drainer_witness:
  "\<exists>cw0 s0 t cw s d cw1 s1 e cw2 s2. NewClient ex_libs (\<lambda>_. Inr ''kvstore: {}'') (Some DefaultConfig) ex_cstate = (Inr cw0, s0) \<and>
     pc_EnableKV ex_libs ''orders'' [] (snd (pc_Start cw0)) s0 = (Inr t, cw, s) \<and> pc_EnableKV ex_libs ''orders'' [] cw s = (Inr t, cw1, s1) \<and>
     pc_Close ex_libs (\<lambda>m. m) cw1 s1 = (e, cw2, s2) \<and> d \<in> set (cw_replaced cw2) \<and> IsRunning d"
proof -
  obtain cw0 s0 t cw s where n: "NewClient ex_libs (\<lambda>_. Inr ''kvstore: {}'') (Some DefaultConfig) ex_cstate = (Inr cw0, s0)"
    "pc_EnableKV ex_libs ''orders'' [] (snd (pc_Start cw0)) s0 = (Inr t, cw, s)" "(wrapper_step ex_libs {})\<^sup>*\<^sup>* (cw0, s0) (cw, s)"
    "cw_started cw" "wrapper_inv {} cw s" and d: "\<exists>d. pc_GetDrainer ''orders'' cw = Some d" by (rule ex_public)
  then obtain d where d: "pc_GetDrainer ''orders'' cw = Some d" by blast
  have run: "pc_IsRunning cw" using n(4) by (simp add: pc_IsRunning_def)
  have i0: "wrapper_inv {} (snd (pc_Start cw0)) s0"
    using pc_Start_inv [OF wrapper_inv_reachable [OF n(1) ex_next rtranclp.rtrancl_refl]] .
  have "cl_GetTable ''orders'' (cw_impl cw) = Inr t" using pc_EnableKV_inv [OF i0 n(2)] by simp
  moreover have "enabled_table (ci_tableRegistry (cw_impl cw)) ''orders'' \<noteq> None"
    using n(5) d calculation by (auto simp: wrapper_inv_def pc_GetDrainer_def GetDrainer_def cl_GetTable_def option_rel_Some1 split: if_splits elim!: allE [of _ "''orders''"])
  ultimately obtain cw1 s1 where e: "pc_EnableKV ex_libs ''orders'' [] cw s = (Inr t, cw1, s1)"
    by (auto simp: pc_EnableKV_def cl_EnableKV_def cl_GetTable_def tr_Get_def GetMetadata_def enabled_table_def Let_def split: if_splits option.splits)
  obtain x cw2 s2 where c: "pc_Close ex_libs (\<lambda>m. m) cw1 s1 = (x, cw2, s2)" by (metis surj_pair)
  from reenable_leaks_drainer [OF n(1) ex_next n(3) run d e _ c] n e c show ?thesis by blast
qed

lemma client_call_memory:
  "client_now L s = (ts, s') \<Longrightarrow> pr_memory (cs_process s') = pr_memory (cs_process s)"
  "client_lawful t \<Longrightarrow> ct_DisableKV t s = (e, s') \<Longrightarrow> pr_memory (cs_process s') = pr_memory (cs_process s)"
  by (auto simp: client_now_def process_now_def on_process_def via_iff client_lawful_def client_table_def core_table_of_def DisableKV_def
      table_put_def table_get_def)

lemma cl_DisableKV_memory:
  assumes "client_inv X c s" and "cl_DisableKV L n c s = (e, c', s')"
  shows "pr_memory (cs_process s') = pr_memory (cs_process s)"
proof -
  have "tr_lifecycle (ci_tableRegistry c) = NewLifecycleManager" using assms(1) by (simp add: client_inv_def)
  then show ?thesis using assms(2) client_invD(1) [OF assms(1), of n]
    by (auto simp: cl_DisableKV_def tr_DisableKV_def Let_def client_call_memory split: if_splits option.splits prod.splits)
qed

lemma tracked_table:
  assumes "wrapper_inv X cw s" and "\<not> ci_closed (cw_impl cw)" and "pc_GetDrainer n cw = Some d"
  obtains t m where "map_of (cw_tables cw) n = Some t" "drainer_for (cw_started cw) n d t"
    "map_of (tr_tables (ci_tableRegistry (cw_impl cw))) n = Some m" "tm_Enabled m" "tm_Table m = t" "n \<noteq> []" "client_lawful t"
proof -
  have "rel_option (drainer_for (cw_started cw) n) (Some d) (map_of (cw_tables cw) n)"
    using assms(1,3) unfolding wrapper_inv_def pc_GetDrainer_def GetDrainer_def by metis
  then obtain t where t: "map_of (cw_tables cw) n = Some t" "drainer_for (cw_started cw) n d t" by (auto simp: option_rel_Some1)
  then obtain m where m: "map_of (tr_tables (ci_tableRegistry (cw_impl cw))) n = Some m" "tm_Enabled m" "tm_Table m = t"
    using assms(1,2) by (auto simp: wrapper_inv_def enabled_table_def split: option.splits if_splits)
  have ci: "client_inv X (cw_impl cw) s" using assms(1) by (simp add: wrapper_inv_def)
  have "n \<noteq> []" using ci m(1) reg_ok_get by (fastforce simp: client_inv_def meta_ok_def)
  then show ?thesis using that t m client_invD(1) [OF ci m(1)] by blast
qed

text \<open>
  C28. Disabling a table strands what it has queued. \<^verbatim>\<open>DisableKV\<close> stops and removes the drainer and leaves the
  queue as it is: the operations that were accepted and not yet written have no drainer, and starting
  the client does not give them one. Only enabling the table again does, which finds the same table and
  with it the same queue.
\<close>

theorem disable_strands_queue:
  assumes "NewClient L yaml_Marshal config s0 = (Inr cw0, s1)" and "cs_next s0 = 0" and "(wrapper_step L X)\<^sup>*\<^sup>* (cw0, s1) (cw, s)"
    and "pc_GetDrainer n cw = Some d" and "pc_DisableKV L n cw s = (None, cw1, s2)"
  shows "pc_GetDrainer n cw1 = None \<and> pc_GetDrainer n (snd (pc_Start cw1)) = None \<and> pr_memory (cs_process s2) = pr_memory (cs_process s) \<and>
    (\<forall>opts r cw2 s3. pc_EnableKV L n opts cw1 s2 = (r, cw2, s3) \<longrightarrow> (\<exists>t. r = Inr t \<and> pc_GetTable n cw = Inr t) \<and>
       (\<exists>d'. pc_GetDrainer n cw2 = Some d' \<and> dn_queue (md_drainer d') = dn_queue (md_drainer d)))"
proof -
  have inv: "wrapper_inv X cw s" by (rule wrapper_inv_reachable [OF assms(1-3)])
  note x = pc_DisableKV_inv [OF inv assms(5)]
  have ci: "client_inv X (cw_impl cw) s" and ci1: "client_inv X (cw_impl cw1) s2" using inv x by (simp_all add: wrapper_inv_def)
  have d: "cl_DisableKV L n (cw_impl cw) s = (None, cw_impl cw1, s2)" using x by simp
  then have nc: "\<not> ci_closed (cw_impl cw)" by (auto simp: cl_DisableKV_def split: if_splits)
  obtain t m where t: "map_of (cw_tables cw) n = Some t" "drainer_for (cw_started cw) n d t"
    "map_of (tr_tables (ci_tableRegistry (cw_impl cw))) n = Some m" "tm_Table m = t" "n \<noteq> []"
    by (rule tracked_table [OF inv nc assms(4)]) blast
  obtain e tr s4 where td: "tr_DisableKV (client_now L) n (ci_tableRegistry (cw_impl cw)) s = (e, tr, s4)" by (metis surj_pair)
  obtain m' where m': "map_of (tr_tables tr) n = Some m'" "tm_Table m' = t" using client_inv_disable [OF ci td] t(3,4) by auto
  have "cw_impl cw1 = (cw_impl cw)\<lparr>ci_tableRegistry := tr\<rparr>" using d td nc t(5) by (simp add: cl_DisableKV_def)
  then have m1: "map_of (tr_tables (ci_tableRegistry (cw_impl cw1))) n = Some m'" using m' by simp
  have "(\<exists>t. r = Inr t \<and> pc_GetTable n cw = Inr t) \<and> (\<exists>d'. pc_GetDrainer n cw2 = Some d' \<and> dn_queue (md_drainer d') = dn_queue (md_drainer d))"
    if e: "pc_EnableKV L n opts cw1 s2 = (r, cw2, s3)" for opts r cw2 s3
  proof -
    obtain r0 impl s5 where c: "cl_EnableKV L n (table_data (table_settings (cw_config cw1) n opts)) (cw_impl cw1) s2 = (r0, impl, s5)"
      by (metis surj_pair)
    have "r0 = Inr t" using enable_registered [OF ci1 m1 t(5) c] m'(2) by simp
    then have r: "r = Inr t" using e c by (simp add: pc_EnableKV_def Let_def)
    then show ?thesis using pc_EnableKV_inv [OF conjunct1 [OF x] e] t by (auto simp: pc_GetTable_def drainer_for_def)
  qed
  moreover have "pc_GetDrainer n (snd (pc_Start cw1)) = None"
    using x by (simp add: pc_Start_eq pc_GetDrainer_def GetDrainer_def map_of_mapped)
  ultimately show ?thesis using x cl_DisableKV_memory [OF ci d] by blast
qed

text \<open>
  C39. The switch of a table does not reach the client. Disabling a table through the table itself leaves the
  client believing that it is enabled, so that enabling it through the client returns the table at once
  and leaves it off: from then on its operations go to the database directly.
\<close>

theorem table_switch_bypasses_client:
  assumes "NewClient L yaml_Marshal config s0 = (Inr cw0, s1)" and "cs_next s0 = 0" and "(wrapper_step L X)\<^sup>*\<^sup>* (cw0, s1) (cw, s)"
    and "\<not> ci_closed (cw_impl cw)" and "pc_GetDrainer n cw = Some d" and "pc_GetTable n cw = Inr t" and "tw_DisableKV t s = (e, s2)"
    and "pc_EnableKV L n opts cw s2 = (r, cw1, s3)"
  shows "e = None \<and> r = Inr t \<and> \<not> ts_enabled (cs_heap s3 (ct_id t)) \<and> Table_Registry.IsEnabled n (ci_tableRegistry (cw_impl cw1)) = Inr True"
proof -
  have inv: "wrapper_inv X cw s" by (rule wrapper_inv_reachable [OF assms(1-3)])
  obtain t' m where t: "map_of (cw_tables cw) n = Some t'"
    "map_of (tr_tables (ci_tableRegistry (cw_impl cw))) n = Some m" "tm_Enabled m" "tm_Table m = t'" "n \<noteq> []" "client_lawful t'"
    by (rule tracked_table [OF inv assms(4,5)]) blast
  have eq: "t' = t" using assms(6) t(1) by (simp add: pc_GetTable_def)
  have off: "e = None" "\<not> client_on (ct_id t) s2" using client_switch(2) [of t s] t(6) assms(7) eq by (auto simp: tw_DisableKV_def)
  have "cl_EnableKV L n (table_data (table_settings (cw_config cw) n opts)) (cw_impl cw) s2 = (Inr t, cw_impl cw, s2)"
    using t assms(4) eq by (simp add: cl_EnableKV_def tr_Get_def GetMetadata_def)
  then have "r = Inr t" "s3 = s2" "cw_impl cw1 = cw_impl cw" using assms(8) by (auto simp: pc_EnableKV_def Let_def)
  then show ?thesis using off t by (simp add: client_on_def Table_Registry.IsEnabled_def)
qed

lemma pc_DisableKV_succeeds:
  assumes "wrapper_inv X cw s" and "\<not> ci_closed (cw_impl cw)" and "pc_GetDrainer n cw = Some d"
  obtains cw' s' where "pc_DisableKV L n cw s = (None, cw', s')"
proof -
  obtain e cw' s' where x: "pc_DisableKV L n cw s = (e, cw', s')" by (metis surj_pair)
  obtain t m where t: "map_of (tr_tables (ci_tableRegistry (cw_impl cw))) n = Some m" "n \<noteq> []" by (rule tracked_table [OF assms]) blast
  have ci: "client_inv X (cw_impl cw) s" using assms(1) by (simp add: wrapper_inv_def)
  obtain e1 tr s4 where td: "tr_DisableKV (client_now L) n (ci_tableRegistry (cw_impl cw)) s = (e1, tr, s4)" by (metis surj_pair)
  have "e1 = None" using client_inv_disable [OF ci td] t(1) by auto
  moreover have "e = e1" using pc_DisableKV_inv [OF assms(1) x] td assms(2) t(2) by (auto simp: cl_DisableKV_def)
  ultimately show ?thesis using that x by blast
qed

lemma ex_public_open:
  assumes "pc_EnableKV ex_libs ''orders'' [] cw0 s0 = (Inr t, cw, s)" and "wrapper_inv X cw0 s0"
  shows "\<not> ci_closed (cw_impl cw) \<and> pc_GetTable ''orders'' cw = Inr t"
  using pc_EnableKV_inv [OF assms(2,1)] by (auto simp: cl_GetTable_def split: if_splits)

theorem disable_strands_queue_witness:
  "\<exists>cw0 s0 t cw s cw1 s1. NewClient ex_libs (\<lambda>_. Inr ''kvstore: {}'') (Some DefaultConfig) ex_cstate = (Inr cw0, s0) \<and>
     pc_EnableKV ex_libs ''orders'' [] (snd (pc_Start cw0)) s0 = (Inr t, cw, s) \<and> pc_DisableKV ex_libs ''orders'' cw s = (None, cw1, s1) \<and>
     pc_GetDrainer ''orders'' (snd (pc_Start cw1)) = None"
proof -
  obtain cw0 s0 t cw s where n: "NewClient ex_libs (\<lambda>_. Inr ''kvstore: {}'') (Some DefaultConfig) ex_cstate = (Inr cw0, s0)"
    "pc_EnableKV ex_libs ''orders'' [] (snd (pc_Start cw0)) s0 = (Inr t, cw, s)" "(wrapper_step ex_libs {})\<^sup>*\<^sup>* (cw0, s0) (cw, s)"
    "wrapper_inv {} cw s" and d: "\<exists>d. pc_GetDrainer ''orders'' cw = Some d" by (rule ex_public)
  then obtain d where d: "pc_GetDrainer ''orders'' cw = Some d" by blast
  have "\<not> ci_closed (cw_impl cw)"
    using ex_public_open [OF n(2) pc_Start_inv [OF wrapper_inv_reachable [OF n(1) ex_next rtranclp.rtrancl_refl]]] by simp
  then obtain cw1 s1 where x: "pc_DisableKV ex_libs ''orders'' cw s = (None, cw1, s1)" using pc_DisableKV_succeeds [OF n(4) _ d] by blast
  from disable_strands_queue [OF n(1) ex_next n(3) d x] n x show ?thesis by blast
qed

theorem table_switch_bypasses_client_witness:
  "\<exists>cw0 s0 t cw s s1 cw1 s2. NewClient ex_libs (\<lambda>_. Inr ''kvstore: {}'') (Some DefaultConfig) ex_cstate = (Inr cw0, s0) \<and>
     pc_EnableKV ex_libs ''orders'' [] (snd (pc_Start cw0)) s0 = (Inr t, cw, s) \<and> tw_DisableKV t s = (None, s1) \<and>
     pc_EnableKV ex_libs ''orders'' [] cw s1 = (Inr t, cw1, s2) \<and> \<not> ts_enabled (cs_heap s2 (ct_id t))"
proof -
  obtain cw0 s0 t cw s where n: "NewClient ex_libs (\<lambda>_. Inr ''kvstore: {}'') (Some DefaultConfig) ex_cstate = (Inr cw0, s0)"
    "pc_EnableKV ex_libs ''orders'' [] (snd (pc_Start cw0)) s0 = (Inr t, cw, s)" "(wrapper_step ex_libs {})\<^sup>*\<^sup>* (cw0, s0) (cw, s)"
    and d: "\<exists>d. pc_GetDrainer ''orders'' cw = Some d" by (rule ex_public)
  then obtain d where d: "pc_GetDrainer ''orders'' cw = Some d" by blast
  have o: "\<not> ci_closed (cw_impl cw)" "pc_GetTable ''orders'' cw = Inr t"
    using ex_public_open [OF n(2) pc_Start_inv [OF wrapper_inv_reachable [OF n(1) ex_next rtranclp.rtrancl_refl]]] by simp_all
  obtain e s1 where w: "tw_DisableKV t s = (e, s1)" by (metis surj_pair)
  obtain r cw1 s2 where x: "pc_EnableKV ex_libs ''orders'' [] cw s1 = (r, cw1, s2)" by (metis surj_pair)
  from table_switch_bypasses_client [OF n(1) ex_next n(3) o(1) d o(2) w x] n w x show ?thesis by blast
qed

end
