(* ===== verification/Test_Server.thy ===== *)
theory Test_Server
  imports Public_Client Table_Props
begin

text \<open>
  \<^verbatim>\<open>cmd/test-server/main.go\<close>: an HTTP server for payments on top of the client. A handler maps the body or
  the path of a request to a response; a panic, which \<^verbatim>\<open>net/http\<close> turns into an aborted connection, is an
  error result. The text of an error response is represented by the error it is made from, and of the
  headers only the content type is kept. \<^verbatim>\<open>log.Fatalf\<close> ends the program: nothing that was deferred runs.
  Logging, the banner and the routing of \<^verbatim>\<open>net/http\<close> are left out.
\<close>

section \<open>Set-up\<close>

definition server_config :: Config where
  "server_config = DefaultConfig\<lparr>
     ic_KVStore := (ic_KVStore DefaultConfig)\<lparr>ikv_Type := ''dynamodb'', ikv_DynamoDBConfig := \<lparr>idc_Region = ''us-east-1'',
       idc_TableName = ''shock-absorber-cache'', idc_Endpoint = ''http://localhost:4566'', idc_AccessKeyID = ''test'', idc_SecretAccessKey = ''test''\<rparr>\<rparr>,
     ic_Database := (ic_Database DefaultConfig)\<lparr>idb_Host := ''localhost'', idb_Port := 3306, idb_Database := ''testdb'', idb_Username := ''root'',
       idb_Password := ''password''\<rparr>,
     ic_WriteBack := (ic_WriteBack DefaultConfig)\<lparr>iwb_QueueType := ''memory'', iwb_DefaultTTL := 1 * 3600000000000, iwb_DrainRate := 5,
       iwb_KafkaConfig := \<lparr>ikc_Brokers = [''localhost:9092''], ikc_Topic = ''shock-absorber-writeback'',
         ikc_GroupID = ''shock-absorber-writeback'', ikc_BatchSize = 100, ikc_BatchTimeout = 10 * 1000000, ikc_WriteTimeout = 10 * 1000000000,
         ikc_ReadTimeout = 10 * 1000000000, ikc_RequiredAcks = - 1, ikc_MaxMessageBytes = 1000000, ikc_MinBytes = 1,
         ikc_MaxBytes = 10 * 1024 * 1024, ikc_MaxWait = 100 * 1000000\<rparr>\<rparr>\<rparr>"

definition server_setup :: "'e libs \<Rightarrow> (Config \<Rightarrow> string res) \<Rightarrow> 'e cstate \<Rightarrow> ('e clientWrapper \<times> 'e cstate tableWrapper) res \<times> 'e cstate" where
  "server_setup L yaml_Marshal s =
     (case NewClient L yaml_Marshal (Some server_config) s of
        (Inl err, s1) \<Rightarrow> (Inl (Wrapf ''Failed to create shock absorber client: %v'' [] err), s1)
      | (Inr client, s1) \<Rightarrow>
          (case pc_EnableKV L ''payment'' [WithDrainRate 5] client s1 of
             (Inl err, client1, s2) \<Rightarrow> (Inl (Wrapf (''Failed to enable KV for 'payment' table: %v'') [] err), s2)
           | (Inr paymentTable, client1, s2) \<Rightarrow>
               (case pc_Start client1 of
                  (Some err, client2) \<Rightarrow> (Inl (Wrapf ''Failed to start drainer workers: %v'' [] err), s2)
                | (None, client2) \<Rightarrow> (Inr (client2, paymentTable), s2))))"

text \<open>After the signal: the deferred calls, the last one first. Their errors are dropped.\<close>

definition server_shutdown :: "'e libs \<Rightarrow> 'e cstate map_order \<Rightarrow> 'e clientWrapper \<Rightarrow> 'e cstate \<Rightarrow> 'e clientWrapper \<times> 'e cstate" where
  "server_shutdown L iter client s = (let (_, client1) = pc_Stop client; (_, client2, s1) = pc_Close L iter client1 s in (client2, s1))"

section \<open>Handlers\<close>

datatype http_body = ErrorText gerror | JsonText string

record response =
  rsp_Code :: int
  rsp_ContentType :: string
  rsp_Body :: http_body

definition http_Error :: "gerror \<Rightarrow> int \<Rightarrow> response" where
  "http_Error err code = \<lparr>rsp_Code = code, rsp_ContentType = ''text/plain; charset=utf-8'', rsp_Body = ErrorText err\<rparr>"

text \<open>A value that cannot be encoded leaves the body empty; the status has been written before.\<close>

definition json_response :: "int \<Rightarrow> goval \<Rightarrow> response" where
  "json_response code v = \<lparr>rsp_Code = code, rsp_ContentType = ''application/json'',
     rsp_Body = JsonText (case json_Marshal v of Inl _ \<Rightarrow> [] | Inr body \<Rightarrow> body @ [CHR 0x0A])\<rparr>"

text \<open>\<^verbatim>\<open>json.NewDecoder(r.Body).Decode\<close> into a nil map: the first value of the body; what follows it is not read.\<close>

definition json_Decode :: "string \<Rightarrow> grecord option res" where
  "json_Decode body =
     (case parse_val body of
        None \<Rightarrow> Inl (if skip_ws body = [] then Errorf ''EOF'' [] else json_syntax_error)
      | Some (j, rest) \<Rightarrow>
          (case from_json j of
             Inl e \<Rightarrow> Inl e
           | Inr (VMap m) \<Rightarrow> Inr (Some m)
           | Inr VNil \<Rightarrow> Inr None
           | Inr v \<Rightarrow> Inl (Errorf ''json: cannot unmarshal into Go value of type map[string]interface {}'' [type_name v])))"

definition healthHandler :: "('s \<Rightarrow> gotime \<times> 's) \<Rightarrow> bool \<Rightarrow> 's \<Rightarrow> response \<times> 's" where
  "healthHandler now running s =
     (let (ts, s1) = now s in
      (json_response 200 (VMap [(''status'', VString ''ok''), (''timestamp'', VString (RFC3339 ts)),
         (''drainer'', VMap [(''running'', VBool running)])]), s1))"

text \<open>The identifier of a payment that has none.\<close>

definition with_id :: "('s \<Rightarrow> gotime \<times> 's) \<Rightarrow> grecord \<Rightarrow> 's \<Rightarrow> grecord \<times> 's" where
  "with_id now payment s =
     (if map_of payment ''id'' = None
      then let (ts, s1) = now s in (gomap_set payment ''id'' (VString (''pay_'' @ show_int (UnixNano ts))), s1)
      else (payment, s))"

definition payment_created :: "grecord \<Rightarrow> response" where
  "payment_created payment = json_response 201 (VMap [(''message'', VString ''Payment created successfully (in Redis, queued for DB)''), (''payment'', VMap payment)])"

definition payment_exists :: "grecord \<Rightarrow> response" where
  "payment_exists payment = json_response 200 (VMap [(''message'', VString ''Payment already exists''), (''payment'', VMap payment)])"

definition createPayment :: "('s \<Rightarrow> gotime \<times> 's) \<Rightarrow> 's tableWrapper \<Rightarrow> string \<Rightarrow> 's \<Rightarrow> response res \<times> 's" where
  "createPayment now paymentTable body s =
     (case json_Decode body of
        Inl err \<Rightarrow> (Inr (http_Error (Wrapf ''Invalid JSON: %v'' [] err) 400), s)
      | Inr parsed \<Rightarrow>
          (case (case parsed of None \<Rightarrow> None | Some payment \<Rightarrow> map_option (\<lambda>v. (payment, v)) (map_of payment ''upi_reference_id'')) of
             None \<Rightarrow> (Inr (http_Error (Errorf ''upi_reference_id is required'' []) 400), s)
           | Some (payment, VString refID) \<Rightarrow>
               (case tw_FindByField paymentTable ''upi_reference_id'' (VString refID) s of
                  (Inr existingPayment, s1) \<Rightarrow> (Inr (payment_exists existingPayment), s1)
                | (Inl _, s1) \<Rightarrow>
                    (let (payment1, s2) = with_id now payment s1 in
                     case tw_Create paymentTable (Some payment1) s2 of
                       (Some err, s3) \<Rightarrow> (Inr (http_Error (Wrapf ''Failed to create payment: %v'' [] err) 500), s3)
                     | (None, s3) \<Rightarrow> (Inr (payment_created payment1), s3)))
           | Some (payment, v) \<Rightarrow> (Inl (Panic (''interface conversion: interface {} is '' @ (if v = VNil then ''nil'' else type_name v) @ '', not string'')), s)))"

definition paymentHandler :: "('s \<Rightarrow> gotime \<times> 's) \<Rightarrow> 's tableWrapper \<Rightarrow> string \<Rightarrow> string \<Rightarrow> 's \<Rightarrow> response res \<times> 's" where
  "paymentHandler now paymentTable verb body s =
     (if verb = ''POST'' then createPayment now paymentTable body s
      else (Inr (http_Error (Errorf ''Method not allowed'' []) 405), s))"

text \<open>The slice expression panics when the path is shorter than the prefix, which the routing excludes.\<close>

definition getPaymentByReferenceHandler :: "'s tableWrapper \<Rightarrow> string \<Rightarrow> string \<Rightarrow> 's \<Rightarrow> response res \<times> 's" where
  "getPaymentByReferenceHandler paymentTable verb path s =
     (let n = length ''/payment/reference/''; refID = drop n path in
      if verb \<noteq> ''GET'' then (Inr (http_Error (Errorf ''Method not allowed'' []) 405), s)
      else if length path < n then (Inl (Panic ''runtime error: slice bounds out of range''), s)
      else if refID = [] then (Inr (http_Error (Errorf ''Reference ID required'' []) 400), s)
      else case tw_FindByField paymentTable ''upi_reference_id'' (VString refID) s of
        (Inl err, s1) \<Rightarrow> (Inr (http_Error (Wrapf ''Payment not found: %v'' [] err) 404), s1)
      | (Inr payment, s1) \<Rightarrow> (Inr (json_response 200 (VMap payment)), s1))"

section \<open>Properties\<close>

text \<open>A table that is the whole state.\<close>

definition own_table :: "'w TableImpl \<Rightarrow> 'w tstate core_table" where
  "own_table t = core_table_of 0 (\<lambda>s. s) (\<lambda>s _. s) t"

lemma via_self: "via (\<lambda>s. s) (\<lambda>s _. s) f s = f s"
  by (simp add: via_def split: prod.splits)

lemma own_table_calls: "tw_Create (own_table t) r s = Create t r s" "tw_FindByField (own_table t) f v s = FindByField t f v s"
  by (simp_all add: own_table_def core_table_of_def tw_Create_def tw_FindByField_def via_self)

definition reference_query :: "'w TableImpl \<Rightarrow> string" where
  "reference_query t = ''SELECT '' @ sch_PrimaryKey (tb_schema t) @ '' FROM '' @ tb_tableName t @ '' WHERE upi_reference_id = ? LIMIT 1''"

lemma find_nothing:
  assumes "tb_database t = world_db" and "\<not> w_down (env s)" and "rows_data (w_rows (env s) (reference_query t, [v])) = []"
  shows "\<exists>err. FindByField t ''upi_reference_id'' v s = (Inl err, s)"
proof -
  have w: "with_env (env s) s = s" by (simp add: with_env_def env_def)
  have q: "on_env (db_Query (tb_database t) (reference_query t) [v]) s = (Inr (w_rows (env s) (reference_query t, [v])), s)"
    using assms(1,2) w by (simp add: on_env_iff world_db_def)
  have "''SELECT '' @ sch_PrimaryKey (tb_schema t) @ '' FROM '' @ tb_tableName t @ '' WHERE '' @ ''upi_reference_id'' @ '' = ? LIMIT 1'' = reference_query t"
    by (simp add: reference_query_def)
  then show ?thesis using q assms(3) by (simp add: FindByField_def Let_def)
qed

text \<open>The clock of the world stands still while a table works, so an identifier made from it does not change.\<close>

lemma world_time:
  "kv_Set world_kv k v ttl w = (e, w') \<Longrightarrow> fst (world_clock w') = fst (world_clock w)"
  "q_Enqueue world_queue x w = (e, w') \<Longrightarrow> fst (world_clock w') = fst (world_clock w)"
proof -
  have clk: "fst (world_clock w') = fst (world_clock w)" if "rr_now (rs_server (w_redis w')) = rr_now (rs_server (w_redis w))" for w w'
    using redis_clock_now [OF that] by (simp add: world_clock_def via_def Let_def split_beta)
  show "kv_Set world_kv k v ttl w = (e, w') \<Longrightarrow> fst (world_clock w') = fst (world_clock w)"
    by (rule clk) (auto simp: world_kv_def kv_via_def via_iff put_redis_def redis_kvstore_def Redis_Set_def on_server_def ref_client_def Let_def
        split: if_splits prod.splits)
  show "q_Enqueue world_queue x w = (e, w') \<Longrightarrow> fst (world_clock w') = fst (world_clock w)"
    by (rule clk) (auto simp: world_calls put_queue_def server_frame_def dest: ref_Enqueue_frame)
qed

lemma Create_time:
  assumes "built_on world_kv world_queue world_db world_clock t" and "ts_enabled s" and "Create t r s = (e, s')"
  shows "fst (world_clock (env s')) = fst (world_clock (env s))"
proof -
  have b: "tb_now t = world_clock" "tb_kvStore t = world_kv" "tb_writeQueue t = world_queue" using assms(1) by (auto simp: built_on_def)
  show ?thesis
  proof (rule Create_inv [where P = "\<lambda>w. fst (world_clock w) = fst (world_clock (env s))", OF assms(3,2)], goal_cases)
    case (2 w ts w')
    then show ?case using world_clock_same unfolding b by metis
  next
    case (3 w k v ttl e w')
    then show ?case using world_time(1) unfolding b by metis
  next
    case (4 w x e w')
    then show ?case using world_time(2) unfolding b by metis
  next
    case (5 w n w')
    then show ?case using world_size unfolding b by metis
  qed simp
qed

lemma with_id_world: "with_id (on_env world_clock) p s = (q, s') \<Longrightarrow> s' = s"
  by (auto simp: with_id_def on_env_iff with_env_def env_def Let_def dest!: world_clock_same split: if_splits prod.splits)

lemma with_id_time:
  assumes "fst (world_clock (env s)) = fst (world_clock (env s'))"
  shows "fst (with_id (on_env world_clock) p s) = fst (with_id (on_env world_clock) p s')"
proof -
  have o: "fst (on_env world_clock x) = fst (world_clock (env x))" for x by (simp add: on_env_via via_def Let_def split_beta)
  show ?thesis using assms by (simp add: with_id_def Let_def split_beta o)
qed

text \<open>A payment that the table can store, log and queue.\<close>

definition creatable :: "world TableImpl \<Rightarrow> grecord \<Rightarrow> bool" where
  "creatable t r \<longleftrightarrow>
     (let pk = field (Some r) (sch_PrimaryKey (tb_schema t)) in
      case ToKV NewTranslator (tb_tz t) (Some r) (Some (tb_schema t)) of
        Inl _ \<Rightarrow> False
      | Inr (key, _) \<Rightarrow> \<not> world_reserved key \<and> \<not> wal_key key \<and> queueable t pk (Some r) \<and> loggable pk key)"

lemma creatable_created:
  assumes "world_ok (env s)" and "world_ready (env s)" and "built_on world_kv world_queue world_db world_clock t" and "ts_enabled s" and "creatable t r"
  obtains s1 op where "Create t (Some r) s = (None, s1)" "world_ok (env s1)" "world_ready (env s1)" "ts_enabled s1" "same_db (env s) (env s1)"
    "op_Operation op = OperationCreate" "op_Data op = Some r" "world_pending (env s1) = world_pending (env s) @ [op_image op]"
proof -
  let ?pk = "field (Some r) (sch_PrimaryKey (tb_schema t))"
  obtain key val where kv: "ToKV NewTranslator (tb_tz t) (Some r) (Some (tb_schema t)) = Inr (key, val)"
    and c: "\<not> world_reserved key" "\<not> wal_key key" "queueable t ?pk (Some r)" "loggable ?pk key"
    using assms(5) by (auto simp: creatable_def Let_def split: sum.splits prod.splits)
  obtain s1 where s1: "Create t (Some r) s = (None, s1)" using tw.Create_live [OF assms(1-4) kv c(1,3,4)] by blast
  obtain w1 op where w1: "s1 = with_env w1 s" "world_ok w1" "\<forall>k. k \<noteq> key \<longrightarrow> \<not> wal_key k \<longrightarrow> world_content w1 k = world_content (env s) k"
    "op_Operation op = OperationCreate" "op_Data op = Some r" "world_pending w1 = world_pending (env s) @ [op_image op]"
    using tw.Create_effect [OF assms(1,3,4) kv c(1-3) s1] by auto
  note db = Create_drain_ok [OF assms(3,4) s1]
  have same: "world_content w1 k = world_content (env s) k" if "world_reserved k" for k
  proof -
    have "k \<noteq> key" "\<not> wal_key k" using that c(1) tw.wal_unreserved [of k] by auto
    then show ?thesis using w1(3) by simp
  qed
  have str: "ref_keys (rs_server (w_redis w)) k = Some (RStr x) \<longleftrightarrow> world_content w k = Some x" for w k x
    by (auto simp: world_content_def ref.redis_content_def split: option.splits redis_val.splits)
  have "world_ready w1" using assms(2) w1(1,2) db same by (simp add: world_ready_def str world_ok_def)
  then show ?thesis using that [OF s1, of op] w1 db assms(4) by simp
qed

text \<open>
  C40. A payment that is still queued is not seen. The check for an existing payment asks the database only.
  In an environment whose calls succeed (a store and a queue that are open, a database that is up and
  has no payment with the reference), two payments with the same reference that the table can store
  are both created: the first request is answered with status 201, and so is the second, which comes
  while the first payment is still on its way to the database, and the creations of both are queued
  for it. A payment without an identifier is created with one made from the clock.
\<close>

theorem queued_payment_is_not_seen:
  assumes "world_ok (env s)" and "world_ready (env s)" and "built_on world_kv world_queue world_db world_clock t" and "ts_enabled s"
    and "\<not> w_down (env s)" and "rows_data (w_rows (env s) (reference_query t, [VString ref])) = []"
    and "json_Decode body1 = Inr (Some p1)" and "map_of p1 ''upi_reference_id'' = Some (VString ref)"
    and "json_Decode body2 = Inr (Some p2)" and "map_of p2 ''upi_reference_id'' = Some (VString ref)"
    and "q1 = fst (with_id (on_env world_clock) p1 s)" and "q2 = fst (with_id (on_env world_clock) p2 s)"
    and "creatable t q1" and "creatable t q2"
  shows "\<exists>s1 s2 op1 op2. createPayment (on_env world_clock) (own_table t) body1 s = (Inr (payment_created q1), s1) \<and>
    createPayment (on_env world_clock) (own_table t) body2 s1 = (Inr (payment_created q2), s2) \<and>
    rsp_Code (payment_created q1) = 201 \<and> rsp_Code (payment_created q2) = 201 \<and>
    op_Operation op1 = OperationCreate \<and> op_Data op1 = Some q1 \<and> op_Operation op2 = OperationCreate \<and> op_Data op2 = Some q2 \<and>
    world_pending (env s2) = world_pending (env s) @ [op_image op1, op_image op2]"
proof -
  have db: "tb_database t = world_db" using assms(3) by (simp add: built_on_def)
  have answered: "createPayment (on_env world_clock) (own_table t) body x = (Inr (payment_created q), y)"
    if "\<not> w_down (env x)" "rows_data (w_rows (env x) (reference_query t, [VString ref])) = []" "json_Decode body = Inr (Some p)"
      "map_of p ''upi_reference_id'' = Some (VString ref)" "q = fst (with_id (on_env world_clock) p x)" "Create t (Some q) x = (None, y)" for x y body p q
  proof -
    note h = that
    obtain err where f: "FindByField t ''upi_reference_id'' (VString ref) x = (Inl err, x)" using find_nothing [OF db h(1,2)] by blast
    obtain z where z: "with_id (on_env world_clock) p x = (q, z)" using h(5) by (metis prod.collapse)
    then have "z = x" by (rule with_id_world)
    then show ?thesis using that(3,4,6) f z by (simp add: createPayment_def own_table_calls)
  qed
  obtain s1 op1 where s1: "Create t (Some q1) s = (None, s1)" "world_ok (env s1)" "world_ready (env s1)" "ts_enabled s1" "same_db (env s) (env s1)"
    "op_Operation op1 = OperationCreate" "op_Data op1 = Some q1" "world_pending (env s1) = world_pending (env s) @ [op_image op1]"
    by (rule creatable_created [OF assms(1-4,13)])
  obtain s2 op2 where s2: "Create t (Some q2) s1 = (None, s2)" "op_Operation op2 = OperationCreate" "op_Data op2 = Some q2"
    "world_pending (env s2) = world_pending (env s1) @ [op_image op2]"
    by (rule creatable_created [OF s1(2,3) assms(3) s1(4) assms(14)]) blast
  have q2: "q2 = fst (with_id (on_env world_clock) p2 s1)"
    using with_id_time [OF Create_time [OF assms(3,4) s1(1)]] assms(12) by simp
  have "createPayment (on_env world_clock) (own_table t) body1 s = (Inr (payment_created q1), s1)"
    by (rule answered [OF assms(5-8,11) s1(1)])
  moreover have "createPayment (on_env world_clock) (own_table t) body2 s1 = (Inr (payment_created q2), s2)"
    using s1(5) assms(5,6) by (intro answered [OF _ _ assms(9,10) q2 s2(1)]) (simp_all add: same_db_def)
  ultimately show ?thesis using s1 s2 by (intro exI conjI) (auto simp: payment_created_def json_response_def)
qed

text \<open>A table of payments in the Redis world whose database has no rows.\<close>

definition ex_pay_schema :: schema where
  "ex_pay_schema = \<lparr>sch_TableName = ''payment'', sch_PrimaryKey = ''id'',
     sch_Columns = [\<lparr>col_Name = ''id'', col_Type = ''VARCHAR(255)'', col_Nullable = False, col_Default = VNil\<rparr>,
                    \<lparr>col_Name = ''upi_reference_id'', col_Type = ''VARCHAR(255)'', col_Nullable = False, col_Default = VNil\<rparr>], sch_Indexes = []\<rparr>"

definition ex_pay_state :: "world tstate" where
  "ex_pay_state = with_env (ex_world\<lparr>w_rows := (\<lambda>_. \<lparr>rows_data = [], rows_Err = None\<rparr>)\<rparr>) ex_state"

definition ex_pay_table :: "world TableImpl" where
  "ex_pay_table = fst (NewTableImpl ''payment'' ex_pay_schema world_kv world_db world_queue 0 [] world_clock utc ex_world)"

definition ex_body :: "string \<Rightarrow> string" where
  "ex_body i = ''{\"id\":\"'' @ i @ ''\",\"upi_reference_id\":\"r1\"}''"

definition ex_payment :: "string \<Rightarrow> grecord" where
  "ex_payment i = [(''id'', VString i), (''upi_reference_id'', VString ''r1'')]"

theorem queued_payment_is_not_seen_witness:
  "\<exists>s1 s2 op1 op2. createPayment (on_env world_clock) (own_table ex_pay_table) (ex_body ''p1'') ex_pay_state = (Inr (payment_created (ex_payment ''p1'')), s1) \<and>
     createPayment (on_env world_clock) (own_table ex_pay_table) (ex_body ''p2'') s1 = (Inr (payment_created (ex_payment ''p2'')), s2) \<and>
     op_Data op1 = Some (ex_payment ''p1'') \<and> op_Data op2 = Some (ex_payment ''p2'') \<and>
     world_pending (env s2) = world_pending (env ex_pay_state) @ [op_image op1, op_image op2]"
proof -
  have b: "built_on world_kv world_queue world_db world_clock ex_pay_table" unfolding ex_pay_table_def by (rule NewTableImpl_built)
  have t: "tb_tableName ex_pay_table = ''payment''" "tb_schema ex_pay_table = ex_pay_schema" "tb_tz ex_pay_table = utc"
    by (simp_all add: ex_pay_table_def NewTableImpl_def)
  have ok: "world_ok (env ex_pay_state)" "world_ready (env ex_pay_state)" "ts_enabled ex_pay_state" "\<not> w_down (env ex_pay_state)"
    "rows_data (w_rows (env ex_pay_state) (reference_query ex_pay_table, [VString ''r1''])) = []"
    using ex_world_ok by (simp_all add: ex_pay_state_def world_ok_def world_ready_def ex_world_def)
  have d: "json_Decode (ex_body ''p1'') = Inr (Some (ex_payment ''p1''))" "json_Decode (ex_body ''p2'') = Inr (Some (ex_payment ''p2''))" by code_simp+
  have p: "map_of (ex_payment i) ''upi_reference_id'' = Some (VString ''r1'')" "fst (with_id c (ex_payment i) x) = ex_payment i" for i c x
    by (simp_all add: ex_payment_def with_id_def)
  have cr: "creatable ex_pay_table (ex_payment ''p1'')" "creatable ex_pay_table (ex_payment ''p2'')"
    unfolding creatable_def queueable_def t by code_simp+
  show ?thesis
    using queued_payment_is_not_seen [OF ok(1,2) b ok(3-5) d(1) p(1) d(2) p(1) p(2) [symmetric] p(2) [symmetric] cr] by blast
qed

text \<open>
  A reference that is not a string aborts the request. The field is checked to be present and then
  asserted to be a string; a number there makes the handler panic.
\<close>

theorem non_string_reference_panics:
  assumes "json_Decode body = Inr (Some p)" and "map_of p ''upi_reference_id'' = Some v" and "\<And>r. v \<noteq> VString r"
  shows "\<exists>msg. createPayment now t body s = (Inl (Panic msg), s)"
  using assms by (cases v) (auto simp: createPayment_def)

theorem non_string_reference_panics_witness:
  "\<exists>msg. createPayment (on_env world_clock) (own_table ex_pay_table) ''{\"upi_reference_id\":true}'' ex_pay_state = (Inl (Panic msg), ex_pay_state)"
proof -
  have "json_Decode ''{\"upi_reference_id\":true}'' = Inr (Some [(''upi_reference_id'', VBool True)])" by code_simp
  then show ?thesis by (rule non_string_reference_panics [of _ _ "VBool True"]) simp_all
qed

end
