(* ===== verification/Spec2Isabelle.thy ===== *)
theory Spec2Isabelle
  imports Write_Validator Store_Instances Test_Server
begin

text \<open>
  A model of Shock Absorber, a Go library that puts a key-value store and a write-back queue in front
  of a MySQL database: writes go to the store and to the queue and are acknowledged, a background worker
  drains the queue into the database at a limited rate, reads ask the store first.

  \<^bold>\<open>The program and how its parts interact.\<close>
  An application holds a \<^verbatim>\<open>pkg/shockabsorber\<close> client, which wraps the client of \<^verbatim>\<open>internal/client\<close> and adds a
  manager of drainers. The internal client loads and checks a configuration (\<^verbatim>\<open>internal/registry\<close>), opens
  a store through the factories of \<^verbatim>\<open>internal/kvstore\<close> and the database of \<^verbatim>\<open>internal/database\<close>, and for every
  table that is enabled discovers the schema, builds a queue of \<^verbatim>\<open>internal/writeback\<close> and a table of
  \<^verbatim>\<open>internal/table\<close>, and keeps it in the table registry, whose lifecycle hooks run on every switch. A table
  translates records with \<^verbatim>\<open>internal/schema\<close>, logs them with \<^verbatim>\<open>internal/write\<close>, writes them to the store and
  the queue, and reads through \<^verbatim>\<open>internal/read\<close>. A drainer takes operations from the queue and hands them back
  to the table, which executes the statement on the database.

  \<^bold>\<open>Conventions.\<close> A struct is a record, a Go interface a record of functions over an explicit state, an
  error a value of type \<open>gerror\<close> whose format string and arguments are kept, a fallible result a sum, a
  panic an error built with \<open>Panic\<close>. A Go map is an association list whose order stands for the order of
  iteration. Machine integers of records are words of their width, floats are IEEE 754 values over the
  rationals, text is a list of bytes. Definitions carry the names of the source, prefixed by their
  component where two components share a name (\<open>rq_Enqueue\<close> of the Redis queue, \<open>kq_Enqueue\<close> of the Kafka queue,
  \<open>cl_EnableKV\<close> of the internal client, \<open>pc_EnableKV\<close> of the public one).

  \<^bold>\<open>Theories, bottom up.\<close>
  \<^item> \<^verbatim>\<open>Go_Prelude\<close>, \<^verbatim>\<open>Go_Value\<close>, \<^verbatim>\<open>Go_Json\<close>, \<^verbatim>\<open>Go_Scan\<close>: the language and the standard library the program uses.
    The lemmas show that printed JSON parses back to the same document and what each kind of Go value
    becomes on the way.
  \<^item> \<^verbatim>\<open>Core_Types\<close> (\<^verbatim>\<open>internal/core\<close>): schemas, write operations with their codec, the interfaces, and the contracts
    \<open>kv_contract\<close> and \<open>queue_contract\<close> that stores and queues promise.
  \<^item> \<^verbatim>\<open>Schema_Mapper\<close>, \<^verbatim>\<open>Schema_Validator\<close>, \<^verbatim>\<open>Schema_Translator\<close> (\<^verbatim>\<open>internal/schema\<close>): conversion of values by
    column type, validation, records to cache entries and SQL and back. Shown: the round trip through
    the store, the announced types, when the translations succeed, wrap-around and its limits.
  \<^item> \<^verbatim>\<open>Write_Validator\<close>, \<^verbatim>\<open>Write_WAL\<close>, \<^verbatim>\<open>Write_Buffer\<close> (\<^verbatim>\<open>internal/write\<close>): the second validator, the log, the buffer.
    Shown: an appended entry is read back; under any interleaving of callers, flusher and \<^verbatim>\<open>Close\<close> every
    write the buffer accepted is taken by exactly one flush, in order, or still buffered.
  \<^item> \<^verbatim>\<open>Config_Types\<close>, \<^verbatim>\<open>KV_Redis\<close>, \<^verbatim>\<open>KV_Dynamo\<close>, \<^verbatim>\<open>KV_Factory\<close> (\<^verbatim>\<open>internal/kvstore\<close>): the stores over the laws
    \<open>redis_laws\<close> and \<open>dynamo_laws\<close> of their servers, each shown to keep \<open>kv_contract\<close>, and each law discharged on a
    reference server with a clock and expiry.
  \<^item> \<^verbatim>\<open>Queue_Memory\<close>, \<^verbatim>\<open>Queue_Redis\<close>, \<^verbatim>\<open>Queue_Kafka\<close> (\<^verbatim>\<open>internal/writeback\<close>): three queues that refine a list of
    pending operations, \<open>queue_contract\<close>; what is lost or never delivered around it.
  \<^item> \<^verbatim>\<open>Read_Cache\<close>, \<^verbatim>\<open>Read_Fallback\<close>, \<^verbatim>\<open>Read_Consistency\<close> (\<^verbatim>\<open>internal/read\<close>): cache reads behind the stampede guard,
    reads of the database that fill the cache from a goroutine, the two consistency levels.
  \<^item> \<^verbatim>\<open>Table_Impl\<close>, \<^verbatim>\<open>Table_World\<close>, \<^verbatim>\<open>Table_Props\<close>, \<^verbatim>\<open>Table_Writeback\<close> (\<^verbatim>\<open>internal/table\<close>): the operations of a table
    over the contract \<open>table_env\<close> of its collaborators, discharged on a Redis world. Shown: what a creation
    and an update do on every path, that a created record is read back, that the write-back executes
    the statement of a direct write, and where deletions, namespaces and failures break this.
  \<^item> \<^verbatim>\<open>Drainer\<close> (\<^verbatim>\<open>pkg/shockabsorber/drainer.go\<close>): the worker, its hand-over between \<^verbatim>\<open>Start\<close> and \<^verbatim>\<open>Stop\<close>, the manager.
    Shown: operations are executed in order and all of them, one worker at a time, a stop ends.
  \<^item> \<^verbatim>\<open>Lifecycle\<close>, \<^verbatim>\<open>Config_Manager\<close>, \<^verbatim>\<open>Table_Registry\<close> (\<^verbatim>\<open>internal/registry\<close>): hooks, the configuration that is
    installed only when it validates, the registry whose metadata agree with the tables.
  \<^item> \<^verbatim>\<open>MySQL_Database\<close> (\<^verbatim>\<open>internal/database\<close>): the connection string, statements, schema discovery.
  \<^item> \<^verbatim>\<open>Internal_Client\<close> (\<^verbatim>\<open>internal/client\<close>): the client over all of the above, its invariant under every sequence
    of operations, enabling and disabling, the closed client.
  \<^item> \<^verbatim>\<open>Public_Config\<close>, \<^verbatim>\<open>Public_Client\<close> (\<^verbatim>\<open>pkg/shockabsorber\<close>): the configuration that travels between the packages as
    YAML, the table wrapper, the options, the client whose drainers match its enabled tables.
  \<^item> \<^verbatim>\<open>Test_Server\<close> (\<^verbatim>\<open>cmd/test-server\<close>): the payments server on the public client.
  \<^item> \<^verbatim>\<open>Store_Instances\<close> and this theory: properties of components put together.

  \<^bold>\<open>Parameters.\<close> Third-party packages are arguments: the clients of go-redis, the AWS SDK and kafka-go, database/sql
  with its driver, the YAML decoder and encoder, the rate limiter, and with them the clock, the file
  system, the environment and the iteration orders of maps that no list carries. What a property needs of them
  is an assumption of a locale or of the property, and the reference servers show that it can hold.

  \<^bold>\<open>Bounds and termination.\<close> Every function is total. The drainer's loop may run for ever; it is given the list of
  signals it sees, one per iteration, and every result is about all such lists: as many iterations as
  operations are pending suffice. The loops of the Redis and Kafka queues count their batch size down.
  The hand-over of \<^verbatim>\<open>Stop\<close> is bounded by four steps of the goroutines involved. The JSON parser recurses over
  the rest of the text, which every step shortens.

  \<^bold>\<open>Not modelled.\<close> Log output and statistics for people; mutexes (an operation that holds one from its first
  to its last access is one step) and interleavings of goroutines other than those of the buffer, the
  memory queue, the drainer and the fills and clean-ups of the read path, which are transition systems
  or pending steps; cancellation of contexts except where a parameter stands for it; the codec of
  \<^verbatim>\<open>CacheMetadata\<close>, which nothing calls; the nesting limit of the JSON decoder; negative zero and monotonic
  clock readings; nil hooks; the routing of \<^verbatim>\<open>net/http\<close>; the shell scripts and the vendored packages.
\<close>

section \<open>From the client to the database\<close>

text \<open>
  C1. A created record reaches the database. A table whose cache and queue live on one Redis server,
  with the database up and the queue open: creating a record that is storable and whose values
  survive the queue succeeds, and a drainer that is not stopped for as many iterations as there are
  operations queued then leaves the queue empty, having executed, after the statements of what was
  queued before and in their order, exactly one more: the \<^verbatim>\<open>INSERT\<close> that \<^verbatim>\<open>ToDB\<close> gives for the record.
\<close>

theorem create_reaches_database:
  assumes "drain_ok s" and "world_ready (env s)" and "built_on world_kv world_queue world_db world_clock t" and "ts_enabled s"
    and "gomap_wf r" and "map_of r (sch_PrimaryKey (tb_schema t)) = Some pk" and "record_exact (tb_schema t) r"
    and "ToKV NewTranslator (tb_tz t) (Some r) (Some (tb_schema t)) = Inr (key, val)"
    and "ToDB NewTranslator (tb_tz t) (Some r) (Some (tb_schema t)) = Inr stmt"
    and "\<not> world_reserved key" and "\<not> wal_key key" and "queueable t pk (Some r)" and "loggable pk key"
    and "list_all Not signals" and "length (world_pending (env s)) < length signals"
  shows "\<exists>s1 s2. Create t (Some r) s = (None, s1) \<and>
    run (\<lambda>_ _ s. (None, s)) (NewDrainer (tb_tableName t) table_queue (table_executor t) config) signals s1 =
      (int (length (world_pending (env s))) + 1, s2) \<and>
    world_pending (env s2) = [] \<and>
    w_log (env s2) = w_log (env s) @ concat (map (statement_of t) (world_pending (env s))) @ [stmt]"
proof -
  let ?d = "NewDrainer (tb_tableName t) table_queue (table_executor t) config"
  have tr: "tb_translator t = NewTranslator" using assms(3) by (simp add: built_on_def)
  have f: "field (Some r) (sch_PrimaryKey (tb_schema t)) = pk" using assms(6) by (simp add: field_def)
  have ok: "world_ok (env s)" using assms(1) by (simp add: drain_ok_def)
  obtain s1 where s1: "Create t (Some r) s = (None, s1)"
    using tw.Create_live [OF ok assms(2-4,8,10)] f assms(12,13) by auto
  obtain w1 op where op: "s1 = with_env w1 s" "world_ok w1" "op_Operation op = OperationCreate" "op_Data op = Some r"
    "world_pending w1 = world_pending (env s) @ [op_image op]"
    using tw.Create_effect [OF ok assms(3,4,8,10,11) _ s1] f assms(12) by auto
  have db: "same_db (env s) w1" "rq_closed (w_queue w1) = rq_closed (w_queue (env s))"
    using Create_drain_ok [OF assms(3,4) s1] op(1) by simp_all
  have dk: "drain_ok s1" using assms(1) op(1,2) db by (simp add: drain_ok_def same_db_def)
  obtain n s2 where run: "drain_run ?d (\<lambda>s. (None, s)) signals 0 s1 = (n, s2)" by (metis surj_pair)
  have v: "ValidateRecord (tb_tz t) (Some (tb_schema t)) (Some r) = None"
    using assms(8) by (auto simp: ToKV_def split: option.splits)
  have st: "statement_of t (op_image op) = [stmt]"
    using op(3,4) assms(9) tr ToDB_image [OF assms(5) v assms(7)] by (simp add: statement_of_def write_statement_def op_image_def)
  have "length (world_pending (env s1)) \<le> length signals" using op(1,5) assms(15) by simp
  then obtain xs where xs: "world_pending (env s1) = xs @ world_pending (env s2)" "n = int (length xs)"
    "w_log (env s2) = w_log (env s1) @ concat (map (statement_of t) xs)" "world_pending (env s2) = []"
    using steady_drain_env.drain_run_prefix [OF table_steady [OF assms(3)] _ _ _ dk run] assms(14)
    by (metis NewDrainer_simps add_0 table_executor_simps)
  then have "xs = world_pending (env s) @ [op_image op]" using op(1,5) by simp
  then show ?thesis using s1 run xs st db(1) op(1) by (auto simp: run_def same_db_def)
qed

theorem create_reaches_database_witness:
  "\<exists>s1 s2 stmt. Create (ex_table []) (Some ex_safe_record) ex_state = (None, s1) \<and>
     run (\<lambda>_ _ s. (None, s)) (NewDrainer ''users'' table_queue (table_executor (ex_table [])) DefaultDrainerConfig) [False] s1 = (1, s2) \<and>
     ToDB NewTranslator utc (Some ex_safe_record) (Some ex_schema) = Inr stmt \<and> w_log (env s2) = [stmt]"
proof -
  let ?r = ex_safe_record
  have r: "gomap_wf ?r" "record_exact ex_schema ?r" "map_of ?r (sch_PrimaryKey ex_schema) = Some (VInt64 7)"
    "ValidateRecord utc (Some ex_schema) (Some ?r) = None" "storable utc ex_schema ?r" "json_plain (VMap ?r)"
    "\<not> is_err (ToDB NewTranslator utc (Some ?r) (Some ex_schema))" by code_simp+
  have k: "sch_TableName ex_schema @ '':'' @ show_v (VInt64 7) = ''users:7''" by code_simp
  obtain val where v: "ToKV NewTranslator utc (Some ?r) (Some ex_schema) = Inr (''users:7'', val)"
    using ToKV_FromKV_stored [OF r(1,4,3,5), of NewTranslator "[]"] k by auto
  obtain stmt where st: "ToDB NewTranslator utc (Some ?r) (Some ex_schema) = Inr stmt" using r(7) by (auto simp: not_err_iff)
  have qu: "queueable (ex_table []) (VInt64 7) (Some ?r)" using ex_record_queueable(1) [of "[]"] r(6) by (simp add: queueable_def)
  have p: "world_pending ex_world = []"
    by (simp add: world_pending_def rref.rq_pending_def rref.glist_def list_at_def ref_keys_def ref_lookup_def ex_world_def)
  have l: "w_log ex_world = []" "drain_ok ex_state" using ex_world_ok by (simp_all add: drain_ok_def ex_world_def)
  obtain s1 s2 where "Create (ex_table []) (Some ?r) ex_state = (None, s1)"
    "run (\<lambda>_ _ s. (None, s)) (NewDrainer ''users'' table_queue (table_executor (ex_table [])) DefaultDrainerConfig) [False] s1 = (1, s2)"
    "w_log (env s2) = [stmt]"
    using create_reaches_database [where s = ex_state and t = "ex_table []" and r = ?r and pk = "VInt64 7" and key = "''users:7''" and val = val
      and stmt = stmt and signals = "[False]" and config = DefaultDrainerConfig, OF l(2) _ ex_table_built]
      r(1-3) v st qu ex_record_queueable(2) ex_key_free ex_world_ok(2) p l(1) by auto
  then show ?thesis using st by blast
qed

section \<open>Several tables on one queue\<close>

lemma world_Delete_live:
  assumes "drain_ok s" and "world_ready (env s)" and "built_on world_kv world_queue world_db world_clock t" and "ts_enabled s"
    and "queueable t key None" and "loggable key (BuildKey (tb_namespace t) (tb_tableName t) key)"
    and "\<not> world_reserved (BuildKey (tb_namespace t) (tb_tableName t) key)"
  obtains s1 op where "Delete t key s = (None, s1)" "drain_ok s1" "op_Operation op = OperationDelete" "op_Key op = key" "op_Table op = tb_tableName t"
    "world_pending (env s1) = world_pending (env s) @ [op_image op]" "w_log (env s1) = w_log (env s)"
proof -
  let ?k = "BuildKey (tb_namespace t) (tb_tableName t) key" and ?P = "\<lambda>w. same_db (env s) w \<and> rq_closed (w_queue w) = rq_closed (w_queue (env s))"
  have ok: "world_ok (env s)" using assms(1) by (simp add: drain_ok_def)
  have b: "tb_now t = world_clock" "tb_kvStore t = world_kv" "tb_writeQueue t = world_queue" using assms(3) by (auto simp: built_on_def)
  obtain w1 where d: "kv_Delete world_kv ?k (env s) = (None, w1)" using tw.delete_live [OF ok] by blast
  have w1: "world_ok w1" "world_ready w1" using world_delete [OF ok d] assms(2) by auto
  have p1: "?P w1" using world_same_db(2) [OF d] d by (auto simp: world_calls put_redis_def)
  obtain s1 where l: "log_and_enqueue t OperationDelete key None ?k None (with_env w1 s) = (None, s1)"
    using tw.log_and_enqueue_live [OF _ _ assms(3,5,6), of "with_env w1 s" OperationDelete None] w1 by auto
  have c: "on_env (kv_Delete (tb_kvStore t) ?k) s = (None, with_env w1 s)" using d b by (simp add: on_env_iff)
  have del: "Delete t key s = (None, s1)" using c l assms(4) by (simp add: Delete_def)
  have p: "?P (env s1)"
  proof (rule log_and_enqueue_inv [where P = ?P, OF l], goal_cases)
    case (2 w ts w')
    then show ?case using world_same_db(4) world_keeps_closed(2) same_db_trans unfolding b by blast
  next
    case (3 w k v ttl e w')
    then show ?case using world_same_db(1) world_keeps_closed(1) same_db_trans unfolding b by blast
  next
    case (4 w x e w')
    then show ?case using world_same_db(5) world_enqueue_closed same_db_trans unfolding b by blast
  qed (use p1 in simp)
  obtain op where op: "world_ok (env s1)" "op_Operation op = OperationDelete" "op_Key op = key" "op_Table op = tb_tableName t"
    "world_pending (env s1) = world_pending (env s) @ [op_image op]"
    using tw.Delete_effect [OF ok assms(3,4,5,7) del] by (metis with_env_simps(1))
  show ?thesis by (rule that [OF del _ op(2-5)]) (use assms(1) op(1) p in \<open>auto simp: drain_ok_def same_db_def\<close>)
qed

text \<open>
  C26. Tables that share a queue execute each other's writes. The Redis queue has one list for all tables,
  and executing an operation ignores the table it was queued for. So when one table deletes a record
  and it is the drainer of another table that takes the operation, the row with that key is deleted
  from the other table, and the first table keeps its row: the queue is empty afterwards.
\<close>

theorem shared_queue_crosses_tables:
  assumes "drain_ok s" and "world_ready (env s)" and "world_pending (env s) = []" and "ts_enabled s"
    and "built_on world_kv world_queue world_db world_clock t1" and "built_on world_kv world_queue world_db world_clock t2"
    and "queueable t1 key None" and "loggable key (BuildKey (tb_namespace t1) (tb_tableName t1) key)"
    and "\<not> world_reserved (BuildKey (tb_namespace t1) (tb_tableName t1) key)"
  shows "\<exists>s1 s3. Delete t1 key s = (None, s1) \<and>
    run (\<lambda>_ _ s. (None, s)) (NewDrainer (tb_tableName t2) table_queue (table_executor t2) config) [False] (with_env (env s1) s2) = (1, s3) \<and>
    world_pending (env s3) = [] \<and>
    w_log (env s3) = w_log (env s) @ [(''DELETE FROM '' @ tb_tableName t2 @ '' WHERE '' @ sch_PrimaryKey (tb_schema t2) @ '' = ?'', [json_image key])]"
proof -
  let ?d = "NewDrainer (tb_tableName t2) table_queue (table_executor t2) config"
  obtain s1 op where d: "Delete t1 key s = (None, s1)" "drain_ok s1" "op_Operation op = OperationDelete" "op_Key op = key"
    "world_pending (env s1) = world_pending (env s) @ [op_image op]" "w_log (env s1) = w_log (env s)"
    by (rule world_Delete_live [OF assms(1,2,5,4,7,8,9)])
  have ok: "drain_ok (with_env (env s1) s2)" using d(2) by (simp add: drain_ok_def)
  obtain n s3 where run: "drain_run ?d (\<lambda>s. (None, s)) [False] 0 (with_env (env s1) s2) = (n, s3)" by (metis surj_pair)
  obtain xs where xs: "world_pending (env s1) = xs @ world_pending (env s3)" "n = int (length xs)"
    "w_log (env s3) = w_log (env s1) @ concat (map (statement_of t2) xs)" "length (world_pending (env s1)) \<le> 1 \<longrightarrow> world_pending (env s3) = []"
    using steady_drain_env.drain_run_prefix [OF table_steady [OF assms(6)] _ _ _ ok run] by auto
  have "length (world_pending (env s1)) \<le> 1" using d(5) assms(3) by simp
  then have em: "world_pending (env s3) = []" using xs(4) by blast
  then have "xs = [op_image op]" using d(5) assms(3) xs(1) by simp
  moreover have "statement_of t2 (op_image op) = [(''DELETE FROM '' @ tb_tableName t2 @ '' WHERE '' @ sch_PrimaryKey (tb_schema t2) @ '' = ?'', [json_image key])]"
    using d(3,4) by (simp add: statement_of_def write_statement_def op_image_def OperationDelete_def OperationCreate_def OperationUpdate_def)
  ultimately show ?thesis using d(1,6) run xs em by (auto simp: run_def)
qed

theorem shared_queue_crosses_tables_witness:
  "\<exists>s1 s3. Delete (ex_table []) (VInt64 7) ex_state = (None, s1) \<and>
     run (\<lambda>_ _ s. (None, s)) (NewDrainer ''payment'' table_queue (table_executor ex_pay_table) DefaultDrainerConfig) [False] (with_env (env s1) ex_state) = (1, s3) \<and>
     w_log (env s3) = [(''DELETE FROM payment WHERE id = ?'', [json_image (VInt64 7)])]"
proof -
  have k: "BuildKey [] ''users'' (VInt64 7) = ''users:7''" by code_simp
  have qu: "queueable (ex_table []) (VInt64 7) None" using ex_record_queueable(1) [of "[]"] by (simp add: queueable_def)
  have p: "world_pending ex_world = []"
    by (simp add: world_pending_def rref.rq_pending_def rref.glist_def list_at_def ref_keys_def ref_lookup_def ex_world_def)
  have l: "w_log ex_world = []" "drain_ok ex_state" using ex_world_ok by (simp_all add: drain_ok_def ex_world_def)
  have b: "built_on world_kv world_queue world_db world_clock ex_pay_table" unfolding ex_pay_table_def by (rule NewTableImpl_built)
  have t: "tb_tableName ex_pay_table = ''payment''" "sch_PrimaryKey (tb_schema ex_pay_table) = ''id''"
    by (simp_all add: ex_pay_table_def NewTableImpl_def ex_pay_schema_def)
  show ?thesis
    using shared_queue_crosses_tables [OF l(2) _ _ _ ex_table_built [of "[]"] b qu, of DefaultDrainerConfig ex_state] k t p l(1) ex_world_ok(2) ex_record_queueable(2) ex_key_free(1)
    by auto
qed

end
